(* ===== verification/Prelude.thy ===== *)
theory Prelude
  imports Main
begin

text \<open>
  The vocabulary every component shares: Go error values with \<open>errors.Is\<close>, the
  two's-complement arithmetic of Go's 64-bit \<open>int\<close>, instants of the \<open>time\<close> package,
  \<open>strconv.Itoa\<close>, the result types of calls that change the outside world, and the
  facts on searching and updating a list by index on which the proofs about the worker
  pool rest.
\<close>

section \<open>Hint collections\<close>

named_theorems op_defs \<open>definitions of the operations of the program\<close>
named_theorems inv_intros \<open>preservation of a component's invariant by its operations\<close>

section \<open>Go errors\<close>

text \<open>
  Every package-level error variable of the two services is one \<open>sentinel\<close>; the two
  errors of the \<open>context\<close> package are sentinels as well.  An error made outside the
  repository (by the Docker client, NATS, PostgreSQL or the operating system) is
  \<open>External\<close>; \<open>fmt.Errorf\<close> with \<open>%w\<close> verbs is \<open>Errorf\<close>.
\<close>

datatype (plugins only: code) sentinel =
    Canceled | DeadlineExceeded
  \<comment> \<open>server-manager/app/mgr.go\<close>
  | ErrMgrAlreadyInit | ErrMgrAlreadyClosed | ErrMgrClosed | ErrMgrNoInit
  | ErrFailedToSpawnWorker | ErrFailedToGetResult | ErrFailedToUnmarshalResult
  | ErrFailedToAckResult | ErrHealthPingFailed | ErrNoFreeWorker | ErrWorkerStateChanged
  \<comment> \<open>server-manager/app/matchmaker.go and internal/errors.go\<close>
  | ErrNotEnoughUsers | ErrMatchmakerClosed | ErrMatchmakerAlreadyOpen
  | ErrDBNotEnoughPlayers | ErrDBWaitingUserDisconnected
  \<comment> \<open>server-manager/adapters/db.go\<close>
  | ErrDBConnNotOpen | ErrDBConnClosed | ErrDBConnAlreadyOpen | ErrDBConnAlreadyClosed
  | ErrDBNotListening | ErrDBListenerAlreadyStarted | ErrDBMatchNotFound
  \<comment> \<open>server-manager/adapters/docker.go\<close>
  | ErrImageEnvNotFound | ErrDockerConnNotInit | ErrDockerConnAlreadyInit
  | ErrDockerConnClosed | ErrGamePortNoBinding
  \<comment> \<open>server-manager/adapters/broker.go\<close>
  | ErrNATSConnCannotBeReopened | ErrNATSConnNotOpen | ErrNATSConnClosed
  | ErrNATSConnAlreadyOpen | ErrNATSConnAlreadyClosed
  \<comment> \<open>server-manager/config/env.go\<close>
  | ErrWorkerCountNotPositive | ErrClientPortNotInExposed | ErrInvalidPortString
  | ErrTooFewPlayersPerRoom | ErrInvalidLogLevel | ErrInvalidGameServerLogLevel
  \<comment> \<open>game-server/host/app/server.go\<close>
  | ErrServerNotOpened | ErrServerAlreadyOpened | ErrServerAlreadyClosed
  \<comment> \<open>game-server/host/adapters/exec.go\<close>
  | ErrFailedToCreateTempFile | ErrFailedToWriteConfig | ErrGameServerFailedToStart
  | ErrExecutorNotActive | ErrExecutorAlreadyActive
  \<comment> \<open>game-server/host/adapters/broker.go\<close>
  | ErrConnectionNotOpen | ErrConnectionAlreadyOpen | ErrConnectionAlreadyClosed

datatype go_error =
    Sentinel sentinel
  | External string
  | Errorf string "go_error list"

text \<open>\<open>errors.Is\<close>: the target is the error or one of those it wraps, at any depth.\<close>

fun errors_is :: "go_error \<Rightarrow> sentinel \<Rightarrow> bool" where
  "errors_is (Sentinel s) t = (s = t)"
| "errors_is (External _) t = False"
| "errors_is (Errorf _ es) t = list_ex (\<lambda>e. errors_is e t) es"

text \<open>\<open>errors.Is(nil, target)\<close> is false for a non-nil target.\<close>

definition error_is :: "go_error option \<Rightarrow> sentinel \<Rightarrow> bool" where
  "error_is r t = (case r of None \<Rightarrow> False | Some e \<Rightarrow> errors_is e t)"

lemma error_is_simps [simp]:
  "error_is None t = False"
  "error_is (Some e) t = errors_is e t"
  by (simp_all add: error_is_def)

section \<open>Calls on the outside world\<close>

text \<open>
  A call made through one of the Go interfaces takes the state \<open>'w\<close> of the outside world
  (containers, broker, database, processes) and returns it changed, next to its result:
  an error or nil for a \<open>proc\<close>, an error or a value for a \<open>call\<close>.
\<close>

type_synonym 'w proc = "'w \<Rightarrow> go_error option \<times> 'w"
type_synonym ('w, 'a) call = "'w \<Rightarrow> (go_error + 'a) \<times> 'w"

type_synonym bytes = string

section \<open>Machine integers\<close>

text \<open>Go's \<open>int\<close> on the 64-bit platforms the services are built for: sums wrap around.\<close>

definition wrap64 :: "int \<Rightarrow> int" where
  "wrap64 i = signed_take_bit 63 i"

lemma wrap64_id: "- (2 ^ 63) \<le> i \<Longrightarrow> i < 2 ^ 63 \<Longrightarrow> wrap64 i = i"
  by (simp add: wrap64_def signed_take_bit_int_eq_self)

lemma wrap64_range: "- (2 ^ 63) \<le> wrap64 i" "wrap64 i < 2 ^ 63"
  using signed_take_bit_int_greater_eq_minus_exp [of 63 i] signed_take_bit_int_less_exp [of 63 i]
  by (simp_all add: wrap64_def)

lemma wrap64_wrap64 [simp]: "wrap64 (wrap64 i) = wrap64 i"
  using wrap64_range [of i] by (intro wrap64_id) auto

section \<open>Time\<close>

text \<open>
  An instant is its distance in nanoseconds from the zero \<open>time.Time\<close> (January 1, year 1),
  a duration a number of nanoseconds.
\<close>

type_synonym time = int
type_synonym duration = int

definition zero_time :: time where
  "zero_time = 0"

definition IsZero :: "time \<Rightarrow> bool" where
  "IsZero t = (t = zero_time)"

definition Before :: "time \<Rightarrow> time \<Rightarrow> bool" where
  "Before t u = (t < u)"

definition milliseconds :: "int \<Rightarrow> duration" where
  "milliseconds n = n * 1000000"

definition seconds :: "int \<Rightarrow> duration" where
  "seconds n = n * 1000000000"

section \<open>Decimal numerals\<close>

text \<open>\<open>strconv.Itoa\<close> on a number that is not negative.\<close>

definition digit_char :: "nat \<Rightarrow> char" where
  "digit_char d = char_of (48 + d)"

fun Itoa :: "nat \<Rightarrow> string" where
  "Itoa n = (if n < 10 then [digit_char n] else Itoa (n div 10) @ [digit_char (n mod 10)])"

declare Itoa.simps [simp del]

definition digit_val :: "char \<Rightarrow> nat" where
  "digit_val c = of_char c - 48"

lemma digit_val_digit_char: "d < 10 \<Longrightarrow> digit_val (digit_char d) = d"
  by (simp add: digit_val_def digit_char_def)

definition digits_val :: "string \<Rightarrow> nat" where
  "digits_val = foldl (\<lambda>n c. 10 * n + digit_val c) 0"

lemma digits_val_Itoa: "digits_val (Itoa n) = n"
proof (induction n rule: Itoa.induct)
  case (1 n)
  show ?case
  proof (cases "n < 10")
    case True
    then show ?thesis
      by (simp add: Itoa.simps [of n] digits_val_def digit_val_digit_char)
  next
    case False
    with "1.IH" have "digits_val (Itoa (n div 10)) = n div 10" by simp
    with False show ?thesis
      by (simp add: Itoa.simps [of n] digits_val_def digit_val_digit_char)
  qed
qed

lemma Itoa_inj: "Itoa m = Itoa n \<Longrightarrow> m = n"
  by (metis digits_val_Itoa)

lemma Itoa_nonempty [simp]: "Itoa n \<noteq> []"
  by (simp add: Itoa.simps [of n])

section \<open>Searching and updating lists\<close>

text \<open>
  A loop \<open>for _, x := range xs { if p(x) { return x } }\<close> over a slice of pointers finds the
  first element with the property; its index is the pointer's identity.
\<close>

fun find_index :: "('a \<Rightarrow> bool) \<Rightarrow> 'a list \<Rightarrow> nat option" where
  "find_index P [] = None"
| "find_index P (x # xs) = (if P x then Some 0 else map_option Suc (find_index P xs))"

lemma find_index_None: "find_index P xs = None \<longleftrightarrow> (\<forall>x\<in>set xs. \<not> P x)"
  by (induction xs) auto

lemma find_index_Some:
  "find_index P xs = Some i \<Longrightarrow> i < length xs \<and> P (xs ! i) \<and> (\<forall>j<i. \<not> P (xs ! j))"
proof (induction xs arbitrary: i)
  case Nil
  then show ?case by simp
next
  case (Cons x xs)
  show ?case
  proof (cases "P x")
    case True
    with Cons.prems show ?thesis by simp
  next
    case False
    with Cons.prems obtain k where k: "find_index P xs = Some k" "i = Suc k" by auto
    have "k < length xs \<and> P (xs ! k) \<and> (\<forall>j<k. \<not> P (xs ! j))"
      by (rule Cons.IH [OF k(1)])
    with False k(2) show ?thesis by (auto simp: less_Suc_eq_0_disj)
  qed
qed

lemma find_indexD:
  assumes "find_index P xs = Some i"
  shows find_index_less: "i < length xs" and find_index_sat: "P (xs ! i)"
    and find_index_first: "j < i \<Longrightarrow> \<not> P (xs ! j)"
  using find_index_Some [OF assms] by auto

lemma find_index_exists: "x \<in> set xs \<Longrightarrow> P x \<Longrightarrow> \<exists>i. find_index P xs = Some i"
  by (metis find_index_None not_None_eq)

text \<open>Updating one element keeps what holds of all others.\<close>

lemma nth_list_update_if [simp]:
  "j < length xs \<Longrightarrow> xs[i := x] ! j = (if i = j then x else xs ! j)"
  by (cases "i < length xs") (auto simp: nth_list_update list_update_beyond)

lemma list_all_update:
  "list_all P xs \<Longrightarrow> P y \<Longrightarrow> list_all P (xs[i := y])"
  by (auto simp: list_all_iff dest: set_update_subset_insert [THEN subsetD])

lemma list_all_nth: "list_all P xs \<Longrightarrow> i < length xs \<Longrightarrow> P (xs ! i)"
  by (simp add: list_all_length)

lemma map_update_same: "f y = f (xs ! i) \<Longrightarrow> map f (xs[i := y]) = map f xs"
  by (cases "i < length xs") (simp_all add: map_update list_update_beyond, metis list_update_id map_update nth_map)

end
