(* ===== verification/Types.thy ===== *)
theory Types
  imports Prelude
begin

text \<open>
  The data the server-manager's components exchange (\<open>server-manager/internal/structs.go\<close>
  and \<open>types.go\<close>) and its ports (\<open>server-manager/internal/interface.go\<close>): one record of
  functions per Go interface.  A method takes and returns the state \<open>'w\<close> of everything
  behind the interface, so that an adapter, a mock and a whole composed system are all
  values of the same type.
\<close>

section \<open>Structures\<close>

text \<open>
  \<open>network.Port\<close> is a comparable value of the Docker API package and a \<open>network.PortSet\<close> a
  map used as a set of them; only comparison and membership are used here.
  \<open>slog.Level\<close> is a signed integer.
\<close>

type_synonym port = string
type_synonym log_level = int

record EnvConfig =
  Image :: string
  Workercount :: int
  ExposePorts :: "port set"
  ClientPort :: port
  BrokerURI :: string
  BrokerNetworkName :: string
  PublicHost :: string
  DatabaseURI :: string
  PlayersPerRoom :: int
  LogLevel :: log_level
  GameServerLogLevel :: log_level
  TestMakeContainerDummy :: bool

text \<open>
  A \<open>json.RawMessage\<close> is the text of a JSON value.  The struct fields \<open>MatchID\<close> of
  \<open>MatchConfig\<close> and \<open>Result\<close> carry a prefix, since \<open>Worker\<close> has a field of that name too.
\<close>

type_synonym RawMessage = bytes

record MatchConfig =
  cfg_MatchID :: int
  Config :: RawMessage

record Result =
  Success :: bool
  res_MatchID :: int
  Details :: RawMessage

record User =
  Login :: string
  MatchAuthToken :: string

record ServerInfo =
  Host :: string
  Port :: string

text \<open>\<open>Responders\<close>: a map from worker IDs to the empty struct, that is, a set of IDs.\<close>

type_synonym Responders = "string set"

section \<open>Ports\<close>

record 'w DockerConnection_ops =
  docker_Open :: "EnvConfig \<Rightarrow> 'w proc"
  docker_Close :: "'w proc"
  docker_SpawnContainer :: "string \<Rightarrow> ('w, string) call"
  docker_RestartContainer :: "string \<Rightarrow> 'w proc"
  docker_RemoveContainer :: "string \<Rightarrow> 'w proc"
  docker_GetGamePort :: "string \<Rightarrow> ('w, string) call"
  docker_RemoveZombieWorkers :: "'w proc"

record 'w Message =
  Data :: bytes
  Ack :: "'w proc"

record 'w BrokerConnection_ops =
  broker_Open :: "EnvConfig \<Rightarrow> 'w proc"
  broker_Close :: "'w proc"
  broker_AssignJob :: "string \<Rightarrow> MatchConfig \<Rightarrow> 'w proc"
  broker_GetResult :: "('w, 'w Message) call"
  broker_GetWorkersPong :: "duration \<Rightarrow> ('w, Responders) call"

record 'w DatabaseConnection_ops =
  db_Open :: "'w proc"
  db_Close :: "'w proc"
  db_SetupMatchmaking :: "'w proc"
  db_GatherMatchPlayers :: "('w, User list) call"
  db_GenerateAuthTokens :: "User list \<Rightarrow> ('w, User list) call"
  db_GetNextMatchId :: "('w, int) call"
  db_AddMatch :: "User list \<Rightarrow> ServerInfo \<Rightarrow> int \<Rightarrow> 'w proc"
  db_RemoveMatchStatus :: "int \<Rightarrow> 'w proc"
  db_SaveMatchResults :: "Result \<Rightarrow> 'w proc"

text \<open>
  What the loops read of the Go runtime: the clock (\<open>time.Now\<close>), and the error of the
  context they were started with (\<open>ctx.Err()\<close>, nil until the context is done).
\<close>

record 'w runtime =
  time_Now :: "'w \<Rightarrow> time \<times> 'w"
  ctx_Err :: "'w \<Rightarrow> go_error option"

end
