(* ===== verification/Worker.thy ===== *)
theory Worker
  imports Prelude
begin

text \<open>
  \<open>server-manager/app/worker.go\<close>: the record the manager keeps of one game-server
  container, its three states, and the transitions between them.  \<open>StateID\<close> and
  \<open>failCount\<close> are Go \<open>int\<close>s: their increments wrap around at 64 bits.
\<close>

section \<open>State and operations\<close>

datatype WorkerState = WorkerFree | WorkerOccupied | WorkerRestarting

record Worker =
  ID :: string
  ContainerID :: string
  State :: WorkerState
  StateID :: int
  stateValidUntil :: time
  MatchID :: int
  failCount :: int
  maxPingRetries :: int
  restartTimeout :: duration

definition NewWorker :: "string \<Rightarrow> string \<Rightarrow> int \<Rightarrow> duration \<Rightarrow> Worker" where
  "NewWorker workerID containerID maxRetries timeout =
     \<lparr>ID = workerID, ContainerID = containerID, State = WorkerFree, StateID = 0,
      stateValidUntil = zero_time, MatchID = 0, failCount = 0,
      maxPingRetries = maxRetries, restartTimeout = timeout\<rparr>"

text \<open>The transitions return the new state ID next to the changed worker.\<close>

definition SetFree :: "Worker \<Rightarrow> int \<times> Worker" where
  "SetFree w =
     (let w' = w\<lparr>State := WorkerFree, StateID := wrap64 (StateID w + 1),
                 stateValidUntil := zero_time, MatchID := 0, failCount := 0\<rparr>
      in (StateID w', w'))"

definition SetRestarting :: "time \<Rightarrow> Worker \<Rightarrow> int \<times> Worker" where
  "SetRestarting now w =
     (let w' = w\<lparr>State := WorkerRestarting, StateID := wrap64 (StateID w + 1),
                 stateValidUntil := now + restartTimeout w, MatchID := 0, failCount := 0\<rparr>
      in (StateID w', w'))"

definition SetOccupied :: "int \<Rightarrow> Worker \<Rightarrow> int \<times> Worker" where
  "SetOccupied matchID w =
     (let w' = w\<lparr>State := WorkerOccupied, StateID := wrap64 (StateID w + 1),
                 stateValidUntil := zero_time, MatchID := matchID, failCount := 0\<rparr>
      in (StateID w', w'))"

definition HandlePong :: "bool \<Rightarrow> Worker \<Rightarrow> Worker" where
  "HandlePong pong w =
     (if State w = WorkerRestarting then w
      else if \<not> pong then w\<lparr>failCount := wrap64 (failCount w + 1)\<rparr>
      else w\<lparr>failCount := 0\<rparr>)"

definition isStateValid :: "time \<Rightarrow> Worker \<Rightarrow> bool" where
  "isStateValid now w = (IsZero (stateValidUntil w) \<or> Before now (stateValidUntil w))"

definition IsHealthy :: "time \<Rightarrow> Worker \<Rightarrow> bool" where
  "IsHealthy now w = (isStateValid now w \<and> failCount w \<le> maxPingRetries w)"

lemmas worker_defs [op_defs] =
  NewWorker_def SetFree_def SetRestarting_def SetOccupied_def HandlePong_def
  isStateValid_def IsHealthy_def

section \<open>What each transition leaves of the worker\<close>

lemma SetFree_sel [simp]:
  "fst (SetFree w) = wrap64 (StateID w + 1)"
  "ID (snd (SetFree w)) = ID w"
  "ContainerID (snd (SetFree w)) = ContainerID w"
  "State (snd (SetFree w)) = WorkerFree"
  "StateID (snd (SetFree w)) = wrap64 (StateID w + 1)"
  "stateValidUntil (snd (SetFree w)) = zero_time"
  "MatchID (snd (SetFree w)) = 0"
  "failCount (snd (SetFree w)) = 0"
  "maxPingRetries (snd (SetFree w)) = maxPingRetries w"
  "restartTimeout (snd (SetFree w)) = restartTimeout w"
  by (simp_all add: SetFree_def)

lemma SetRestarting_sel [simp]:
  "fst (SetRestarting now w) = wrap64 (StateID w + 1)"
  "ID (snd (SetRestarting now w)) = ID w"
  "ContainerID (snd (SetRestarting now w)) = ContainerID w"
  "State (snd (SetRestarting now w)) = WorkerRestarting"
  "StateID (snd (SetRestarting now w)) = wrap64 (StateID w + 1)"
  "stateValidUntil (snd (SetRestarting now w)) = now + restartTimeout w"
  "MatchID (snd (SetRestarting now w)) = 0"
  "failCount (snd (SetRestarting now w)) = 0"
  "maxPingRetries (snd (SetRestarting now w)) = maxPingRetries w"
  "restartTimeout (snd (SetRestarting now w)) = restartTimeout w"
  by (simp_all add: SetRestarting_def)

lemma SetOccupied_sel [simp]:
  "fst (SetOccupied m w) = wrap64 (StateID w + 1)"
  "ID (snd (SetOccupied m w)) = ID w"
  "ContainerID (snd (SetOccupied m w)) = ContainerID w"
  "State (snd (SetOccupied m w)) = WorkerOccupied"
  "StateID (snd (SetOccupied m w)) = wrap64 (StateID w + 1)"
  "stateValidUntil (snd (SetOccupied m w)) = zero_time"
  "MatchID (snd (SetOccupied m w)) = m"
  "failCount (snd (SetOccupied m w)) = 0"
  "maxPingRetries (snd (SetOccupied m w)) = maxPingRetries w"
  "restartTimeout (snd (SetOccupied m w)) = restartTimeout w"
  by (simp_all add: SetOccupied_def)

lemma HandlePong_sel [simp]:
  "ID (HandlePong p w) = ID w"
  "ContainerID (HandlePong p w) = ContainerID w"
  "State (HandlePong p w) = State w"
  "StateID (HandlePong p w) = StateID w"
  "stateValidUntil (HandlePong p w) = stateValidUntil w"
  "MatchID (HandlePong p w) = MatchID w"
  "maxPingRetries (HandlePong p w) = maxPingRetries w"
  "restartTimeout (HandlePong p w) = restartTimeout w"
  by (simp_all add: HandlePong_def)

section \<open>Well-formed workers\<close>

text \<open>
  Only an occupied worker has a match, only a restarting one has a deadline, a restarting
  one has no failed pings, and the counter of failed pings is at most one above the
  allowed number (where the next health check restarts the worker).
\<close>

definition wf_worker :: "Worker \<Rightarrow> bool" where
  "wf_worker w \<longleftrightarrow>
     (State w \<noteq> WorkerOccupied \<longrightarrow> MatchID w = 0) \<and>
     (State w \<noteq> WorkerRestarting \<longrightarrow> stateValidUntil w = zero_time) \<and>
     (State w = WorkerRestarting \<longrightarrow> failCount w = 0) \<and>
     0 \<le> failCount w \<and> failCount w \<le> maxPingRetries w \<and>
     0 \<le> maxPingRetries w \<and> maxPingRetries w < 2 ^ 62"

lemma wf_worker_free: "wf_worker w \<Longrightarrow> State w = WorkerFree \<Longrightarrow> MatchID w = 0"
  by (simp add: wf_worker_def)

lemma wf_worker_restarting: "wf_worker w \<Longrightarrow> State w = WorkerRestarting \<Longrightarrow> MatchID w = 0"
  by (simp add: wf_worker_def)

lemma wf_NewWorker [inv_intros]:
  "0 \<le> r \<Longrightarrow> r < 2 ^ 62 \<Longrightarrow> wf_worker (NewWorker i c r t)"
  by (simp add: wf_worker_def NewWorker_def)

lemma wf_SetFree [inv_intros]: "wf_worker w \<Longrightarrow> wf_worker (snd (SetFree w))"
  by (simp add: wf_worker_def)

lemma wf_SetRestarting [inv_intros]: "wf_worker w \<Longrightarrow> wf_worker (snd (SetRestarting now w))"
  by (simp add: wf_worker_def)

lemma wf_SetOccupied [inv_intros]: "wf_worker w \<Longrightarrow> wf_worker (snd (SetOccupied m w))"
  by (simp add: wf_worker_def)

text \<open>
  A missed pong can leave the counter one above the limit, and then the worker is not
  healthy: a worker that a health check passed as healthy is well-formed again.
\<close>

lemma wf_HandlePong_healthy [inv_intros]:
  assumes "wf_worker w" and "IsHealthy now (HandlePong p w)"
  shows "wf_worker (HandlePong p w)"
proof -
  have "wrap64 (failCount w + 1) = failCount w + 1"
    using assms(1) by (intro wrap64_id) (auto simp: wf_worker_def)
  with assms show ?thesis
    by (auto simp: wf_worker_def HandlePong_def IsHealthy_def split: if_splits)
qed

lemma wf_HandlePong_SetRestarting [inv_intros]:
  "wf_worker w \<Longrightarrow> wf_worker (snd (SetRestarting now (HandlePong p w)))"
  by (simp add: wf_worker_def)

text \<open>A free or occupied worker has no deadline, so its health is its ping counter alone.\<close>

lemma IsHealthy_not_restarting:
  "wf_worker w \<Longrightarrow> State w \<noteq> WorkerRestarting \<Longrightarrow>
   IsHealthy now w = (failCount w \<le> maxPingRetries w)"
  by (simp add: wf_worker_def IsHealthy_def isStateValid_def IsZero_def)

lemma IsHealthy_restarting:
  "wf_worker w \<Longrightarrow> State w = WorkerRestarting \<Longrightarrow> stateValidUntil w \<noteq> zero_time \<Longrightarrow>
   IsHealthy now w = (now < stateValidUntil w)"
  by (auto simp: wf_worker_def IsHealthy_def isStateValid_def IsZero_def Before_def)

section \<open>Consecutive missed pongs\<close>

fun pongs :: "bool list \<Rightarrow> Worker \<Rightarrow> Worker" where
  "pongs [] w = w"
| "pongs (p # ps) w = pongs ps (HandlePong p w)"

lemma pongs_append: "pongs (ps @ qs) w = pongs qs (pongs ps w)"
  by (induction ps arbitrary: w) simp_all

lemma pongs_sel [simp]:
  "State (pongs ps w) = State w"
  "stateValidUntil (pongs ps w) = stateValidUntil w"
  "maxPingRetries (pongs ps w) = maxPingRetries w"
  by (induction ps arbitrary: w) simp_all

lemma missed_pongs_failCount:
  assumes "State w \<noteq> WorkerRestarting" and "0 \<le> failCount w" and "failCount w + int k < 2 ^ 63"
  shows "failCount (pongs (replicate k False) w) = failCount w + int k"
  using assms
proof (induction k arbitrary: w)
  case 0
  then show ?case by simp
next
  case (Suc k)
  have one: "failCount (HandlePong False w) = failCount w + 1"
    using Suc.prems by (simp add: HandlePong_def wrap64_id)
  have "failCount (pongs (replicate k False) (HandlePong False w)) = failCount w + 1 + int k"
    using Suc.prems by (subst Suc.IH) (simp_all add: one)
  then show ?case by simp
qed

text \<open>
  The ping budget is exact.  A worker that is not restarting and has just answered a
  ping stays healthy through \<open>maxPingRetries\<close> consecutive missed pings and is unhealthy
  after the next one; the counter does not wrap on the way.
\<close>

theorem missed_pongs_healthy_iff:
  assumes "wf_worker w" and "State w \<noteq> WorkerRestarting" and "int k < 2 ^ 62"
  shows "IsHealthy now (pongs (True # replicate k False) w) \<longleftrightarrow> int k \<le> maxPingRetries w"
proof -
  let ?w = "HandlePong True w"
  have "failCount ?w = 0" using assms(2) by (simp add: HandlePong_def)
  then have "failCount (pongs (replicate k False) ?w) = int k"
    using assms(2,3) by (subst missed_pongs_failCount) simp_all
  moreover have "stateValidUntil (pongs (replicate k False) ?w) = zero_time"
    using assms(1,2) by (simp add: wf_worker_def)
  ultimately show ?thesis
    by (simp add: IsHealthy_def isStateValid_def IsZero_def)
qed

theorem missed_pongs_healthy_iff_witness:
  "IsHealthy 7 (pongs (True # replicate 3 False) (NewWorker ''0'' ''c'' 3 30)) \<and>
   \<not> IsHealthy 7 (pongs (True # replicate 4 False) (NewWorker ''0'' ''c'' 3 30))"
proof -
  let ?w = "NewWorker ''0'' ''c'' 3 30"
  have wf: "wf_worker ?w" by (rule wf_NewWorker) simp_all
  have st: "State ?w \<noteq> WorkerRestarting" by (simp add: NewWorker_def)
  show ?thesis
    using missed_pongs_healthy_iff [OF wf st, of 3 7] missed_pongs_healthy_iff [OF wf st, of 4 7]
    by (simp add: NewWorker_def)
qed

end
