(* ===== verification/Manager.thy ===== *)
theory Manager
  imports Types Worker
begin

text \<open>
  \<open>server-manager/app/mgr.go\<close>: the worker manager.  Each operation is a function on the
  manager's struct and on the state \<open>'w\<close> of the world behind its connections.  A code
  region that runs under \<open>wm.mu\<close> is one function, so that the interleavings of the
  goroutines are sequences of these functions (theory \<open>ManagerSystem\<close>); an operation that
  releases the lock in between, or that has a channel operation or a call before it takes
  the lock, is given in its parts and as their composition.

  Slices of pointers: a worker is identified by its index in \<open>workers\<close>, which never
  changes once \<open>Start\<close> has returned.  An operation that blocks in the current state (a
  send on the full channel, \<open>wg.Wait\<close> with goroutines running) is \<open>None\<close>.
\<close>

section \<open>State\<close>

text \<open>
  The goroutines counted by \<open>wm.wg\<close>.  A restart goroutine first calls Docker without the
  lock, then enters its critical section.
\<close>

datatype goroutine =
    SaveLoop | ResultLoop | HealthLoop
  | RestartCall nat int
  | RestartLock nat int

text \<open>
  The condition variable \<open>newfreeWorker\<close> has at most one waiter, the matchmaker:
  \<open>Blocked\<close> while it sleeps in \<open>Wait\<close>, \<open>Woken\<close> once it has been signalled.
\<close>

datatype cond_state = NoWaiter | Blocked | Woken

definition Signal :: "cond_state \<Rightarrow> cond_state" where
  "Signal c = (if c = Blocked then Woken else c)"

record 'w WorkerManager =
  workers :: "Worker list"
  dockerConn :: "'w DockerConnection_ops"
  brokerConn :: "'w BrokerConnection_ops"
  dbConn :: "'w DatabaseConnection_ops"
  wm_initialized :: bool
  wm_closed :: bool
  config :: EnvConfig
  healthCheckTick :: duration
  resultChanSize :: nat
  workerCount :: int
  workerMaxPingRetries :: int
  workerRestartTimeout :: duration
  workerPongTimeout :: duration
  saveResultChan :: "Result list"
  newfreeWorker :: cond_state
  waiting :: bool
  wg :: "goroutine list"

definition NewWorkerManager ::
    "'w DockerConnection_ops \<Rightarrow> 'w BrokerConnection_ops \<Rightarrow> 'w DatabaseConnection_ops \<Rightarrow>
     EnvConfig \<Rightarrow> 'w WorkerManager" where
  "NewWorkerManager docker broker db cfg =
     \<lparr>workers = [], dockerConn = docker, brokerConn = broker, dbConn = db,
      wm_initialized = False, wm_closed = False, config = cfg,
      healthCheckTick = seconds 3, resultChanSize = 8192, workerCount = Workercount cfg,
      workerMaxPingRetries = 3, workerRestartTimeout = seconds 30,
      workerPongTimeout = seconds 2,
      saveResultChan = [], newfreeWorker = NoWaiter, waiting = False, wg = []\<rparr>"

text \<open>Assigning through the pointer to worker \<open>i\<close>; signalling the condition variable.\<close>

definition upd_worker :: "nat \<Rightarrow> Worker \<Rightarrow> 'w WorkerManager \<Rightarrow> 'w WorkerManager" where
  "upd_worker i wk wm = wm\<lparr>workers := (workers wm)[i := wk]\<rparr>"

definition signal_free :: "'w WorkerManager \<Rightarrow> 'w WorkerManager" where
  "signal_free wm = wm\<lparr>newfreeWorker := Signal (newfreeWorker wm)\<rparr>"

text \<open>\<open>wm.saveResultChan <- res\<close> on the buffered channel.\<close>

definition chan_send :: "Result \<Rightarrow> 'w WorkerManager \<Rightarrow> 'w WorkerManager option" where
  "chan_send res wm =
     (if length (saveResultChan wm) < resultChanSize wm
      then Some (wm\<lparr>saveResultChan := saveResultChan wm @ [res]\<rparr>)
      else None)"

text \<open>\<open>res := <-wm.saveResultChan\<close>.\<close>

definition chan_recv :: "'w WorkerManager \<Rightarrow> (Result \<times> 'w WorkerManager) option" where
  "chan_recv wm =
     (case saveResultChan wm of
        [] \<Rightarrow> None
      | res # rest \<Rightarrow> Some (res, wm\<lparr>saveResultChan := rest\<rparr>))"

section \<open>Looking workers up\<close>

definition getWorkerByMatchID :: "int \<Rightarrow> 'w WorkerManager \<Rightarrow> nat option" where
  "getWorkerByMatchID matchID wm = find_index (\<lambda>wk. MatchID wk = matchID) (workers wm)"

definition getFreeWorker :: "'w WorkerManager \<Rightarrow> nat option" where
  "getFreeWorker wm = find_index (\<lambda>wk. State wk = WorkerFree) (workers wm)"

section \<open>Start and Shutdown\<close>

text \<open>The spawn loop of \<open>Start\<close>, over the indices \<open>range wm.workerCount\<close>.\<close>

fun spawn_workers ::
    "nat list \<Rightarrow> 'w WorkerManager \<Rightarrow> 'w \<Rightarrow> go_error option \<times> 'w WorkerManager \<times> 'w" where
  "spawn_workers [] wm w = (None, wm, w)"
| "spawn_workers (idx # rest) wm w =
     (let workerID = Itoa idx in
      case docker_SpawnContainer (dockerConn wm) workerID w of
        (Inl e, w1) \<Rightarrow>
          (Some (Errorf ''%w: %w'' [Sentinel ErrFailedToSpawnWorker, e]), wm, w1)
      | (Inr containerID, w1) \<Rightarrow>
          spawn_workers rest
            (wm\<lparr>workers := workers wm @
                 [NewWorker workerID containerID (workerMaxPingRetries wm)
                    (workerRestartTimeout wm)]\<rparr>) w1)"

definition Start ::
    "'w WorkerManager \<Rightarrow> 'w \<Rightarrow> go_error option \<times> 'w WorkerManager \<times> 'w" where
  "Start wm w =
     (if wm_closed wm then (Some (Sentinel ErrMgrClosed), wm, w)
      else if wm_initialized wm then (Some (Sentinel ErrMgrAlreadyInit), wm, w)
      else case docker_Open (dockerConn wm) (config wm) w of
        (Some e, w1) \<Rightarrow> (Some (Errorf ''failed to open docker connection: %w'' [e]), wm, w1)
      | (None, w1) \<Rightarrow>
     (case broker_Open (brokerConn wm) (config wm) w1 of
        (Some e, w2) \<Rightarrow> (Some (Errorf ''failed to open broker connection: %w'' [e]), wm, w2)
      | (None, w2) \<Rightarrow>
     (case db_Open (dbConn wm) w2 of
        (Some e, w3) \<Rightarrow> (Some (Errorf ''failed to open database connection: %w'' [e]), wm, w3)
      | (None, w3) \<Rightarrow>
     (case docker_RemoveZombieWorkers (dockerConn wm) w3 of
        (Some e, w4) \<Rightarrow> (Some (Errorf ''failed to remove zombie workers: %w'' [e]), wm, w4)
      | (None, w4) \<Rightarrow>
     (case spawn_workers [0..<nat (workerCount wm)] wm w4 of
        (Some e, wm1, w5) \<Rightarrow> (Some e, wm1, w5)
      | (None, wm1, w5) \<Rightarrow>
          (None,
           wm1\<lparr>saveResultChan := [], newfreeWorker := NoWaiter, wm_initialized := True,
               wg := wg wm1 @ [SaveLoop, ResultLoop, HealthLoop]\<rparr>,
           w5))))))"

text \<open>
  \<open>Shutdown\<close> up to \<open>wg.Wait()\<close>: the containers are removed and the connections closed, the
  errors only logged.  Then it waits for every goroutine, and marks the manager closed.
\<close>

fun remove_containers :: "'w DockerConnection_ops \<Rightarrow> Worker list \<Rightarrow> 'w \<Rightarrow> 'w" where
  "remove_containers docker [] w = w"
| "remove_containers docker (wk # wks) w =
     remove_containers docker wks (snd (docker_RemoveContainer docker (ContainerID wk) w))"

definition Shutdown_release :: "'w WorkerManager \<Rightarrow> 'w \<Rightarrow> 'w" where
  "Shutdown_release wm w =
     (let w1 = remove_containers (dockerConn wm) (workers wm) w;
          w2 = snd (docker_Close (dockerConn wm) w1);
          w3 = snd (broker_Close (brokerConn wm) w2)
      in snd (db_Close (dbConn wm) w3))"

definition Shutdown_wait :: "'w WorkerManager \<Rightarrow> 'w WorkerManager option" where
  "Shutdown_wait wm = (if wg wm = [] then Some (wm\<lparr>wm_closed := True\<rparr>) else None)"

definition Shutdown :: "'w WorkerManager \<Rightarrow> 'w \<Rightarrow> ('w WorkerManager \<times> 'w) option" where
  "Shutdown wm w =
     (if wm_closed wm then Some (wm, w)
      else map_option (\<lambda>wm'. (wm', Shutdown_release wm w)) (Shutdown_wait wm))"

section \<open>Waiting for a worker and assigning a match\<close>

text \<open>
  One turn of the loop of \<open>WaitForFreeWorker\<close> under the lock: either the function returns,
  or it goes to sleep in \<open>newfreeWorker.Wait()\<close>, which releases the lock.  On return the
  deferred statements clear \<open>waiting\<close>.
\<close>

datatype wait_outcome = WaitReturns | WaitSleeps

definition WaitForFreeWorker_turn ::
    "go_error option \<Rightarrow> 'w WorkerManager \<Rightarrow> wait_outcome \<times> 'w WorkerManager" where
  "WaitForFreeWorker_turn ctxErr wm =
     (if getFreeWorker wm \<noteq> None then (WaitReturns, wm\<lparr>waiting := False, newfreeWorker := NoWaiter\<rparr>)
      else if ctxErr \<noteq> None then (WaitReturns, wm\<lparr>waiting := False, newfreeWorker := NoWaiter\<rparr>)
      else (WaitSleeps, wm\<lparr>waiting := True, newfreeWorker := Blocked\<rparr>))"

definition AssignMatch ::
    "MatchConfig \<Rightarrow> 'w WorkerManager \<Rightarrow> 'w \<Rightarrow>
     (go_error + ServerInfo) \<times> 'w WorkerManager \<times> 'w" where
  "AssignMatch cfg wm w =
     (if \<not> wm_initialized wm then (Inl (Sentinel ErrMgrNoInit), wm, w)
      else if wm_closed wm then (Inl (Sentinel ErrMgrClosed), wm, w)
      else case getFreeWorker wm of
        None \<Rightarrow> (Inl (Sentinel ErrNoFreeWorker), wm, w)
      | Some i \<Rightarrow>
     (case docker_GetGamePort (dockerConn wm) (ContainerID (workers wm ! i)) w of
        (Inl e, w1) \<Rightarrow> (Inl e, wm, w1)
      | (Inr gamePort, w1) \<Rightarrow>
     (case broker_AssignJob (brokerConn wm) (ID (workers wm ! i)) cfg w1 of
        (Some e, w2) \<Rightarrow> (Inl e, wm, w2)
      | (None, w2) \<Rightarrow>
          (Inr \<lparr>Host = PublicHost (config wm), Port = gamePort\<rparr>,
           upd_worker i (snd (SetOccupied (cfg_MatchID cfg) (workers wm ! i))) wm,
           w2))))"

section \<open>The result loop\<close>

text \<open>
  \<open>handleResults\<close> fetches, decodes and acknowledges a message; sends the result to the
  save loop; and then, under the lock, frees the worker of the match.  The decoder
  \<open>json.Unmarshal\<close> into a \<open>Result\<close> is an argument.
\<close>

definition handleResults_fetch ::
    "(bytes \<Rightarrow> go_error + Result) \<Rightarrow> 'w WorkerManager \<Rightarrow> ('w, Result) call" where
  "handleResults_fetch unmarshal wm w =
     (case broker_GetResult (brokerConn wm) w of
        (Inl e, w1) \<Rightarrow> (Inl (Errorf ''%w: %w'' [Sentinel ErrFailedToGetResult, e]), w1)
      | (Inr msg, w1) \<Rightarrow>
     (case unmarshal (Data msg) of
        Inl e \<Rightarrow> (Inl (Errorf ''%w: %w'' [Sentinel ErrFailedToUnmarshalResult, e]), w1)
      | Inr res \<Rightarrow>
     (case Ack msg w1 of
        (Some e, w2) \<Rightarrow> (Inl (Errorf ''%w: %w'' [Sentinel ErrFailedToAckResult, e]), w2)
      | (None, w2) \<Rightarrow> (Inr res, w2))))"

definition handleResults_free :: "Result \<Rightarrow> 'w WorkerManager \<Rightarrow> 'w WorkerManager" where
  "handleResults_free res wm =
     (case getWorkerByMatchID (res_MatchID res) wm of
        None \<Rightarrow> wm
      | Some i \<Rightarrow> signal_free (upd_worker i (snd (SetFree (workers wm ! i))) wm))"

definition handleResults ::
    "(bytes \<Rightarrow> go_error + Result) \<Rightarrow> 'w WorkerManager \<Rightarrow> 'w \<Rightarrow>
     (go_error option \<times> 'w WorkerManager \<times> 'w) option" where
  "handleResults unmarshal wm w =
     (case handleResults_fetch unmarshal wm w of
        (Inl e, w1) \<Rightarrow> Some (Some e, wm, w1)
      | (Inr res, w1) \<Rightarrow>
     (case chan_send res wm of
        None \<Rightarrow> None
      | Some wm1 \<Rightarrow> Some (None, handleResults_free res wm1, w1)))"

section \<open>The health loop\<close>

text \<open>
  The body of the loop of \<open>healthCheck\<close> for one worker.  An unhealthy worker's match is
  cancelled with a failed result, and its restart is handed to a new goroutine.
\<close>

definition cancel_result :: "int \<Rightarrow> Result" where
  "cancel_result matchID = \<lparr>Success = False, res_MatchID = matchID, Details = ''{}''\<rparr>"

definition healthCheck_worker ::
    "'w runtime \<Rightarrow> Responders \<Rightarrow> nat \<Rightarrow> 'w WorkerManager \<Rightarrow> 'w \<Rightarrow>
     ('w WorkerManager \<times> 'w) option" where
  "healthCheck_worker rt responders i wm w =
     (let wk = HandlePong (ID (workers wm ! i) \<in> responders) (workers wm ! i);
          wm1 = upd_worker i wk wm;
          (now, w1) = time_Now rt w
      in if IsHealthy now wk then Some (wm1, w1)
         else case (if State wk = WorkerOccupied then chan_send (cancel_result (MatchID wk)) wm1
                    else Some wm1) of
           None \<Rightarrow> None
         | Some wm2 \<Rightarrow>
             (let (now', w2) = time_Now rt w1;
                  (stateID, wk') = SetRestarting now' wk
              in Some ((upd_worker i wk' wm2)\<lparr>wg := wg wm2 @ [RestartCall i stateID]\<rparr>, w2)))"

fun healthCheck_loop ::
    "'w runtime \<Rightarrow> Responders \<Rightarrow> nat list \<Rightarrow> 'w WorkerManager \<Rightarrow> 'w \<Rightarrow>
     ('w WorkerManager \<times> 'w) option" where
  "healthCheck_loop rt responders [] wm w = Some (wm, w)"
| "healthCheck_loop rt responders (i # is) wm w =
     (case healthCheck_worker rt responders i wm w of
        None \<Rightarrow> None
      | Some (wm1, w1) \<Rightarrow> healthCheck_loop rt responders is wm1 w1)"

definition healthCheck ::
    "'w runtime \<Rightarrow> 'w WorkerManager \<Rightarrow> 'w \<Rightarrow>
     (go_error option \<times> 'w WorkerManager \<times> 'w) option" where
  "healthCheck rt wm w =
     (case broker_GetWorkersPong (brokerConn wm) (workerPongTimeout wm) w of
        (Inl e, w1) \<Rightarrow> Some (Some (Errorf ''%w: %w'' [Sentinel ErrHealthPingFailed, e]), wm, w1)
      | (Inr responders, w1) \<Rightarrow>
          map_option (\<lambda>(wm', w'). (None, wm', w'))
            (healthCheck_loop rt responders [0..<length (workers wm)] wm w1))"

text \<open>The critical section at the end of \<open>restartWorker\<close>, and the whole function.\<close>

definition restartWorker_finish ::
    "nat \<Rightarrow> int \<Rightarrow> 'w WorkerManager \<Rightarrow> go_error option \<times> 'w WorkerManager" where
  "restartWorker_finish i restartStateID wm =
     (if StateID (workers wm ! i) \<noteq> restartStateID
      then (Some (Sentinel ErrWorkerStateChanged), wm)
      else (None, signal_free (upd_worker i (snd (SetFree (workers wm ! i))) wm)))"

definition restartWorker ::
    "nat \<Rightarrow> int \<Rightarrow> 'w WorkerManager \<Rightarrow> 'w \<Rightarrow>
     go_error option \<times> 'w WorkerManager \<times> 'w" where
  "restartWorker i restartStateID wm w =
     (case docker_RestartContainer (dockerConn wm) (ContainerID (workers wm ! i)) w of
        (Some e, w1) \<Rightarrow> (Some e, wm, w1)
      | (None, w1) \<Rightarrow>
          (case restartWorker_finish i restartStateID wm of (r, wm') \<Rightarrow> (r, wm', w1)))"

section \<open>The save loop\<close>

text \<open>
  The body of \<open>saveLoop\<close> for a received result.  Both statements run whatever the first
  one returns; the error passed on to the backoff is that of \<open>SaveMatchResults\<close>.
\<close>

definition saveLoop_body :: "Result \<Rightarrow> 'w WorkerManager \<Rightarrow> 'w proc" where
  "saveLoop_body res wm w =
     (let (_, w1) = db_RemoveMatchStatus (dbConn wm) (res_MatchID res) w
      in db_SaveMatchResults (dbConn wm) res w1)"

text \<open>The guard at the head of the three loops.\<close>

definition loop_guard :: "'w WorkerManager \<Rightarrow> go_error option" where
  "loop_guard wm =
     (if \<not> wm_initialized wm then Some (Sentinel ErrMgrNoInit)
      else if wm_closed wm then Some (Sentinel ErrMgrClosed)
      else None)"

lemmas manager_defs [op_defs] =
  Start_def AssignMatch_def handleResults_def handleResults_fetch_def handleResults_free_def
  healthCheck_def healthCheck_worker_def restartWorker_def restartWorker_finish_def
  saveLoop_body_def WaitForFreeWorker_turn_def loop_guard_def

end
