(* ===== verification/Manager_Props.thy ===== *)
theory Manager_Props
  imports Manager
begin

text \<open>
  What the operations of the worker manager keep of its pool and what they change: the pool
  invariant, the functional behaviour of \<open>AssignMatch\<close>, \<open>handleResults\<close>, \<open>healthCheck\<close> and
  \<open>restartWorker\<close>, and the contract the matchmaker relies on (\<open>internal.WorkerManager\<close>) as
  a locale, interpreted on the manager.
\<close>

section \<open>Selectors\<close>

lemma upd_worker_sel [simp]:
  "workers (upd_worker i wk wm) = (workers wm)[i := wk]"
  "dockerConn (upd_worker i wk wm) = dockerConn wm"
  "brokerConn (upd_worker i wk wm) = brokerConn wm"
  "dbConn (upd_worker i wk wm) = dbConn wm"
  "wm_initialized (upd_worker i wk wm) = wm_initialized wm"
  "wm_closed (upd_worker i wk wm) = wm_closed wm"
  "config (upd_worker i wk wm) = config wm"
  "resultChanSize (upd_worker i wk wm) = resultChanSize wm"
  "saveResultChan (upd_worker i wk wm) = saveResultChan wm"
  "newfreeWorker (upd_worker i wk wm) = newfreeWorker wm"
  "waiting (upd_worker i wk wm) = waiting wm"
  "wg (upd_worker i wk wm) = wg wm"
  by (simp_all add: upd_worker_def)

lemma signal_free_sel [simp]:
  "workers (signal_free wm) = workers wm"
  "dockerConn (signal_free wm) = dockerConn wm"
  "brokerConn (signal_free wm) = brokerConn wm"
  "dbConn (signal_free wm) = dbConn wm"
  "wm_initialized (signal_free wm) = wm_initialized wm"
  "wm_closed (signal_free wm) = wm_closed wm"
  "config (signal_free wm) = config wm"
  "resultChanSize (signal_free wm) = resultChanSize wm"
  "saveResultChan (signal_free wm) = saveResultChan wm"
  "newfreeWorker (signal_free wm) = Signal (newfreeWorker wm)"
  "waiting (signal_free wm) = waiting wm"
  "wg (signal_free wm) = wg wm"
  by (simp_all add: signal_free_def)

lemma Signal_simps [simp]:
  "Signal NoWaiter = NoWaiter" "Signal Blocked = Woken" "Signal Woken = Woken"
  "(Signal c = NoWaiter) = (c = NoWaiter)" "(Signal c = Blocked) = False"
  by (cases c; simp add: Signal_def)+

lemma chan_send_Some:
  "chan_send res wm = Some wm' \<longleftrightarrow>
     length (saveResultChan wm) < resultChanSize wm \<and>
     wm' = wm\<lparr>saveResultChan := saveResultChan wm @ [res]\<rparr>"
  by (auto simp: chan_send_def)

lemma chan_recv_Some:
  "chan_recv wm = Some (res, wm') \<longleftrightarrow>
     saveResultChan wm = res # saveResultChan wm' \<and>
     wm' = wm\<lparr>saveResultChan := saveResultChan wm'\<rparr>"
  by (auto simp: chan_recv_def split: list.splits)

lemma getFreeWorker_SomeD:
  assumes "getFreeWorker wm = Some i"
  shows getFreeWorker_less: "i < length (workers wm)"
    and getFreeWorker_free: "State (workers wm ! i) = WorkerFree"
    and getFreeWorker_first: "j < i \<Longrightarrow> State (workers wm ! j) \<noteq> WorkerFree"
  using assms find_index_Some [of "\<lambda>wk. State wk = WorkerFree" "workers wm" i]
  by (auto simp: getFreeWorker_def)

lemma getFreeWorker_None:
  "getFreeWorker wm = None \<longleftrightarrow> (\<forall>wk\<in>set (workers wm). State wk \<noteq> WorkerFree)"
  by (simp add: getFreeWorker_def find_index_None)

lemma getFreeWorker_cong: "workers wm = workers wm' \<Longrightarrow> getFreeWorker wm = getFreeWorker wm'"
  by (simp add: getFreeWorker_def)

lemma getWorkerByMatchID_SomeD:
  assumes "getWorkerByMatchID m wm = Some i"
  shows getWorkerByMatchID_less: "i < length (workers wm)"
    and getWorkerByMatchID_match: "MatchID (workers wm ! i) = m"
  using assms find_index_Some [of "\<lambda>wk. MatchID wk = m" "workers wm" i]
  by (auto simp: getWorkerByMatchID_def)

lemma getWorkerByMatchID_None:
  "getWorkerByMatchID m wm = None \<longleftrightarrow> (\<forall>wk\<in>set (workers wm). MatchID wk \<noteq> m)"
  by (simp add: getWorkerByMatchID_def find_index_None)

section \<open>The pool invariant\<close>

text \<open>Two workers never run the same match.\<close>

definition matches_unique :: "Worker list \<Rightarrow> bool" where
  "matches_unique ws \<longleftrightarrow>
     (\<forall>i<length ws. \<forall>j<length ws. State (ws ! i) = WorkerOccupied \<longrightarrow>
        State (ws ! j) = WorkerOccupied \<longrightarrow> MatchID (ws ! i) = MatchID (ws ! j) \<longrightarrow> i = j)"

definition pool_inv :: "'w WorkerManager \<Rightarrow> bool" where
  "pool_inv wm \<longleftrightarrow>
     list_all wf_worker (workers wm) \<and> distinct (map ID (workers wm)) \<and>
     matches_unique (workers wm)"

definition running_matches :: "'w WorkerManager \<Rightarrow> int set" where
  "running_matches wm = MatchID ` {wk \<in> set (workers wm). State wk = WorkerOccupied}"

lemma running_matches_iff:
  "m \<in> running_matches wm \<longleftrightarrow>
   (\<exists>i<length (workers wm). State (workers wm ! i) = WorkerOccupied \<and> MatchID (workers wm ! i) = m)"
  by (auto simp: running_matches_def in_set_conv_nth)

lemma matches_unique_not_occupied:
  "matches_unique ws \<Longrightarrow> State wk \<noteq> WorkerOccupied \<Longrightarrow> matches_unique (ws[i := wk])"
  by (auto simp: matches_unique_def nth_list_update_if split: if_splits)

lemma matches_unique_same:
  assumes "matches_unique ws" and "State wk = State (ws ! i)" and "MatchID wk = MatchID (ws ! i)"
  shows "matches_unique (ws[i := wk])"
  using assms by (auto simp: matches_unique_def nth_list_update_if split: if_splits)

lemma matches_unique_fresh:
  assumes "matches_unique ws"
    and "\<forall>j<length ws. State (ws ! j) = WorkerOccupied \<longrightarrow> MatchID (ws ! j) \<noteq> MatchID wk"
  shows "matches_unique (ws[i := wk])"
  using assms by (auto simp: matches_unique_def nth_list_update_if split: if_splits)

lemma distinct_ID_update:
  "distinct (map ID ws) \<Longrightarrow> ID wk = ID (ws ! i) \<Longrightarrow> distinct (map ID (ws[i := wk]))"
  by (simp only: map_update_same)

text \<open>One worker leaves or keeps its state; one worker takes a fresh match.\<close>

lemma pool_inv_upd [inv_intros]:
  assumes "pool_inv wm" and "wf_worker wk" and "ID wk = ID (workers wm ! i)"
    and "State wk \<noteq> WorkerOccupied"
  shows "pool_inv (upd_worker i wk wm)"
  using assms by (simp add: pool_inv_def list_all_update distinct_ID_update matches_unique_not_occupied)

lemma pool_inv_upd_same [inv_intros]:
  assumes "pool_inv wm" and "wf_worker wk" and "ID wk = ID (workers wm ! i)"
    and "State wk = State (workers wm ! i)" and "MatchID wk = MatchID (workers wm ! i)"
  shows "pool_inv (upd_worker i wk wm)"
  using assms by (simp add: pool_inv_def list_all_update distinct_ID_update matches_unique_same)

lemma pool_inv_upd_fresh [inv_intros]:
  assumes "pool_inv wm" and "wf_worker wk" and "ID wk = ID (workers wm ! i)"
    and "MatchID wk \<notin> running_matches wm"
  shows "pool_inv (upd_worker i wk wm)"
proof -
  have "\<forall>j<length (workers wm). State (workers wm ! j) = WorkerOccupied \<longrightarrow>
      MatchID (workers wm ! j) \<noteq> MatchID wk"
    using assms(4) by (auto simp: running_matches_iff)
  then have "matches_unique ((workers wm)[i := wk])"
    using assms(1) by (intro matches_unique_fresh) (auto simp: pool_inv_def)
  with assms show ?thesis
    by (simp add: pool_inv_def list_all_update distinct_ID_update)
qed

lemma pool_inv_frame [simp]:
  "pool_inv (signal_free wm) = pool_inv wm"
  "pool_inv (wm\<lparr>saveResultChan := c\<rparr>) = pool_inv wm"
  "pool_inv (wm\<lparr>newfreeWorker := n\<rparr>) = pool_inv wm"
  "pool_inv (wm\<lparr>waiting := b\<rparr>) = pool_inv wm"
  "pool_inv (wm\<lparr>wg := g\<rparr>) = pool_inv wm"
  by (simp_all add: pool_inv_def)

lemma running_matches_frame [simp]:
  "running_matches (signal_free wm) = running_matches wm"
  "running_matches (wm\<lparr>saveResultChan := c\<rparr>) = running_matches wm"
  "running_matches (wm\<lparr>newfreeWorker := n\<rparr>) = running_matches wm"
  "running_matches (wm\<lparr>waiting := b\<rparr>) = running_matches wm"
  "running_matches (wm\<lparr>wg := g\<rparr>) = running_matches wm"
  by (simp_all add: running_matches_def)

lemma pool_inv_wf: "pool_inv wm \<Longrightarrow> i < length (workers wm) \<Longrightarrow> wf_worker (workers wm ! i)"
  by (simp add: pool_inv_def list_all_nth)

lemma pool_inv_SetFree [inv_intros]:
  assumes "pool_inv wm" and "i < length (workers wm)"
  shows "pool_inv (upd_worker i (snd (SetFree (workers wm ! i))) wm)"
  using assms by (intro pool_inv_upd) (auto intro: wf_SetFree pool_inv_wf)

lemma pool_inv_handleResults_free [inv_intros]:
  "pool_inv wm \<Longrightarrow> pool_inv (handleResults_free res wm)"
  by (auto simp: handleResults_free_def intro: pool_inv_SetFree getWorkerByMatchID_less
           split: option.split)

lemma pool_inv_restartWorker_finish [inv_intros]:
  "pool_inv wm \<Longrightarrow> i < length (workers wm) \<Longrightarrow> pool_inv (snd (restartWorker_finish i sid wm))"
  by (auto simp: restartWorker_finish_def intro: pool_inv_SetFree)

section \<open>AssignMatch\<close>

text \<open>Every outcome: an error leaves the manager as it was; success occupies the first free worker.\<close>

lemma AssignMatch_cases:
  assumes "AssignMatch cfg wm w = (r, wm', w')"
  obtains (failed) e where "r = Inl e" and "wm' = wm"
  | (assigned) i gamePort w1 where "wm_initialized wm" and "\<not> wm_closed wm"
      and "getFreeWorker wm = Some i"
      and "docker_GetGamePort (dockerConn wm) (ContainerID (workers wm ! i)) w = (Inr gamePort, w1)"
      and "broker_AssignJob (brokerConn wm) (ID (workers wm ! i)) cfg w1 = (None, w')"
      and "r = Inr \<lparr>Host = PublicHost (config wm), Port = gamePort\<rparr>"
      and "wm' = upd_worker i (snd (SetOccupied (cfg_MatchID cfg) (workers wm ! i))) wm"
proof (cases "getFreeWorker wm")
  case None
  with assms show thesis by (auto simp: AssignMatch_def intro: failed split: if_splits)
next
  case (Some i)
  obtain p w1 where p: "docker_GetGamePort (dockerConn wm) (ContainerID (workers wm ! i)) w = (p, w1)"
    by fastforce
  obtain a w2 where a: "broker_AssignJob (brokerConn wm) (ID (workers wm ! i)) cfg w1 = (a, w2)"
    by fastforce
  show thesis
  proof (cases "wm_initialized wm \<and> \<not> wm_closed wm \<and> (\<exists>gp. p = Inr gp) \<and> a = None")
    case True
    then obtain gp where "p = Inr gp" by blast
    with True assms p a Some show thesis by (intro assigned [of i gp w1]) (simp_all add: AssignMatch_def)
  next
    case False
    with assms p a Some have "\<exists>e. r = Inl e \<and> wm' = wm"
      by (auto simp: AssignMatch_def split: if_splits option.splits sum.splits)
    then obtain e where "r = Inl e" and "wm' = wm" by blast
    then show thesis by (rule failed)
  qed
qed

lemma pool_inv_AssignMatch [inv_intros]:
  assumes "pool_inv wm" and "cfg_MatchID cfg \<notin> running_matches wm"
    and "AssignMatch cfg wm w = (r, wm', w')"
  shows "pool_inv wm'"
  using assms(3)
proof (cases rule: AssignMatch_cases)
  case (failed e)
  with assms(1) show ?thesis by simp
next
  case (assigned i gamePort w1)
  with assms(1) have "wf_worker (workers wm ! i)"
    by (auto intro: pool_inv_wf getFreeWorker_less)
  with assigned assms(1,2) show ?thesis
    by (auto intro: pool_inv_upd_fresh wf_SetOccupied)
qed

section \<open>handleResults and restartWorker\<close>

lemma handleResults_free_sel [simp]:
  "dockerConn (handleResults_free res wm) = dockerConn wm"
  "brokerConn (handleResults_free res wm) = brokerConn wm"
  "dbConn (handleResults_free res wm) = dbConn wm"
  "wm_initialized (handleResults_free res wm) = wm_initialized wm"
  "wm_closed (handleResults_free res wm) = wm_closed wm"
  "resultChanSize (handleResults_free res wm) = resultChanSize wm"
  "saveResultChan (handleResults_free res wm) = saveResultChan wm"
  "wg (handleResults_free res wm) = wg wm"
  "length (workers (handleResults_free res wm)) = length (workers wm)"
  by (simp_all add: handleResults_free_def split: option.split)

text \<open>The worker found by a match ID runs that match, unless the ID is the zero of idle workers.\<close>

lemma getWorkerByMatchID_occupied:
  assumes "pool_inv wm" and "m \<noteq> 0" and "getWorkerByMatchID m wm = Some i"
  shows "State (workers wm ! i) = WorkerOccupied"
  using assms pool_inv_wf [OF assms(1) getWorkerByMatchID_less [OF assms(3)]]
    getWorkerByMatchID_match [OF assms(3)]
  by (auto simp: wf_worker_def)

text \<open>Freeing the worker of a match removes that match, and no other, from the running ones.\<close>

lemma running_matches_free:
  assumes "pool_inv wm" and "m \<noteq> 0"
  shows "running_matches (handleResults_free \<lparr>Success = b, res_MatchID = m, Details = d\<rparr> wm)
       = running_matches wm - {m}"
proof (cases "getWorkerByMatchID m wm")
  case None
  then have "m \<notin> running_matches wm"
    by (auto simp: getWorkerByMatchID_None running_matches_def)
  with None show ?thesis by (simp add: handleResults_free_def)
next
  case (Some i)
  note i = getWorkerByMatchID_less [OF Some] getWorkerByMatchID_match [OF Some]
    getWorkerByMatchID_occupied [OF assms Some]
  have "x \<in> running_matches (upd_worker i (snd (SetFree (workers wm ! i))) wm) \<longleftrightarrow>
        x \<in> running_matches wm \<and> x \<noteq> m" for x
    using assms(1) i
    by (auto simp: running_matches_iff pool_inv_def matches_unique_def split: if_splits)
  with Some show ?thesis by (auto simp: handleResults_free_def)
qed

lemma running_matches_free_subset:
  "running_matches (handleResults_free res wm) \<subseteq> running_matches wm"
  by (auto simp: handleResults_free_def running_matches_iff split: option.split if_splits) blast

lemma restartWorker_finish_sel [simp]:
  "dockerConn (snd (restartWorker_finish i sid wm)) = dockerConn wm"
  "brokerConn (snd (restartWorker_finish i sid wm)) = brokerConn wm"
  "dbConn (snd (restartWorker_finish i sid wm)) = dbConn wm"
  "wm_initialized (snd (restartWorker_finish i sid wm)) = wm_initialized wm"
  "wm_closed (snd (restartWorker_finish i sid wm)) = wm_closed wm"
  "resultChanSize (snd (restartWorker_finish i sid wm)) = resultChanSize wm"
  "saveResultChan (snd (restartWorker_finish i sid wm)) = saveResultChan wm"
  "wg (snd (restartWorker_finish i sid wm)) = wg wm"
  "length (workers (snd (restartWorker_finish i sid wm))) = length (workers wm)"
  by (simp_all add: restartWorker_finish_def)

section \<open>healthCheck computes a map over the pool\<close>

text \<open>
  The reference: what one health check makes of each worker, which matches it cancels and
  which restarts it starts, all read off the pool as it was before the check.
\<close>

definition checked :: "Responders \<Rightarrow> time \<Rightarrow> Worker \<Rightarrow> Worker" where
  "checked responders now wk =
     (let wk' = HandlePong (ID wk \<in> responders) wk
      in if IsHealthy now wk' then wk' else snd (SetRestarting now wk'))"

definition unhealthy :: "Responders \<Rightarrow> time \<Rightarrow> Worker \<Rightarrow> bool" where
  "unhealthy responders now wk = (\<not> IsHealthy now (HandlePong (ID wk \<in> responders) wk))"

definition cancelled :: "Responders \<Rightarrow> time \<Rightarrow> Worker \<Rightarrow> Result list" where
  "cancelled responders now wk =
     (if unhealthy responders now wk \<and> State wk = WorkerOccupied
      then [cancel_result (MatchID wk)] else [])"

definition restarts :: "Responders \<Rightarrow> time \<Rightarrow> Worker list \<Rightarrow> nat \<Rightarrow> goroutine list" where
  "restarts responders now ws i =
     (if unhealthy responders now (ws ! i)
      then [RestartCall i (wrap64 (StateID (ws ! i) + 1))] else [])"

lemma healthCheck_worker_eq:
  assumes clock: "\<And>w. time_Now rt w = (now, w)"
    and room: "length (saveResultChan wm) + length (cancelled R now (workers wm ! i)) \<le> resultChanSize wm"
  shows "healthCheck_worker rt R i wm w =
    Some (wm\<lparr>workers := (workers wm)[i := checked R now (workers wm ! i)],
             saveResultChan := saveResultChan wm @ cancelled R now (workers wm ! i),
             wg := wg wm @ restarts R now (workers wm) i\<rparr>, w)"
  using room
  by (auto simp: healthCheck_worker_def clock Let_def checked_def unhealthy_def cancelled_def
      restarts_def chan_send_def upd_worker_def SetRestarting_def split: if_splits)

lemma fold_update_other:
  "i \<notin> set is \<Longrightarrow> fold (\<lambda>i ws. ws[i := f (ws ! i)]) is ws ! i = ws ! i"
  by (induction "is" arbitrary: ws) auto

lemma fold_update_map:
  assumes "k \<le> length ws"
  shows "fold (\<lambda>i ws. ws[i := f (ws ! i)]) [0..<k] ws = map f (take k ws) @ drop k ws"
  using assms
proof (induction k)
  case 0
  then show ?case by simp
next
  case (Suc k)
  then show ?case
    by (simp add: nth_append list_update_append take_Suc_conv_app_nth
        flip: Cons_nth_drop_Suc)
qed

lemma healthCheck_loop_eq:
  assumes clock: "\<And>w. time_Now rt w = (now, w)"
    and "distinct is" and "\<forall>i\<in>set is. i < length (workers wm)"
    and "length (saveResultChan wm) + length (concat (map (\<lambda>i. cancelled R now (workers wm ! i)) is))
         \<le> resultChanSize wm"
  shows "healthCheck_loop rt R is wm w =
    Some (wm\<lparr>workers := fold (\<lambda>i ws. ws[i := checked R now (ws ! i)]) is (workers wm),
             saveResultChan := saveResultChan wm @ concat (map (\<lambda>i. cancelled R now (workers wm ! i)) is),
             wg := wg wm @ concat (map (restarts R now (workers wm)) is)\<rparr>, w)"
  using assms(2-)
proof (induction "is" arbitrary: wm)
  case Nil
  then show ?case by simp
next
  case (Cons i "is")
  let ?ws = "(workers wm)[i := checked R now (workers wm ! i)]"
  let ?wm = "wm\<lparr>workers := ?ws, saveResultChan := saveResultChan wm @ cancelled R now (workers wm ! i),
                wg := wg wm @ restarts R now (workers wm) i\<rparr>"
  have step: "healthCheck_worker rt R i wm w = Some (?wm, w)"
    using Cons.prems by (intro healthCheck_worker_eq) (auto simp: clock)
  have same: "?ws ! j = workers wm ! j" if "j \<in> set is" for j
    using that Cons.prems by auto
  have cs: "map (\<lambda>j. cancelled R now (?ws ! j)) is = map (\<lambda>j. cancelled R now (workers wm ! j)) is"
    by (simp add: same)
  have rs: "map (restarts R now ?ws) is = map (restarts R now (workers wm)) is"
    by (simp add: restarts_def same)
  have "healthCheck_loop rt R is ?wm w =
    Some (?wm\<lparr>workers := fold (\<lambda>i ws. ws[i := checked R now (ws ! i)]) is ?ws,
              saveResultChan := saveResultChan ?wm @ concat (map (\<lambda>j. cancelled R now (?ws ! j)) is),
              wg := wg ?wm @ concat (map (restarts R now ?ws) is)\<rparr>, w)"
    using Cons.prems Cons.IH [of ?wm] by (simp add: cs)
  then show ?case by (simp add: step cs rs)
qed


section \<open>Start\<close>

text \<open>The spawn loop extends the pool by one free worker per spawned container.\<close>

lemma spawn_workers_frame:
  "spawn_workers is wm w = (r, wm', w') \<Longrightarrow> wm' = wm\<lparr>workers := workers wm'\<rparr>"
proof (induction "is" wm w arbitrary: r wm' w' rule: spawn_workers.induct)
  case (1 wm w)
  then show ?case by simp
next
  case (2 idx rest wm w)
  obtain p w1 where pw: "docker_SpawnContainer (dockerConn wm) (Itoa idx) w = (p, w1)"
    by fastforce
  show ?case
  proof (cases p)
    case (Inl e)
    with pw "2.prems" show ?thesis by simp
  next
    case (Inr c)
    have "wm' = wm\<lparr>workers := workers wm @
      [NewWorker (Itoa idx) c (workerMaxPingRetries wm) (workerRestartTimeout wm)],
      workers := workers wm'\<rparr>"
      using "2.prems" by (intro "2.IH" [OF refl pw [symmetric] Inr]) (simp add: pw Inr)
    then show ?thesis by simp
  qed
qed

lemma spawn_workers_sel:
  assumes "spawn_workers is wm w = (r, wm', w')"
  shows "wm_initialized wm' = wm_initialized wm" and "wm_closed wm' = wm_closed wm"
    and "wg wm' = wg wm"
  by (subst spawn_workers_frame [OF assms], simp)+

primrec spawned_pool :: "nat list \<Rightarrow> int \<Rightarrow> duration \<Rightarrow> Worker list \<Rightarrow> bool" where
  "spawned_pool [] r t ws \<longleftrightarrow> ws = []"
| "spawned_pool (i # is) r t ws \<longleftrightarrow>
     (\<exists>c ws'. ws = NewWorker (Itoa i) c r t # ws' \<and> spawned_pool is r t ws')"

lemma spawn_workers_pool:
  assumes "spawn_workers is wm w = (r, wm', w')"
  shows "\<exists>n ws. n \<le> length is \<and> workers wm' = workers wm @ ws \<and>
    spawned_pool (take n is) (workerMaxPingRetries wm) (workerRestartTimeout wm) ws \<and>
    (r = None \<longrightarrow> n = length is)"
  using assms
proof (induction "is" wm w arbitrary: r wm' w' rule: spawn_workers.induct)
  case (1 wm w)
  then show ?case by auto
next
  case (2 idx rest wm w)
  show ?case
  proof (cases "docker_SpawnContainer (dockerConn wm) (Itoa idx) w")
    case (Pair p w1)
    show ?thesis
    proof (cases p)
      case (Inl e)
      with Pair 2(2) show ?thesis
        by (intro exI [of _ 0]) auto
    next
      case (Inr c)
      let ?wm = "wm\<lparr>workers := workers wm @
        [NewWorker (Itoa idx) c (workerMaxPingRetries wm) (workerRestartTimeout wm)]\<rparr>"
      from Pair Inr 2(2) have rest: "spawn_workers rest ?wm w1 = (r, wm', w')" by (simp add: Let_def)
      obtain n ws where "n \<le> length rest" "workers wm' = workers ?wm @ ws"
        "spawned_pool (take n rest) (workerMaxPingRetries wm) (workerRestartTimeout wm) ws"
        "r = None \<longrightarrow> n = length rest"
        using 2(1) [OF refl Pair [symmetric] Inr rest] by auto
      then show ?thesis
        by (intro exI [of _ "Suc n"]) auto
    qed
  qed
qed

lemma spawned_pool_props:
  assumes "spawned_pool is r t ws"
  shows "length ws = length is" and "map ID ws = map Itoa is"
    and "0 \<le> r \<Longrightarrow> r < 2 ^ 62 \<Longrightarrow> list_all wf_worker ws"
    and "wk \<in> set ws \<Longrightarrow> State wk = WorkerFree \<and> StateID wk = 0"
  using assms
  by (induction "is" arbitrary: ws)
    (auto simp: wf_NewWorker, auto simp: NewWorker_def)

lemma distinct_map_Itoa: "distinct is \<Longrightarrow> distinct (map Itoa is)"
  by (auto simp: distinct_map inj_on_def dest: Itoa_inj)

lemma spawned_pool_inv:
  assumes "spawned_pool is r t (workers wm)" and "distinct is" and "0 \<le> r" and "r < 2 ^ 62"
  shows "pool_inv wm"
proof -
  have "matches_unique (workers wm)"
    unfolding matches_unique_def using spawned_pool_props(4) [OF assms(1)] by fastforce
  with spawned_pool_props [OF assms(1)] assms show ?thesis
    by (simp add: pool_inv_def distinct_map_Itoa)
qed

text \<open>Every way \<open>Start\<close> can end on a manager that was not started.\<close>

lemma Start_cases:
  assumes "Start wm w = (r, wm', w')"
  obtains (early) e where "r = Some e" and "wm' = wm"
  | (spawn_failed) e w1 where "r = Some e" and "spawn_workers [0..<nat (workerCount wm)] wm w1 = (Some e, wm', w')"
      and "\<not> wm_initialized wm"
  | (started) wm1 w1 where "r = None" and "\<not> wm_closed wm" and "\<not> wm_initialized wm"
      and "spawn_workers [0..<nat (workerCount wm)] wm w1 = (None, wm1, w')"
      and "wm' = wm1\<lparr>saveResultChan := [], newfreeWorker := NoWaiter, wm_initialized := True,
               wg := wg wm1 @ [SaveLoop, ResultLoop, HealthLoop]\<rparr>"
  using assms
  by (simp add: Start_def split: if_split_asm option.split_asm prod.split_asm) blast+

text \<open>
  C33. \<open>Start\<close> of a new manager either brings it up completely or leaves it not initialized
  with no goroutine running.  Brought up, it has one free worker per index below the
  configured count, their IDs are the distinct decimal numerals of the indices, the pool
  invariant holds, and exactly the three loops run.  When a spawn fails, the containers
  already spawned stay in \<open>workers\<close>, so that \<open>Shutdown\<close> removes them.
\<close>

theorem Start_establishes:
  assumes "Start (NewWorkerManager docker broker db cfg) w = (r, wm', w')"
  shows "(r = None \<longrightarrow>
            wm_initialized wm' \<and> pool_inv wm' \<and> wg wm' = [SaveLoop, ResultLoop, HealthLoop] \<and>
            map ID (workers wm') = map Itoa [0..<nat (Workercount cfg)] \<and>
            (\<forall>wk\<in>set (workers wm'). State wk = WorkerFree) \<and> saveResultChan wm' = []) \<and>
         (r \<noteq> None \<longrightarrow>
            \<not> wm_initialized wm' \<and> pool_inv wm' \<and> wg wm' = [] \<and>
            (\<exists>n\<le>nat (Workercount cfg). map ID (workers wm') = map Itoa [0..<n]))"
proof -
  let ?wm = "NewWorkerManager docker broker db cfg"
  have init: "workers ?wm = []" "wg ?wm = []" "\<not> wm_initialized ?wm" "workerMaxPingRetries ?wm = 3"
    "workerCount ?wm = Workercount cfg"
    by (simp_all add: NewWorkerManager_def)
  have pool: "\<exists>n\<le>nat (Workercount cfg).
      spawned_pool [0..<n] 3 (workerRestartTimeout ?wm) (workers wm1) \<and>
      (r1 = None \<longrightarrow> n = nat (Workercount cfg))"
    if "spawn_workers [0..<nat (workerCount ?wm)] ?wm w1 = (r1, wm1, w2)" for r1 wm1 w1 w2
    using spawn_workers_pool [OF that] by (auto simp: init min_def)
  from assms show ?thesis
  proof (cases rule: Start_cases)
    case (early e)
    then show ?thesis by (auto simp: init pool_inv_def matches_unique_def intro: exI [of _ 0])
  next
    case (spawn_failed e w1)
    from pool [OF spawn_failed(2)] obtain n where n: "n \<le> nat (Workercount cfg)"
      "spawned_pool [0..<n] 3 (workerRestartTimeout ?wm) (workers wm')" by blast
    have "pool_inv wm'" by (rule spawned_pool_inv [OF n(2)]) simp_all
    with n spawn_failed(1) show ?thesis
      using spawn_workers_sel [OF spawn_failed(2)] spawned_pool_props(2) [OF n(2)]
      by (auto simp: init)
  next
    case (started wm1 w1)
    from pool [OF started(4)] have sp:
      "spawned_pool [0..<nat (Workercount cfg)] 3 (workerRestartTimeout ?wm) (workers wm1)" by blast
    then have "pool_inv wm1" by (rule spawned_pool_inv) simp_all
    then have "pool_inv wm'" by (simp add: started(5) pool_inv_def)
    with started(1,5) show ?thesis
      using spawn_workers_sel [OF started(4)] spawned_pool_props [OF sp]
      by (auto simp: init)
  qed
qed

section \<open>The contract of internal.WorkerManager\<close>

text \<open>
  What the matchmaker relies on: waiting returns to a context that is not done only when a
  worker is free; a successful assignment adds the match to the running ones and nothing
  else; a failed one changes nothing; and it succeeds only if a worker was free.
\<close>

locale worker_manager =
  fixes turn :: "go_error option \<Rightarrow> 'm \<Rightarrow> wait_outcome \<times> 'm"
    and assign :: "MatchConfig \<Rightarrow> 'm \<Rightarrow> 'w \<Rightarrow> (go_error + ServerInfo) \<times> 'm \<times> 'w"
    and has_free :: "'m \<Rightarrow> bool"
    and running :: "'m \<Rightarrow> int set"
  assumes turn_returns: "turn None m = (WaitReturns, m') \<Longrightarrow> has_free m'"
    and turn_running: "turn c m = (out, m') \<Longrightarrow> running m' = running m"
    and assign_fails: "assign cfg m w = (Inl e, m', w') \<Longrightarrow> m' = m"
    and assign_succeeds: "assign cfg m w = (Inr info, m', w') \<Longrightarrow>
          has_free m \<and> running m' = insert (cfg_MatchID cfg) (running m)"
begin

lemma assign_running_mono:
  assumes "assign cfg m w = (r, m', w')"
  shows "running m \<subseteq> running m' \<and> running m' \<subseteq> insert (cfg_MatchID cfg) (running m)"
proof (cases r)
  case (Inl e)
  with assms assign_fails show ?thesis by blast
next
  case (Inr info)
  with assms assign_succeeds show ?thesis by blast
qed

end

lemma running_matches_assigned:
  assumes "i < length (workers wm)" and "State (workers wm ! i) = WorkerFree"
    and "State wk = WorkerOccupied"
  shows "running_matches (upd_worker i wk wm) = insert (MatchID wk) (running_matches wm)"
proof (rule set_eqI)
  fix m
  have "(\<exists>j<length (workers wm). j \<noteq> i \<and> State (workers wm ! j) = WorkerOccupied \<and>
           MatchID (workers wm ! j) = m) \<longleftrightarrow> m \<in> running_matches wm"
    using assms(2) by (auto simp: running_matches_iff)
  moreover have "m \<in> running_matches (upd_worker i wk wm) \<longleftrightarrow> m = MatchID wk \<or>
    (\<exists>j<length (workers wm). j \<noteq> i \<and> State (workers wm ! j) = WorkerOccupied \<and>
       MatchID (workers wm ! j) = m)"
    using assms(1,3) by (auto simp: running_matches_iff split: if_splits)
  ultimately show "m \<in> running_matches (upd_worker i wk wm) \<longleftrightarrow>
      m \<in> insert (MatchID wk) (running_matches wm)" by simp
qed

interpretation mgr: worker_manager WaitForFreeWorker_turn AssignMatch
  "\<lambda>wm. getFreeWorker wm \<noteq> None" running_matches
proof (unfold_locales, goal_cases)
  case (1 m m')
  then show ?case
    by (auto simp: WaitForFreeWorker_turn_def getFreeWorker_def split: if_splits)
next
  case (2 c m out m')
  then show ?case by (auto simp: WaitForFreeWorker_turn_def split: if_splits)
next
  case (3 cfg m w e m' w')
  then show ?case by (cases rule: AssignMatch_cases) auto
next
  case (4 cfg m w info m' w')
  then show ?case
    by (cases rule: AssignMatch_cases)
      (auto simp: running_matches_assigned getFreeWorker_less getFreeWorker_free)
qed

end
