(* ===== verification/ManagerSystem.thy ===== *)
theory ManagerSystem
  imports Manager_Props
begin

text \<open>
  The goroutines of the server-manager together: the result, save and health loops, the
  restart goroutines and the matchmaking loop, sharing one \<open>WorkerManager\<close>.  A step is one
  atomic action of one of them (a call on a connection, a channel operation, a critical
  section under \<open>wm.mu\<close>), a change of the outside world, or the cancellation of the context.
  The steps are made of the functions of theory \<open>Manager\<close>.
\<close>

section \<open>State\<close>

text \<open>
  Where each goroutine stands.  The health loop holds the lock over the whole pool, one
  worker at a time, because it may block on the channel in between; the other critical
  sections are single steps, possible only while the lock is free.
\<close>

datatype result_pc = R_Poll | R_Send Result | R_Free Result | R_Exited
datatype save_pc = S_Recv | S_Remove Result | S_Save Result | S_Exited
datatype health_pc = H_Wait | H_Lock Responders | H_Check Responders nat | H_Exited
datatype mm_pc =
    M_Wait | M_Sleep | M_Check | M_Poll | M_Tokens "User list" | M_NextId "User list"
  | M_Assign "User list" bytes int | M_Add "User list" ServerInfo int | M_Exited

datatype lock = Unlocked | HeldByHealth

text \<open>
  Besides the program's state, the record keeps the history the properties speak of: the
  match IDs drawn from the sequence, the matches assigned to workers, the results handed
  to the save loop, and those it has finished with.
\<close>

record 'w sys =
  mgr :: "'w WorkerManager"
  world :: 'w
  mu :: lock
  rpc :: result_pc
  spc :: save_pc
  hpc :: health_pc
  mpc :: mm_pc
  ctx :: "go_error option"
  after_func :: bool
  drawn :: "int list"
  assigned :: "int list"
  handed :: "Result list"
  processed :: "Result list"

text \<open>What the goroutines run on: the runtime, the JSON codec, the matchmaker's connection,
  and the ways in which the outside world moves on its own.\<close>

record 'w sys_env =
  rt :: "'w runtime"
  unmarshal :: "bytes \<Rightarrow> go_error + Result"
  marshal :: "User list \<Rightarrow> go_error + bytes"
  mdb :: "'w DatabaseConnection_ops"
  env :: "'w \<Rightarrow> 'w \<Rightarrow> bool"

definition initial :: "'w sys \<Rightarrow> bool" where
  "initial s \<longleftrightarrow>
     (\<exists>docker broker db cfg w0.
        Start (NewWorkerManager docker broker db cfg) w0 = (None, mgr s, world s)) \<and>
     mu s = Unlocked \<and> rpc s = R_Poll \<and> spc s = S_Recv \<and> hpc s = H_Wait \<and> mpc s = M_Wait \<and>
     \<not> after_func s \<and> drawn s = [] \<and> assigned s = [] \<and> handed s = [] \<and> processed s = []"

section \<open>Steps\<close>

definition leave_wg :: "goroutine \<Rightarrow> 'w WorkerManager \<Rightarrow> 'w WorkerManager" where
  "leave_wg g wm = wm\<lparr>wg := remove1 g (wg wm)\<rparr>"

definition join_wg :: "goroutine \<Rightarrow> 'w WorkerManager \<Rightarrow> 'w WorkerManager" where
  "join_wg g wm = wm\<lparr>wg := wg wm @ [g]\<rparr>"

text \<open>The result loop.\<close>

inductive result_step :: "'w sys_env \<Rightarrow> 'w sys \<Rightarrow> 'w sys \<Rightarrow> bool" for E where
  r_exit: "rpc s = R_Poll \<Longrightarrow> ctx s \<noteq> None \<Longrightarrow>
    result_step E s (s\<lparr>rpc := R_Exited, mgr := leave_wg ResultLoop (mgr s)\<rparr>)"
| r_error: "rpc s = R_Poll \<Longrightarrow> handleResults_fetch (unmarshal E) (mgr s) (world s) = (Inl e, w') \<Longrightarrow>
    result_step E s (s\<lparr>world := w'\<rparr>)"
| r_fetch: "rpc s = R_Poll \<Longrightarrow> handleResults_fetch (unmarshal E) (mgr s) (world s) = (Inr res, w') \<Longrightarrow>
    result_step E s (s\<lparr>world := w', rpc := R_Send res\<rparr>)"
| r_send: "rpc s = R_Send res \<Longrightarrow> chan_send res (mgr s) = Some wm' \<Longrightarrow>
    result_step E s (s\<lparr>mgr := wm', rpc := R_Free res, handed := handed s @ [res]\<rparr>)"
| r_free: "rpc s = R_Free res \<Longrightarrow> mu s = Unlocked \<Longrightarrow>
    result_step E s (s\<lparr>mgr := handleResults_free res (mgr s), rpc := R_Poll\<rparr>)"

text \<open>The save loop.\<close>

inductive save_step :: "'w sys \<Rightarrow> 'w sys \<Rightarrow> bool" where
  s_exit: "spc s = S_Recv \<Longrightarrow> ctx s \<noteq> None \<Longrightarrow>
    save_step s (s\<lparr>spc := S_Exited, mgr := leave_wg SaveLoop (mgr s)\<rparr>)"
| s_recv: "spc s = S_Recv \<Longrightarrow> chan_recv (mgr s) = Some (res, wm') \<Longrightarrow>
    save_step s (s\<lparr>mgr := wm', spc := S_Remove res\<rparr>)"
| s_remove: "spc s = S_Remove res \<Longrightarrow>
    db_RemoveMatchStatus (dbConn (mgr s)) (res_MatchID res) (world s) = (r, w') \<Longrightarrow>
    save_step s (s\<lparr>world := w', spc := S_Save res\<rparr>)"
| s_save: "spc s = S_Save res \<Longrightarrow> db_SaveMatchResults (dbConn (mgr s)) res (world s) = (r, w') \<Longrightarrow>
    save_step s (s\<lparr>world := w', spc := S_Recv, processed := processed s @ [res]\<rparr>)"

text \<open>The health loop.\<close>

inductive health_step :: "'w sys_env \<Rightarrow> 'w sys \<Rightarrow> 'w sys \<Rightarrow> bool" for E where
  h_exit: "hpc s = H_Wait \<Longrightarrow> ctx s \<noteq> None \<Longrightarrow>
    health_step E s (s\<lparr>hpc := H_Exited, mgr := leave_wg HealthLoop (mgr s)\<rparr>)"
| h_fail: "hpc s = H_Wait \<Longrightarrow>
    broker_GetWorkersPong (brokerConn (mgr s)) (workerPongTimeout (mgr s)) (world s) = (Inl e, w') \<Longrightarrow>
    health_step E s (s\<lparr>world := w'\<rparr>)"
| h_pong: "hpc s = H_Wait \<Longrightarrow>
    broker_GetWorkersPong (brokerConn (mgr s)) (workerPongTimeout (mgr s)) (world s) = (Inr R, w') \<Longrightarrow>
    health_step E s (s\<lparr>world := w', hpc := H_Lock R\<rparr>)"
| h_lock: "hpc s = H_Lock R \<Longrightarrow> mu s = Unlocked \<Longrightarrow>
    health_step E s (s\<lparr>mu := HeldByHealth, hpc := H_Check R 0\<rparr>)"
| h_check: "hpc s = H_Check R i \<Longrightarrow> i < length (workers (mgr s)) \<Longrightarrow>
    healthCheck_worker (rt E) R i (mgr s) (world s) = Some (wm', w') \<Longrightarrow>
    health_step E s (s\<lparr>mgr := wm', world := w', hpc := H_Check R (Suc i),
      handed := handed s @ drop (length (saveResultChan (mgr s))) (saveResultChan wm')\<rparr>)"
| h_done: "hpc s = H_Check R i \<Longrightarrow> i = length (workers (mgr s)) \<Longrightarrow>
    health_step E s (s\<lparr>mu := Unlocked, hpc := H_Wait\<rparr>)"

text \<open>The restart goroutines.\<close>

inductive restart_step :: "'w sys \<Rightarrow> 'w sys \<Rightarrow> bool" where
  x_fail: "RestartCall i sid \<in> set (wg (mgr s)) \<Longrightarrow>
    docker_RestartContainer (dockerConn (mgr s)) (ContainerID (workers (mgr s) ! i)) (world s)
      = (Some e, w') \<Longrightarrow>
    restart_step s (s\<lparr>world := w', mgr := leave_wg (RestartCall i sid) (mgr s)\<rparr>)"
| x_done: "RestartCall i sid \<in> set (wg (mgr s)) \<Longrightarrow>
    docker_RestartContainer (dockerConn (mgr s)) (ContainerID (workers (mgr s) ! i)) (world s)
      = (None, w') \<Longrightarrow>
    restart_step s (s\<lparr>world := w',
      mgr := join_wg (RestartLock i sid) (leave_wg (RestartCall i sid) (mgr s))\<rparr>)"
| x_finish: "RestartLock i sid \<in> set (wg (mgr s)) \<Longrightarrow> mu s = Unlocked \<Longrightarrow>
    restart_step s (s\<lparr>mgr := leave_wg (RestartLock i sid) (snd (restartWorker_finish i sid (mgr s)))\<rparr>)"

text \<open>
  The matchmaking loop.  It enters \<open>WaitForFreeWorker\<close> (registering the function that runs
  when the context is done), sleeps there until it is signalled, and goes through the
  phases of an iteration; an error sends it back to the start.  The database's sequence
  never gives the same ID twice and starts at one.
\<close>

inductive mm_step :: "'w sys_env \<Rightarrow> 'w sys \<Rightarrow> 'w sys \<Rightarrow> bool" for E where
  m_return: "mpc s = M_Wait \<or> mpc s = M_Sleep \<and> newfreeWorker (mgr s) = Woken \<Longrightarrow> mu s = Unlocked \<Longrightarrow>
    WaitForFreeWorker_turn (ctx s) (mgr s) = (WaitReturns, wm') \<Longrightarrow>
    mm_step E s (s\<lparr>mgr := wm', mpc := M_Check, after_func := False\<rparr>)"
| m_sleep: "mpc s = M_Wait \<or> mpc s = M_Sleep \<and> newfreeWorker (mgr s) = Woken \<Longrightarrow> mu s = Unlocked \<Longrightarrow>
    WaitForFreeWorker_turn (ctx s) (mgr s) = (WaitSleeps, wm') \<Longrightarrow>
    mm_step E s (s\<lparr>mgr := wm', mpc := M_Sleep, after_func := True\<rparr>)"
| m_after: "after_func s \<Longrightarrow> ctx s \<noteq> None \<Longrightarrow> mu s = Unlocked \<Longrightarrow>
    mm_step E s (s\<lparr>mgr := signal_free (mgr s), after_func := False\<rparr>)"
| m_exit: "mpc s = M_Check \<Longrightarrow> ctx s \<noteq> None \<Longrightarrow> mm_step E s (s\<lparr>mpc := M_Exited\<rparr>)"
| m_poll: "mpc s = M_Check \<Longrightarrow> ctx s = None \<Longrightarrow> mm_step E s (s\<lparr>mpc := M_Poll\<rparr>)"
| m_abort: "mpc s = M_Poll \<Longrightarrow> ctx s \<noteq> None \<Longrightarrow> mm_step E s (s\<lparr>mpc := M_Wait\<rparr>)"
| m_again: "mpc s = M_Poll \<Longrightarrow> db_GatherMatchPlayers (mdb E) (world s) = (Inl e, w') \<Longrightarrow>
    mm_step E s (s\<lparr>world := w',
      mpc := (if errors_is e ErrDBNotEnoughPlayers then M_Poll else M_Wait)\<rparr>)"
| m_gather: "mpc s = M_Poll \<Longrightarrow> db_GatherMatchPlayers (mdb E) (world s) = (Inr us, w') \<Longrightarrow>
    mm_step E s (s\<lparr>world := w', mpc := M_Tokens us\<rparr>)"
| m_tokens: "mpc s = M_Tokens us \<Longrightarrow> db_GenerateAuthTokens (mdb E) us (world s) = (r, w') \<Longrightarrow>
    mm_step E s (s\<lparr>world := w', mpc := (case r of Inl _ \<Rightarrow> M_Wait | Inr us' \<Rightarrow> M_NextId us')\<rparr>)"
| m_marshal: "mpc s = M_NextId us \<Longrightarrow> marshal E us = Inl e \<Longrightarrow> mm_step E s (s\<lparr>mpc := M_Wait\<rparr>)"
| m_noid: "mpc s = M_NextId us \<Longrightarrow> db_GetNextMatchId (mdb E) (world s) = (Inl e, w') \<Longrightarrow>
    mm_step E s (s\<lparr>world := w', mpc := M_Wait\<rparr>)"
| m_nextid: "mpc s = M_NextId us \<Longrightarrow> marshal E us = Inr gameConfig \<Longrightarrow>
    db_GetNextMatchId (mdb E) (world s) = (Inr mid, w') \<Longrightarrow> 0 < mid \<Longrightarrow> mid \<notin> set (drawn s) \<Longrightarrow>
    mm_step E s (s\<lparr>world := w', mpc := M_Assign us gameConfig mid, drawn := drawn s @ [mid]\<rparr>)"
| m_refused: "mpc s = M_Assign us gameConfig mid \<Longrightarrow> mu s = Unlocked \<Longrightarrow>
    AssignMatch \<lparr>cfg_MatchID = mid, Config = gameConfig\<rparr> (mgr s) (world s) = (Inl e, wm', w') \<Longrightarrow>
    mm_step E s (s\<lparr>mgr := wm', world := w', mpc := M_Wait\<rparr>)"
| m_assign: "mpc s = M_Assign us gameConfig mid \<Longrightarrow> mu s = Unlocked \<Longrightarrow>
    AssignMatch \<lparr>cfg_MatchID = mid, Config = gameConfig\<rparr> (mgr s) (world s) = (Inr si, wm', w') \<Longrightarrow>
    mm_step E s (s\<lparr>mgr := wm', world := w', mpc := M_Add us si mid, assigned := assigned s @ [mid]\<rparr>)"
| m_add: "mpc s = M_Add us si mid \<Longrightarrow> db_AddMatch (mdb E) us si mid (world s) = (r, w') \<Longrightarrow>
    mm_step E s (s\<lparr>world := w', mpc := M_Wait\<rparr>)"

text \<open>A step of the system, and its runs, counted.\<close>

inductive sys_step :: "'w sys_env \<Rightarrow> 'w sys \<Rightarrow> 'w sys \<Rightarrow> bool" for E where
  by_result: "result_step E s t \<Longrightarrow> sys_step E s t"
| by_save: "save_step s t \<Longrightarrow> sys_step E s t"
| by_health: "health_step E s t \<Longrightarrow> sys_step E s t"
| by_restart: "restart_step s t \<Longrightarrow> sys_step E s t"
| by_matchmaker: "mm_step E s t \<Longrightarrow> sys_step E s t"
| by_env: "env E (world s) w' \<Longrightarrow> sys_step E s (s\<lparr>world := w'\<rparr>)"
| by_cancel: "ctx s = None \<Longrightarrow> sys_step E s (s\<lparr>ctx := Some (Sentinel Canceled)\<rparr>)"

inductive_cases result_stepE: "result_step E s t"
inductive_cases save_stepE: "save_step s t"
inductive_cases health_stepE: "health_step E s t"
inductive_cases restart_stepE: "restart_step s t"
inductive_cases mm_stepE: "mm_step E s t"
inductive_cases sys_stepE: "sys_step E s t"

lemmas step_elims = sys_stepE result_stepE save_stepE health_stepE restart_stepE mm_stepE

inductive reach :: "'w sys_env \<Rightarrow> nat \<Rightarrow> 'w sys \<Rightarrow> bool" for E where
  start: "initial s \<Longrightarrow> reach E 0 s"
| step: "reach E n s \<Longrightarrow> sys_step E s t \<Longrightarrow> reach E (Suc n) t"

end
