(* ===== verification/ManagerSystem_Props.thy ===== *)
theory ManagerSystem_Props
  imports ManagerSystem
begin

text \<open>
  Invariants of the server-manager's goroutines under every interleaving: the pool and its
  lock, the state IDs that keep a late restart from freeing a busy worker, the match IDs,
  the results on their way to the save loop, and the condition variable on which the
  matchmaker sleeps.
\<close>

section \<open>Invariants of the system\<close>

text \<open>
  What there is to show of a property that is to hold in every state the system reaches.  A
  counted invariant may speak of the number of steps done, which bounds the state IDs of the
  workers as long as there are at most \<open>2 ^ 62\<close> of them; an invariant that does not is one.
\<close>

locale counted_invariant =
  fixes I :: "nat \<Rightarrow> 'w sys \<Rightarrow> bool"
  assumes at_start: "initial s \<Longrightarrow> I 0 s"
    and kept: "sys_step E s t \<Longrightarrow> n < 2 ^ 62 \<Longrightarrow> I n s \<Longrightarrow> I (Suc n) t"
begin

lemma reached: "reach E n s \<Longrightarrow> n \<le> 2 ^ 62 \<Longrightarrow> I n s"
  by (induction rule: reach.induct) (auto intro: at_start kept)

end

locale system_invariant =
  fixes J :: "'w sys \<Rightarrow> bool"
  assumes holds_initially: "initial s \<Longrightarrow> J s"
    and step_keeps: "sys_step E s t \<Longrightarrow> J s \<Longrightarrow> J t"
begin

lemma reached: "reach E n s \<Longrightarrow> J s"
  by (induction rule: reach.induct) (auto intro: holds_initially step_keeps)

lemma along: "(sys_step E)\<^sup>*\<^sup>* s t \<Longrightarrow> J s \<Longrightarrow> J t"
  by (induction rule: rtranclp_induct) (auto intro: step_keeps)

end

sublocale system_invariant \<subseteq> counted: counted_invariant "\<lambda>_. J"
  by unfold_locales (auto intro: holds_initially step_keeps)

section \<open>What the critical sections do to the pool\<close>

lemma wg_frame [simp]:
  "workers (leave_wg g wm) = workers wm" "workers (join_wg g wm) = workers wm"
  "saveResultChan (leave_wg g wm) = saveResultChan wm" "saveResultChan (join_wg g wm) = saveResultChan wm"
  "newfreeWorker (leave_wg g wm) = newfreeWorker wm" "newfreeWorker (join_wg g wm) = newfreeWorker wm"
  "resultChanSize (leave_wg g wm) = resultChanSize wm" "resultChanSize (join_wg g wm) = resultChanSize wm"
  "wg (leave_wg g wm) = remove1 g (wg wm)" "wg (join_wg g wm) = wg wm @ [g]"
  "pool_inv (leave_wg g wm) = pool_inv wm" "pool_inv (join_wg g wm) = pool_inv wm"
  "running_matches (leave_wg g wm) = running_matches wm" "running_matches (join_wg g wm) = running_matches wm"
  "getFreeWorker (leave_wg g wm) = getFreeWorker wm" "getFreeWorker (join_wg g wm) = getFreeWorker wm"
  by (simp_all add: leave_wg_def join_wg_def getFreeWorker_def)

text \<open>
  One worker of a health check: it stays as it was but for its ping counter, or it is
  restarted; in the second case its match, if it had one, is cancelled.
\<close>

lemma healthCheck_worker_effect:
  assumes "healthCheck_worker E R i wm w = Some (wm', w')"
  defines "wk \<equiv> HandlePong (ID (workers wm ! i) \<in> R) (workers wm ! i)"
  obtains (healthy) now where "IsHealthy now wk" and "wm' = upd_worker i wk wm"
  | (restarted) now now' where "\<not> IsHealthy now wk"
      and "wm' = (upd_worker i (snd (SetRestarting now' wk)) wm)
         \<lparr>saveResultChan := saveResultChan wm @
            (if State (workers wm ! i) = WorkerOccupied
             then [cancel_result (MatchID (workers wm ! i))] else []),
          wg := wg wm @ [RestartCall i (wrap64 (StateID (workers wm ! i) + 1))]\<rparr>"
proof -
  obtain now w1 where now: "time_Now E w = (now, w1)" by fastforce
  obtain now' w2 where now': "time_Now E w1 = (now', w2)" by fastforce
  show thesis
  proof (cases "IsHealthy now wk")
    case True
    with assms(1) now have "wm' = upd_worker i wk wm"
      by (simp add: healthCheck_worker_def wk_def Let_def)
    with True show thesis by (intro healthy)
  next
    case False
    with assms(1) now now' show thesis
      by (intro restarted [of now now'])
        (auto simp: healthCheck_worker_def wk_def Let_def chan_send_def upd_worker_def SetRestarting_def
          split: if_splits)
  qed
qed

lemma healthCheck_worker_cases:
  assumes "healthCheck_worker E R i wm w = Some (wm', w')" and "i < length (workers wm)"
  obtains (healthy) p now where "wm' = upd_worker i (HandlePong p (workers wm ! i)) wm"
      and "IsHealthy now (HandlePong p (workers wm ! i))"
  | (restarted) p now where
      "wm' = (upd_worker i (snd (SetRestarting now (HandlePong p (workers wm ! i)))) wm)
         \<lparr>saveResultChan := saveResultChan wm @
            (if State (workers wm ! i) = WorkerOccupied
             then [cancel_result (MatchID (workers wm ! i))] else []),
          wg := wg wm @ [RestartCall i (wrap64 (StateID (workers wm ! i) + 1))]\<rparr>"
  using healthCheck_worker_effect [OF assms(1)] by metis

lemma running_matches_same:
  assumes "i < length (workers wm)" and "State wk = State (workers wm ! i)"
    and "MatchID wk = MatchID (workers wm ! i)"
  shows "running_matches (upd_worker i wk wm) = running_matches wm"
proof -
  let ?f = "\<lambda>wk. (State wk, MatchID wk)"
  have "running_matches v = {m. (WorkerOccupied, m) \<in> set (map ?f (workers v))}" for v :: "'a WorkerManager"
    by (force simp: running_matches_def)
  moreover have "map ?f ((workers wm)[i := wk]) = map ?f (workers wm)"
    by (rule map_update_same) (simp add: assms)
  ultimately show ?thesis by (simp only: upd_worker_sel)
qed

lemma running_matches_stop:
  assumes "pool_inv wm" and "i < length (workers wm)" and "State wk \<noteq> WorkerOccupied"
  shows "running_matches (upd_worker i wk wm) =
     running_matches wm - (if State (workers wm ! i) = WorkerOccupied then {MatchID (workers wm ! i)} else {})"
proof -
  have "x \<in> running_matches (upd_worker i wk wm) \<longleftrightarrow>
     x \<in> running_matches wm \<and> \<not> (State (workers wm ! i) = WorkerOccupied \<and> x = MatchID (workers wm ! i))" for x
    using assms by (auto simp: running_matches_iff pool_inv_def matches_unique_def split: if_splits)
  then show ?thesis by auto
qed

lemma pool_inv_healthCheck_worker [inv_intros]:
  assumes "pool_inv wm" and "i < length (workers wm)"
    and "healthCheck_worker E R i wm w = Some (wm', w')"
  shows "pool_inv wm'"
  using assms(3,2)
proof (cases rule: healthCheck_worker_cases)
  case (healthy p now)
  from pool_inv_wf [OF assms(1,2)] healthy(2) have "wf_worker (HandlePong p (workers wm ! i))"
    by (rule wf_HandlePong_healthy)
  with assms(1) healthy(1) show ?thesis by (simp add: pool_inv_upd_same)
next
  case (restarted p now)
  have "wf_worker (snd (SetRestarting now (HandlePong p (workers wm ! i))))"
    using pool_inv_wf [OF assms(1,2)] by (rule wf_HandlePong_SetRestarting)
  with assms(1) restarted show ?thesis by (simp add: pool_inv_upd)
qed

section \<open>State IDs and restart goroutines\<close>

text \<open>
  Before the counters can wrap (fewer than \<open>2 ^ 62\<close> steps), state IDs only grow, and a restart
  goroutine that still carries its worker's state ID belongs to the restart in progress.
\<close>

fun restart_target :: "goroutine \<Rightarrow> (nat \<times> int) option" where
  "restart_target (RestartCall i sid) = Some (i, sid)"
| "restart_target (RestartLock i sid) = Some (i, sid)"
| "restart_target _ = None"

definition ids_inv :: "nat \<Rightarrow> 'w WorkerManager \<Rightarrow> bool" where
  "ids_inv n wm \<longleftrightarrow>
     (\<forall>j<length (workers wm). 0 \<le> StateID (workers wm ! j) \<and> StateID (workers wm ! j) \<le> int n) \<and>
     (\<forall>g\<in>set (wg wm). \<forall>i sid. restart_target g = Some (i, sid) \<longrightarrow>
        i < length (workers wm) \<and> sid \<le> StateID (workers wm ! i) \<and>
        (sid = StateID (workers wm ! i) \<longrightarrow> State (workers wm ! i) = WorkerRestarting))"

lemma ids_inv_mono: "ids_inv n wm \<Longrightarrow> n \<le> k \<Longrightarrow> ids_inv k wm"
  unfolding ids_inv_def by fastforce

text \<open>
  A transition of worker \<open>i\<close> raises its state ID by one, so every goroutine with an older ID
  is too late; the goroutine that the transition itself starts is the only exception.
\<close>

lemma ids_inv_transition:
  assumes "ids_inv n wm" and "i < length (workers wm)" and "n < 2 ^ 62"
    and "StateID wk = wrap64 (StateID (workers wm ! i) + 1)"
    and "set g \<subseteq> {RestartCall i (StateID wk)}" and "g \<noteq> [] \<Longrightarrow> State wk = WorkerRestarting"
  shows "ids_inv (Suc n) ((upd_worker i wk wm)\<lparr>wg := wg wm @ g\<rparr>)"
proof -
  have b: "0 \<le> StateID (workers wm ! i)" "StateID (workers wm ! i) \<le> int n"
    using assms(1,2) by (auto simp: ids_inv_def)
  then have one: "StateID wk = StateID (workers wm ! i) + 1"
    using assms(3,4) by (simp add: wrap64_id)
  have "0 \<le> StateID ((workers wm)[i := wk] ! j) \<and> StateID ((workers wm)[i := wk] ! j) \<le> int (Suc n)"
    if "j < length (workers wm)" for j
  proof (cases "i = j")
    case True
    with b one that show ?thesis by simp
  next
    case False
    from assms(1) that have "0 \<le> StateID (workers wm ! j) \<and> StateID (workers wm ! j) \<le> int n"
      unfolding ids_inv_def by blast
    with False that show ?thesis by simp
  qed
  moreover have "j < length (workers wm) \<and> sid \<le> StateID ((workers wm)[i := wk] ! j) \<and>
      (sid = StateID ((workers wm)[i := wk] ! j) \<longrightarrow> State ((workers wm)[i := wk] ! j) = WorkerRestarting)"
    if "r \<in> set (wg wm @ g)" and "restart_target r = Some (j, sid)" for r j sid
  proof (cases "r \<in> set (wg wm)")
    case True
    with assms(1) that(2) have "j < length (workers wm) \<and> sid \<le> StateID (workers wm ! j) \<and>
        (sid = StateID (workers wm ! j) \<longrightarrow> State (workers wm ! j) = WorkerRestarting)"
      unfolding ids_inv_def by blast
    with one show ?thesis by auto
  next
    case False
    with that(1) have "r \<in> set g" by simp
    with assms(5) have "r = RestartCall i (StateID wk)" and "g \<noteq> []" by auto
    with assms(2,6) that(2) show ?thesis by simp
  qed
  ultimately show ?thesis unfolding ids_inv_def by (simp del: nth_list_update_if)
qed

lemma ids_inv_frame:
  assumes "ids_inv n wm" and "workers wm' = workers wm"
    and "\<And>g i sid. g \<in> set (wg wm') \<Longrightarrow> restart_target g = Some (i, sid) \<Longrightarrow>
           \<exists>g'\<in>set (wg wm). restart_target g' = Some (i, sid)"
  shows "ids_inv n wm'"
  using assms unfolding ids_inv_def by metis

lemma ids_inv_same_ids:
  assumes "ids_inv n wm" and "i < length (workers wm)"
    and "StateID wk = StateID (workers wm ! i)" and "State wk = State (workers wm ! i)"
  shows "ids_inv n (upd_worker i wk wm)"
proof -
  have "StateID ((workers wm)[i := wk] ! j) = StateID (workers wm ! j)"
    and "State ((workers wm)[i := wk] ! j) = State (workers wm ! j)" if "j < length (workers wm)" for j
    using assms that by simp_all
  with assms(1) show ?thesis
    unfolding ids_inv_def upd_worker_sel length_list_update by metis
qed

section \<open>The critical sections keep track of every match\<close>

text \<open>
  \<open>core n wm A H\<close>: after at most \<open>n\<close> transitions of the pool, with \<open>A\<close> the matches assigned so
  far and \<open>H\<close> the results handed to the save loop, only assigned matches run, and every
  assigned match still runs or has its result in \<open>H\<close>.
\<close>

definition core :: "nat \<Rightarrow> 'w WorkerManager \<Rightarrow> int list \<Rightarrow> Result list \<Rightarrow> bool" where
  "core n wm A H \<longleftrightarrow>
     pool_inv wm \<and> ids_inv n wm \<and> running_matches wm \<subseteq> set A \<and>
     set A \<subseteq> running_matches wm \<union> res_MatchID ` set H"

lemma core_frame:
  assumes "core n wm A H" and "workers wm' = workers wm"
    and "\<And>g i sid. g \<in> set (wg wm') \<Longrightarrow> restart_target g = Some (i, sid) \<Longrightarrow>
           \<exists>g'\<in>set (wg wm). restart_target g' = Some (i, sid)"
    and "n \<le> k" and "set H \<subseteq> set H'"
  shows "core k wm' A H'"
proof -
  have "ids_inv n wm'" using assms(1) by (intro ids_inv_frame [OF _ assms(2,3)]) (simp_all add: core_def)
  moreover have "pool_inv wm' = pool_inv wm" "running_matches wm' = running_matches wm"
    using assms(2) by (simp_all add: pool_inv_def running_matches_def)
  moreover have "set A \<subseteq> running_matches wm \<union> res_MatchID ` set H'"
    using assms(1) image_mono [OF assms(5), of res_MatchID] unfolding core_def by blast
  ultimately show ?thesis
    using assms(1,4) unfolding core_def by (auto intro: ids_inv_mono)
qed

lemma core_same: "core n wm A H \<Longrightarrow> n \<le> k \<Longrightarrow> core k wm A H"
  by (rule core_frame) auto

text \<open>A worker that stops running its match does so with the match's result handed over.\<close>

lemma core_stop:
  assumes "core n wm A H" and "i < length (workers wm)" and "n < 2 ^ 62"
    and "wf_worker wk" and "ID wk = ID (workers wm ! i)" and "State wk \<noteq> WorkerOccupied"
    and "StateID wk = wrap64 (StateID (workers wm ! i) + 1)"
    and "State (workers wm ! i) = WorkerOccupied \<Longrightarrow> MatchID (workers wm ! i) \<in> res_MatchID ` set H'"
    and "set H \<subseteq> set H'"
    and "set g \<subseteq> {RestartCall i (StateID wk)}" and "g \<noteq> [] \<Longrightarrow> State wk = WorkerRestarting"
  shows "core (Suc n) ((upd_worker i wk wm)\<lparr>wg := wg wm @ g\<rparr>) A H'"
proof -
  have inv: "pool_inv wm" "ids_inv n wm" using assms(1) by (simp_all add: core_def)
  have "ids_inv (Suc n) ((upd_worker i wk wm)\<lparr>wg := wg wm @ g\<rparr>)"
    using assms inv by (intro ids_inv_transition)
  moreover have "pool_inv (upd_worker i wk wm)" using assms inv by (intro pool_inv_upd)
  moreover have "set A \<subseteq> running_matches wm \<union> res_MatchID ` set H'"
    using assms(1) image_mono [OF assms(9), of res_MatchID] unfolding core_def by blast
  ultimately show ?thesis
    using assms(1,8) unfolding core_def
    by (auto simp: running_matches_stop [OF inv(1) assms(2,6)] split: if_splits)
qed

lemma core_handleResults_free:
  assumes "core n wm A H" and "n < 2 ^ 62" and "res \<in> set H"
  shows "core (Suc n) (handleResults_free res wm) A H"
proof (cases "getWorkerByMatchID (res_MatchID res) wm")
  case None
  with assms(1) show ?thesis by (simp add: handleResults_free_def core_same)
next
  case (Some i)
  note i = getWorkerByMatchID_less [OF Some] getWorkerByMatchID_match [OF Some]
  have wf: "wf_worker (snd (SetFree (workers wm ! i)))"
    using assms(1) i(1) by (auto simp: core_def intro: wf_SetFree pool_inv_wf)
  have "core (Suc n) ((upd_worker i (snd (SetFree (workers wm ! i))) wm)\<lparr>wg := wg wm @ []\<rparr>) A H"
    using assms i wf by (intro core_stop) auto
  then have "core (Suc n) (signal_free (upd_worker i (snd (SetFree (workers wm ! i))) wm)) A H"
    by (rule core_frame) auto
  with Some show ?thesis by (simp add: handleResults_free_def)
qed

lemma core_healthCheck_worker:
  assumes "core n wm A H" and "n < 2 ^ 62" and "i < length (workers wm)"
    and "healthCheck_worker E R i wm w = Some (wm', w')"
  shows "\<exists>new. saveResultChan wm' = saveResultChan wm @ new \<and> core (Suc n) wm' A (H @ new)"
  using assms(4,3)
proof (cases rule: healthCheck_worker_cases)
  case (healthy p now)
  let ?wk = "HandlePong p (workers wm ! i)"
  have inv: "pool_inv wm" "ids_inv n wm" using assms(1) by (simp_all add: core_def)
  from pool_inv_wf [OF inv(1) assms(3)] healthy(2) have "wf_worker ?wk" by (rule wf_HandlePong_healthy)
  then have "pool_inv (upd_worker i ?wk wm)" using inv(1) by (intro pool_inv_upd_same) simp_all
  moreover have "ids_inv n (upd_worker i ?wk wm)" using inv(2) assms(3) by (intro ids_inv_same_ids) simp_all
  then have "ids_inv (Suc n) (upd_worker i ?wk wm)" by (rule ids_inv_mono) simp
  ultimately have "core (Suc n) wm' A H"
    using assms(1,3) unfolding core_def healthy(1) by (simp add: running_matches_same)
  then show ?thesis using healthy(1) by (intro exI [of _ "[]"]) simp
next
  case (restarted p now)
  let ?wk = "snd (SetRestarting now (HandlePong p (workers wm ! i)))"
  let ?new = "if State (workers wm ! i) = WorkerOccupied
    then [cancel_result (MatchID (workers wm ! i))] else []"
  let ?g = "[RestartCall i (wrap64 (StateID (workers wm ! i) + 1))]"
  have "wf_worker ?wk"
    using assms(1,3) by (auto simp: core_def intro: wf_HandlePong_SetRestarting pool_inv_wf)
  then have "core (Suc n) ((upd_worker i ?wk wm)\<lparr>wg := wg wm @ ?g\<rparr>) A (H @ ?new)"
    using assms by (intro core_stop) (auto simp: cancel_result_def)
  then have "core (Suc n) wm' A (H @ ?new)"
    by (rule core_frame) (auto simp: restarted)
  then show ?thesis using restarted by (intro exI [of _ ?new]) simp
qed

text \<open>A restart that still holds the worker's state ID finds the worker restarting.\<close>

lemma ids_inv_restarting:
  assumes "ids_inv n wm" and "RestartLock i sid \<in> set (wg wm)"
  shows "i < length (workers wm)"
    and "StateID (workers wm ! i) = sid \<Longrightarrow> State (workers wm ! i) = WorkerRestarting"
  using assms by (auto simp: ids_inv_def)

lemma core_restartWorker_finish:
  assumes "core n wm A H" and "n < 2 ^ 62" and "RestartLock i sid \<in> set (wg wm)"
  shows "core (Suc n) (leave_wg (RestartLock i sid) (snd (restartWorker_finish i sid wm))) A H"
proof -
  note i = ids_inv_restarting [OF _ assms(3), of n]
  have inv: "pool_inv wm" "ids_inv n wm" using assms(1) by (simp_all add: core_def)
  have "core (Suc n) (snd (restartWorker_finish i sid wm)) A H"
  proof (cases "StateID (workers wm ! i) = sid")
    case False
    with assms(1) show ?thesis by (simp add: restartWorker_finish_def core_same)
  next
    case True
    have "wf_worker (snd (SetFree (workers wm ! i)))"
      using inv i(1) by (auto intro: wf_SetFree pool_inv_wf)
    then have "core (Suc n) ((upd_worker i (snd (SetFree (workers wm ! i))) wm)\<lparr>wg := wg wm @ []\<rparr>) A H"
      using assms inv i True by (intro core_stop) auto
    then have "core (Suc n) (signal_free (upd_worker i (snd (SetFree (workers wm ! i))) wm)) A H"
      by (rule core_frame) auto
    with True show ?thesis by (simp add: restartWorker_finish_def)
  qed
  then show ?thesis by (rule core_frame) (simp_all, meson notin_set_remove1)
qed

lemma core_AssignMatch:
  assumes "core n wm A H" and "n < 2 ^ 62" and "m \<notin> set A"
    and "AssignMatch \<lparr>cfg_MatchID = m, Config = c\<rparr> wm w = (Inr si, wm', w')"
  shows "core (Suc n) wm' (A @ [m]) H"
  using assms(4)
proof (cases rule: AssignMatch_cases)
  case (failed e)
  then show ?thesis by simp
next
  case (assigned i gamePort w1)
  let ?wk = "snd (SetOccupied m (workers wm ! i))"
  note i = getFreeWorker_less [OF assigned(3)] getFreeWorker_free [OF assigned(3)]
  have inv: "pool_inv wm" "ids_inv n wm" using assms(1) by (simp_all add: core_def)
  have wm': "wm' = upd_worker i ?wk wm" using assigned by simp
  have "ids_inv (Suc n) ((upd_worker i ?wk wm)\<lparr>wg := wg wm @ []\<rparr>)"
    using assms(2) inv i by (intro ids_inv_transition) auto
  then have "ids_inv (Suc n) wm'"
    by (rule ids_inv_frame) (auto simp: wm')
  moreover have "pool_inv (upd_worker i ?wk wm)"
    using assms(1,3) inv i by (intro pool_inv_upd_fresh) (auto simp: core_def intro: wf_SetOccupied pool_inv_wf)
  moreover have "running_matches wm' = insert m (running_matches wm)"
    using i by (simp add: wm' running_matches_assigned)
  ultimately show ?thesis
    using assms(1) unfolding core_def by (auto simp: wm')
qed

section \<open>The system starts in order\<close>

lemma Start_new:
  assumes "Start (NewWorkerManager docker broker db cfg) w = (None, wm', w')"
  shows "pool_inv wm'" and "wk \<in> set (workers wm') \<Longrightarrow> State wk = WorkerFree \<and> StateID wk = 0"
    and "wg wm' = [SaveLoop, ResultLoop, HealthLoop]" and "saveResultChan wm' = []"
    and "newfreeWorker wm' = NoWaiter" and "wm_initialized wm'"
proof -
  let ?wm = "NewWorkerManager docker broker db cfg"
  have init: "workers ?wm = []" "wg ?wm = []" "workerMaxPingRetries ?wm = 3"
    by (simp_all add: NewWorkerManager_def)
  from assms obtain wm1 w1 where sp: "spawn_workers [0..<nat (workerCount ?wm)] ?wm w1 = (None, wm1, w')"
    and wm': "wm' = wm1\<lparr>saveResultChan := [], newfreeWorker := NoWaiter, wm_initialized := True,
               wg := wg wm1 @ [SaveLoop, ResultLoop, HealthLoop]\<rparr>"
    by (cases rule: Start_cases) auto
  from spawn_workers_pool [OF sp] have pool:
    "spawned_pool [0..<nat (workerCount ?wm)] 3 (workerRestartTimeout ?wm) (workers wm1)"
    by (auto simp: init)
  have "pool_inv wm1" by (rule spawned_pool_inv [OF pool]) simp_all
  with wm' show "pool_inv wm'" by (simp add: pool_inv_def)
  show "wk \<in> set (workers wm') \<Longrightarrow> State wk = WorkerFree \<and> StateID wk = 0"
    using spawned_pool_props(4) [OF pool] by (simp add: wm')
  show "wg wm' = [SaveLoop, ResultLoop, HealthLoop]"
    using spawn_workers_sel(3) [OF sp] by (simp add: wm' init)
qed (use assms in \<open>cases rule: Start_cases; simp\<close>)+

section \<open>Every match is accounted for\<close>

definition sys_inv :: "nat \<Rightarrow> 'w sys \<Rightarrow> bool" where
  "sys_inv n s \<longleftrightarrow>
     core n (mgr s) (assigned s) (handed s) \<and>
     set (assigned s) \<subseteq> set (drawn s) \<and> distinct (assigned s) \<and> distinct (drawn s) \<and>
     (\<forall>m\<in>set (drawn s). 0 < m) \<and>
     (\<forall>us c m. mpc s = M_Assign us c m \<longrightarrow> m \<in> set (drawn s) \<and> m \<notin> set (assigned s)) \<and>
     (\<forall>res. rpc s = R_Free res \<longrightarrow> res \<in> set (handed s))"

lemma sys_inv_initial:
  assumes "initial s"
  shows "sys_inv 0 s"
proof -
  from assms obtain docker broker db cfg w0
    where st: "Start (NewWorkerManager docker broker db cfg) w0 = (None, mgr s, world s)"
    unfolding initial_def by blast
  note [simp] = Start_new [OF st]
  have "running_matches (mgr s) = {}"
    using Start_new(2) [OF st] by (auto simp: running_matches_def)
  moreover have "ids_inv 0 (mgr s)"
    using Start_new(2) [OF st] by (auto simp: ids_inv_def)
  ultimately show ?thesis using assms by (simp add: sys_inv_def core_def initial_def)
qed

text \<open>A step that changes of the manager only what \<open>core\<close> does not read.\<close>

lemma core_leave_wg: "core n wm A H \<Longrightarrow> n \<le> k \<Longrightarrow> core k (leave_wg g wm) A H"
  by (erule core_frame) (simp_all, meson notin_set_remove1)

lemma core_chan: "core n wm A H \<Longrightarrow> n \<le> k \<Longrightarrow> set H \<subseteq> set H' \<Longrightarrow> core k (wm\<lparr>saveResultChan := c\<rparr>) A H'"
  by (rule core_frame) auto

lemma core_chan_send: "core n wm A H \<Longrightarrow> chan_send res wm = Some wm' \<Longrightarrow> core (Suc n) wm' A (H @ [res])"
  by (auto simp: chan_send_Some intro: core_chan)

lemma core_chan_recv: "core n wm A H \<Longrightarrow> chan_recv wm = Some (res, wm') \<Longrightarrow> core (Suc n) wm' A H"
  by (erule core_frame) (auto simp: chan_recv_def split: list.splits)

lemma core_signal_free: "core n wm A H \<Longrightarrow> n \<le> k \<Longrightarrow> core k (signal_free wm) A H"
  by (rule core_frame) auto

lemma core_turn: "core n wm A H \<Longrightarrow> WaitForFreeWorker_turn c wm = (out, wm') \<Longrightarrow> core (Suc n) wm' A H"
  by (erule core_frame) (auto simp: WaitForFreeWorker_turn_def split: if_splits)

lemma core_restart_called:
  assumes "core n wm A H" and "RestartCall i sid \<in> set (wg wm)"
  shows "core (Suc n) (join_wg (RestartLock i sid) (leave_wg (RestartCall i sid) wm)) A H"
proof (rule core_frame [OF assms(1)], goal_cases)
  case (2 g j t)
  show ?case
  proof (cases "g = RestartLock i sid")
    case True
    with 2(2) assms(2) show ?thesis by (intro bexI [of _ "RestartCall i sid"]) auto
  next
    case False
    with 2(1) have "g \<in> set (wg wm)" by (auto dest: set_remove1_subset [THEN subsetD])
    with 2(2) show ?thesis by blast
  qed
qed simp_all

lemma sys_inv_result:
  "result_step E s t \<Longrightarrow> n < 2 ^ 62 \<Longrightarrow> sys_inv n s \<Longrightarrow> sys_inv (Suc n) t"
  by (induction rule: result_step.induct)
    (auto simp: sys_inv_def core_same core_leave_wg core_chan_send core_handleResults_free)

lemma sys_inv_save: "save_step s t \<Longrightarrow> sys_inv n s \<Longrightarrow> sys_inv (Suc n) t"
  by (induction rule: save_step.induct)
    (auto simp: sys_inv_def core_same core_leave_wg core_chan_recv)

lemma sys_inv_health:
  "health_step E s t \<Longrightarrow> n < 2 ^ 62 \<Longrightarrow> sys_inv n s \<Longrightarrow> sys_inv (Suc n) t"
proof (induction rule: health_step.induct)
  case (h_check s R i wm' w')
  then have c: "core n (mgr s) (assigned s) (handed s)" by (simp add: sys_inv_def)
  from core_healthCheck_worker [OF c h_check(4,2,3)] obtain new
    where "saveResultChan wm' = saveResultChan (mgr s) @ new"
      and "core (Suc n) wm' (assigned s) (handed s @ new)" by blast
  with h_check show ?case by (auto simp: sys_inv_def)
qed (auto simp: sys_inv_def core_same core_leave_wg)

lemma sys_inv_restart:
  "restart_step s t \<Longrightarrow> n < 2 ^ 62 \<Longrightarrow> sys_inv n s \<Longrightarrow> sys_inv (Suc n) t"
  by (induction rule: restart_step.induct)
    (auto simp: sys_inv_def core_leave_wg core_restart_called core_restartWorker_finish)

lemma AssignMatch_Inl: "AssignMatch cfg wm w = (Inl e, wm', w') \<Longrightarrow> wm' = wm"
  by (rule mgr.assign_fails)

lemma sys_inv_mm:
  "mm_step E s t \<Longrightarrow> n < 2 ^ 62 \<Longrightarrow> sys_inv n s \<Longrightarrow> sys_inv (Suc n) t"
proof (induction rule: mm_step.induct)
  case (m_refused s us c mid e wm' w')
  then show ?case by (auto simp: sys_inv_def core_same dest: AssignMatch_Inl)
next
  case (m_assign s us c mid si wm' w')
  then have "core (Suc n) wm' (assigned s @ [mid]) (handed s)"
    by (intro core_AssignMatch) (auto simp: sys_inv_def)
  with m_assign show ?case by (auto simp: sys_inv_def)
next
  case (m_nextid s us c w' mid)
  then show ?case by (auto simp: sys_inv_def core_same)
qed (auto simp: sys_inv_def core_same core_turn core_signal_free split: sum.splits if_splits)

lemma sys_inv_step:
  "sys_step E s t \<Longrightarrow> n < 2 ^ 62 \<Longrightarrow> sys_inv n s \<Longrightarrow> sys_inv (Suc n) t"
  by (cases rule: sys_step.cases)
    (auto intro: sys_inv_result sys_inv_save sys_inv_health sys_inv_restart sys_inv_mm,
     auto simp: sys_inv_def core_same)

interpretation matches_kept: counted_invariant sys_inv
  by unfold_locales (auto intro: sys_inv_initial sys_inv_step)

lemmas reach_sys_inv = matches_kept.reached

section \<open>The results on their way to the database\<close>

fun in_flight :: "save_pc \<Rightarrow> Result list" where
  "in_flight (S_Remove res) = [res]"
| "in_flight (S_Save res) = [res]"
| "in_flight _ = []"

definition queue_inv :: "'w sys \<Rightarrow> bool" where
  "queue_inv s \<longleftrightarrow> handed s = processed s @ in_flight (spc s) @ saveResultChan (mgr s)"

lemma getFreeWorker_upd_None:
  "getFreeWorker wm = None \<Longrightarrow> State wk \<noteq> WorkerFree \<Longrightarrow> getFreeWorker (upd_worker i wk wm) = None"
  using list_all_update [of "\<lambda>wk. State wk \<noteq> WorkerFree" "workers wm" wk i]
  by (simp add: getFreeWorker_None list_all_iff)

lemma getFreeWorker_frame [simp]:
  "getFreeWorker (wm\<lparr>saveResultChan := c\<rparr>) = getFreeWorker wm"
  "getFreeWorker (wm\<lparr>wg := g\<rparr>) = getFreeWorker wm"
  "getFreeWorker (wm\<lparr>waiting := b, newfreeWorker := n\<rparr>) = getFreeWorker wm"
  "getFreeWorker (signal_free wm) = getFreeWorker wm"
  by (simp_all add: getFreeWorker_def)

lemma healthCheck_worker_chan:
  assumes "healthCheck_worker E R i wm w = Some (wm', w')" and "i < length (workers wm)"
  shows "\<exists>new. saveResultChan wm' = saveResultChan wm @ new" and "newfreeWorker wm' = newfreeWorker wm"
    and "length (workers wm') = length (workers wm)" and "getFreeWorker wm = None \<Longrightarrow> getFreeWorker wm' = None"
proof -
  have "getFreeWorker wm = None \<Longrightarrow> State (workers wm ! i) \<noteq> WorkerFree"
    using assms(2) by (simp add: getFreeWorker_None)
  with assms have "(\<exists>new. saveResultChan wm' = saveResultChan wm @ new) \<and>
      newfreeWorker wm' = newfreeWorker wm \<and> length (workers wm') = length (workers wm) \<and>
      (getFreeWorker wm = None \<longrightarrow> getFreeWorker wm' = None)"
    by (cases rule: healthCheck_worker_cases) (simp_all add: getFreeWorker_upd_None)
  then show "\<exists>new. saveResultChan wm' = saveResultChan wm @ new" and "newfreeWorker wm' = newfreeWorker wm"
    and "length (workers wm') = length (workers wm)" and "getFreeWorker wm = None \<Longrightarrow> getFreeWorker wm' = None"
    by blast+
qed

lemma AssignMatch_frame:
  assumes "AssignMatch cfg wm w = (r, wm', w')"
  shows "saveResultChan wm' = saveResultChan wm" and "newfreeWorker wm' = newfreeWorker wm"
    and "length (workers wm') = length (workers wm)"
  using assms by (cases rule: AssignMatch_cases; simp)+

lemma turn_frame:
  assumes "WaitForFreeWorker_turn c wm = (out, wm')"
  shows "saveResultChan wm' = saveResultChan wm" and "workers wm' = workers wm"
  using assms by (auto simp: WaitForFreeWorker_turn_def split: if_splits)

lemma queue_inv_initial: "initial s \<Longrightarrow> queue_inv s"
  by (auto simp: queue_inv_def initial_def Start_new)

lemma queue_inv_step:
  assumes "sys_step E s t" and "queue_inv s"
  shows "queue_inv t"
  using assms
  by (elim step_elims)
    (auto simp: queue_inv_def chan_send_Some chan_recv_Some turn_frame AssignMatch_frame
      dest!: healthCheck_worker_chan(1))

interpretation queue_kept: system_invariant queue_inv
  by unfold_locales (auto intro: queue_inv_initial queue_inv_step)

lemmas reach_queue_inv = queue_kept.reached

section \<open>The lock and the condition variable\<close>

text \<open>
  The matchmaker is registered with the condition variable exactly while it sleeps.  While
  it has not been signalled, no worker is free and the function that wakes it when the
  context is done is still to run.
\<close>

definition wait_inv :: "'w sys \<Rightarrow> bool" where
  "wait_inv s \<longleftrightarrow>
     (mu s = HeldByHealth) = (\<exists>R i. hpc s = H_Check R i) \<and>
     (\<forall>R i. hpc s = H_Check R i \<longrightarrow> i \<le> length (workers (mgr s))) \<and>
     (mpc s = M_Sleep) = (newfreeWorker (mgr s) \<noteq> NoWaiter) \<and>
     (newfreeWorker (mgr s) = Blocked \<longrightarrow> getFreeWorker (mgr s) = None \<and> after_func s)"

lemma wait_inv_initial: "initial s \<Longrightarrow> wait_inv s"
  by (auto simp: wait_inv_def initial_def Start_new)

lemma handleResults_free_wakes:
  "newfreeWorker (handleResults_free res wm) = NoWaiter \<longleftrightarrow> newfreeWorker wm = NoWaiter"
  "newfreeWorker (handleResults_free res wm) = Blocked \<Longrightarrow>
     newfreeWorker wm = Blocked \<and> handleResults_free res wm = wm"
  by (auto simp: handleResults_free_def split: option.splits)

lemma restartWorker_finish_wakes:
  "newfreeWorker (snd (restartWorker_finish i sid wm)) = NoWaiter \<longleftrightarrow> newfreeWorker wm = NoWaiter"
  "newfreeWorker (snd (restartWorker_finish i sid wm)) = Blocked \<Longrightarrow>
     newfreeWorker wm = Blocked \<and> snd (restartWorker_finish i sid wm) = wm"
  by (auto simp: restartWorker_finish_def split: if_splits)

lemma turn_wakes:
  assumes "WaitForFreeWorker_turn c wm = (out, wm')"
  shows "newfreeWorker wm' = (if out = WaitSleeps then Blocked else NoWaiter)"
    and "out = WaitSleeps \<Longrightarrow> getFreeWorker wm' = None"
  using assms by (auto simp: WaitForFreeWorker_turn_def getFreeWorker_def split: if_splits)

lemma chan_recv_frame:
  assumes "chan_recv wm = Some (res, wm')"
  shows "workers wm' = workers wm" and "newfreeWorker wm' = newfreeWorker wm" and "getFreeWorker wm' = getFreeWorker wm"
  using assms by (auto simp: chan_recv_def split: list.splits)

lemma wait_inv_step:
  assumes "sys_step E s t" and "wait_inv s"
  shows "wait_inv t"
  using assms
  by (elim step_elims)
    (auto simp: wait_inv_def chan_send_Some chan_recv_frame handleResults_free_wakes(1) healthCheck_worker_chan Suc_le_eq
      restartWorker_finish_wakes(1) turn_frame turn_wakes AssignMatch_frame
      dest: handleResults_free_wakes(2) restartWorker_finish_wakes(2) AssignMatch_Inl split: sum.splits if_splits)

interpretation wait_kept: system_invariant wait_inv
  by unfold_locales (auto intro: wait_inv_initial wait_inv_step)

lemmas reach_wait_inv = wait_kept.reached

section \<open>The channel\<close>

text \<open>The capacity of the result channel is the one \<open>NewWorkerManager\<close> gives it, and is respected.\<close>

definition chan_inv :: "'w sys \<Rightarrow> bool" where
  "chan_inv s \<longleftrightarrow> resultChanSize (mgr s) = 8192 \<and> length (saveResultChan (mgr s)) \<le> 8192"

lemma Start_resultChanSize:
  assumes "Start (NewWorkerManager docker broker db cfg) w = (None, wm', w')"
  shows "resultChanSize wm' = 8192"
  using assms
proof (cases rule: Start_cases)
  case (started wm1 w1)
  have "resultChanSize wm1 = 8192"
    by (subst spawn_workers_frame [OF started(4)]) (simp add: NewWorkerManager_def)
  with started(5) show ?thesis by simp
qed simp_all

lemma chan_inv_initial: "initial s \<Longrightarrow> chan_inv s"
  by (auto simp: chan_inv_def initial_def Start_new Start_resultChanSize)

lemma healthCheck_worker_size:
  assumes "healthCheck_worker E R i wm w = Some (wm', w')"
    and "length (saveResultChan wm) \<le> resultChanSize wm"
  shows "resultChanSize wm' = resultChanSize wm" and "length (saveResultChan wm') \<le> resultChanSize wm"
  using assms
  by (auto simp: healthCheck_worker_def Let_def chan_send_def split: prod.splits if_splits)

lemma chan_inv_step:
  assumes "sys_step E s t" and "chan_inv s"
  shows "chan_inv t"
  using assms
  by (elim step_elims)
    (auto simp: chan_inv_def chan_send_Some chan_recv_def healthCheck_worker_size WaitForFreeWorker_turn_def
      AssignMatch_frame elim!: AssignMatch_cases dest: healthCheck_worker_size(2) split: list.splits if_splits)

interpretation chan_kept: system_invariant chan_inv
  by unfold_locales (auto intro: chan_inv_initial chan_inv_step)

lemmas reach_chan_inv = chan_kept.reached

section \<open>The lock is always released\<close>

definition drain :: "'w sys_env \<Rightarrow> 'w sys \<Rightarrow> 'w sys \<Rightarrow> bool" where
  "drain E s t \<longleftrightarrow> health_step E s t \<or> save_step s t"

lemma drain_sys_step: "drain E s t \<Longrightarrow> sys_step E s t"
  by (auto simp: drain_def intro: sys_step.intros)

lemma drain_intros: "health_step E s t \<Longrightarrow> drain E s t" "save_step s t \<Longrightarrow> drain E s t"
  by (simp_all add: drain_def)

lemmas drain_then = rtranclp.rtrancl_into_rtrancl [of "drain E" for E, OF _ drain_intros(2)]

text \<open>The save loop, unless it has exited, can always take the next result.\<close>

lemma save_loop_ready:
  assumes "spc s \<noteq> S_Exited"
  shows "\<exists>t. (drain E)\<^sup>*\<^sup>* s t \<and> spc t = S_Recv \<and> mgr t = mgr s \<and> mu t = mu s \<and> hpc t = hpc s"
proof (cases "spc s")
  case S_Recv
  then show ?thesis by blast
next
  case (S_Save res)
  obtain r w' where "db_SaveMatchResults (dbConn (mgr s)) res (world s) = (r, w')" by fastforce
  from drain_then [OF rtranclp.rtrancl_refl s_save [OF S_Save this]] show ?thesis
    by - (rule exI, rule conjI, assumption, simp)
next
  case (S_Remove res)
  obtain r w' where r: "db_RemoveMatchStatus (dbConn (mgr s)) (res_MatchID res) (world s) = (r, w')"
    by fastforce
  let ?s = "s\<lparr>world := w', spc := S_Save res\<rparr>"
  obtain r2 w2 where r2: "db_SaveMatchResults (dbConn (mgr ?s)) res (world ?s) = (r2, w2)" by fastforce
  let ?t = "?s\<lparr>world := w2, spc := S_Recv, processed := processed ?s @ [res]\<rparr>"
  have "(drain E)\<^sup>*\<^sup>* s ?s"
    by (rule drain_then [OF rtranclp.rtrancl_refl s_remove [OF S_Remove r]])
  moreover have "save_step ?s ?t" by (rule s_save [OF _ r2]) simp
  ultimately have "(drain E)\<^sup>*\<^sup>* s ?t" by (rule drain_then)
  then show ?thesis by - (rule exI, rule conjI, assumption, simp)
qed (use assms in simp)

lemma make_room:
  assumes "chan_inv s" and "spc s \<noteq> S_Exited"
  shows "\<exists>t. (drain E)\<^sup>*\<^sup>* s t \<and> spc t \<noteq> S_Exited \<and> chan_inv t \<and> mu t = mu s \<and> hpc t = hpc s \<and>
    workers (mgr t) = workers (mgr s) \<and> length (saveResultChan (mgr t)) < 8192"
proof (cases "length (saveResultChan (mgr s)) < 8192")
  case True
  with assms show ?thesis by (intro exI [of _ s]) simp
next
  case False
  from save_loop_ready [OF assms(2), of E] obtain t where t: "(drain E)\<^sup>*\<^sup>* s t" "spc t = S_Recv"
    "mgr t = mgr s" "mu t = mu s" "hpc t = hpc s" by blast
  from False obtain res rest where c: "saveResultChan (mgr s) = res # rest"
    by (cases "saveResultChan (mgr s)") auto
  then have recv: "chan_recv (mgr t) = Some (res, (mgr s)\<lparr>saveResultChan := rest\<rparr>)"
    by (simp add: chan_recv_def t(3))
  let ?u = "t\<lparr>mgr := (mgr s)\<lparr>saveResultChan := rest\<rparr>, spc := S_Remove res\<rparr>"
  have "(drain E)\<^sup>*\<^sup>* s ?u" by (rule drain_then [OF t(1) s_recv [OF t(2) recv]])
  then show ?thesis using t(4,5) c assms(1) by (intro exI [of _ ?u] conjI) (auto simp: chan_inv_def)
qed

lemma lock_release:
  assumes "chan_inv s" and "spc s \<noteq> S_Exited" and "hpc s = H_Check R i"
    and "i \<le> length (workers (mgr s))"
  shows "\<exists>t. (drain E)\<^sup>*\<^sup>* s t \<and> mu t = Unlocked"
  using assms
proof (induction "length (workers (mgr s)) - i" arbitrary: s i)
  case 0
  then have "i = length (workers (mgr s))" by simp
  note h_done [OF 0(4) this, of E]
  then have "(drain E)\<^sup>*\<^sup>* s (s\<lparr>mu := Unlocked, hpc := H_Wait\<rparr>)"
    by (intro r_into_rtranclp drain_intros(1))
  then show ?case by - (rule exI, rule conjI, assumption, simp)
next
  case (Suc k)
  from make_room [OF Suc(3,4), of E] obtain t where t: "(drain E)\<^sup>*\<^sup>* s t" "spc t \<noteq> S_Exited"
    "chan_inv t" "hpc t = H_Check R i" "workers (mgr t) = workers (mgr s)"
    "length (saveResultChan (mgr t)) < 8192" by (auto simp: Suc(5))
  have i: "i < length (workers (mgr t))" using Suc(2) t(5) by simp
  have "\<exists>wm' w'. healthCheck_worker (rt E) R i (mgr t) (world t) = Some (wm', w')"
    using t(3,6) by (auto simp: healthCheck_worker_def Let_def chan_send_def chan_inv_def
        split: prod.splits)
  then obtain wm' w' where h: "healthCheck_worker (rt E) R i (mgr t) (world t) = Some (wm', w')" by blast
  let ?u = "t\<lparr>mgr := wm', world := w', hpc := H_Check R (Suc i),
      handed := handed t @ drop (length (saveResultChan (mgr t))) (saveResultChan wm')\<rparr>"
  have step: "drain E t ?u" by (rule drain_intros(1) [OF h_check [OF t(4) i h]])
  have len: "length (workers wm') = length (workers (mgr s))"
    using healthCheck_worker_chan(3) [OF h i] t(5) by simp
  have "\<exists>v. (drain E)\<^sup>*\<^sup>* ?u v \<and> mu v = Unlocked"
  proof (rule Suc(1))
    show "chan_inv ?u" by (rule chan_inv_step [OF drain_sys_step [OF step] t(3)])
    show "hpc ?u = H_Check R (Suc i)" by simp
  qed (use Suc(2) len t(2) in auto)
  then obtain v where v: "(drain E)\<^sup>*\<^sup>* ?u v" "mu v = Unlocked" by blast
  from rtranclp_trans [OF rtranclp.rtrancl_into_rtrancl [OF t(1) step] v(1)] v(2) show ?case by blast
qed

section \<open>The wait always ends\<close>

lemma leaves_wait:
  assumes "wait_inv s" and "mpc s = M_Sleep" and "mu s = Unlocked"
    and "getFreeWorker (mgr s) \<noteq> None \<or> ctx s \<noteq> None"
  shows "\<exists>t. (mm_step E)\<^sup>*\<^sup>* s t \<and> mpc t = M_Check"
proof -
  have ret: "\<exists>u. mm_step E t u \<and> mpc u = M_Check"
    if "mpc t = M_Sleep" "newfreeWorker (mgr t) = Woken" "mu t = Unlocked"
      "getFreeWorker (mgr t) \<noteq> None \<or> ctx t \<noteq> None" for t
  proof -
    have "WaitForFreeWorker_turn (ctx t) (mgr t) =
        (WaitReturns, (mgr t)\<lparr>waiting := False, newfreeWorker := NoWaiter\<rparr>)"
      using that(4) by (auto simp: WaitForFreeWorker_turn_def)
    from m_return [OF disjI2 [OF conjI [OF that(1,2)]] that(3) this, of E] show ?thesis
      by - (rule exI, rule conjI, assumption, simp)
  qed
  from assms(1,2,4)
  consider "newfreeWorker (mgr s) = Woken" | "newfreeWorker (mgr s) = Blocked" "after_func s" "ctx s \<noteq> None"
    by (cases "newfreeWorker (mgr s)") (auto simp: wait_inv_def)
  then show ?thesis
  proof cases
    case 1
    from ret [OF assms(2) 1 assms(3,4)] show ?thesis by blast
  next
    case 2
    let ?t = "s\<lparr>mgr := signal_free (mgr s), after_func := False\<rparr>"
    have "mm_step E s ?t" by (rule m_after [OF 2(2,3) assms(3)])
    moreover obtain u where "mm_step E ?t u" "mpc u = M_Check"
      using ret [of ?t] assms(2,3) 2 by auto
    ultimately show ?thesis by (intro exI [of _ u] conjI) (rule converse_rtranclp_into_rtranclp, auto)
  qed
qed

section \<open>Properties of the running system\<close>

text \<open>
  C1. No match is lost by the manager.  In every state the goroutines can reach (with fewer
  than \<open>2 ^ 62\<close> steps, so that no state ID wraps), a match that was assigned to a worker is
  still running on one, or a result for it has been given to the save loop: it is in the
  channel, in the save loop's hands, or already saved.
\<close>

theorem match_accounted:
  assumes "reach E n s" and "n \<le> 2 ^ 62" and "m \<in> set (assigned s)"
  shows "m \<in> running_matches (mgr s) \<or>
     (\<exists>res \<in> set (saveResultChan (mgr s)) \<union> set (in_flight (spc s)) \<union> set (processed s).
        res_MatchID res = m)"
proof -
  from reach_queue_inv [OF assms(1)]
  have "set (handed s) = set (saveResultChan (mgr s)) \<union> set (in_flight (spc s)) \<union> set (processed s)"
    by (simp add: queue_inv_def Un_ac)
  moreover from reach_sys_inv [OF assms(1,2)] assms(3)
  have "m \<in> running_matches (mgr s) \<union> res_MatchID ` set (handed s)"
    unfolding sys_inv_def core_def by blast
  ultimately show ?thesis by (simp only: Un_iff image_iff) blast
qed

text \<open>
  C2. Match IDs and workers correspond one to one.  In every reachable state two different
  workers never run the same match, a worker only runs a match that was assigned, no match
  is ever assigned twice, and every assigned ID was drawn from the database's sequence.
\<close>

theorem matches_exclusive:
  assumes "reach E n s" and "n \<le> 2 ^ 62"
  shows "matches_unique (workers (mgr s)) \<and> running_matches (mgr s) \<subseteq> set (assigned s) \<and>
     distinct (assigned s) \<and> set (assigned s) \<subseteq> set (drawn s)"
  using reach_sys_inv [OF assms] by (simp add: sys_inv_def core_def pool_inv_def)

text \<open>
  C10. A restart frees only the worker it restarted.  When a restart goroutine enters its
  critical section, in whatever order the others have run in the meantime, and it reports
  success, then its worker was still restarting; so no running match is taken from a worker.
  The state ID handed over when the restart began is what guards this.
\<close>

theorem restart_frees_only_restarting:
  assumes "reach E n s" and "n \<le> 2 ^ 62" and "RestartLock i sid \<in> set (wg (mgr s))"
    and "restartWorker_finish i sid (mgr s) = (None, wm')"
  shows "State (workers (mgr s) ! i) = WorkerRestarting \<and> State (workers wm' ! i) = WorkerFree \<and>
     running_matches wm' = running_matches (mgr s)"
proof -
  have inv: "ids_inv n (mgr s)" "pool_inv (mgr s)"
    using reach_sys_inv [OF assms(1,2)] by (simp_all add: sys_inv_def core_def)
  note i = ids_inv_restarting [OF inv(1) assms(3)]
  from assms(4) have sid: "StateID (workers (mgr s) ! i) = sid"
    and wm': "wm' = signal_free (upd_worker i (snd (SetFree (workers (mgr s) ! i))) (mgr s))"
    by (auto simp: restartWorker_finish_def split: if_splits)
  show ?thesis
    using i(1) i(2) [OF sid] by (simp add: wm' running_matches_stop [OF inv(2)])
qed


text \<open>
  C12. No wakeup of the matchmaker is lost.  Whenever it sleeps in \<open>WaitForFreeWorker\<close> while a
  worker is free or the context is done, it has been signalled, or the function registered
  with \<open>context.AfterFunc\<close> is still to signal it; so, with the lock free, steps of its own
  lead it out of the wait.
\<close>

theorem wait_returns:
  assumes "reach E n s" and "mpc s = M_Sleep" and "mu s = Unlocked"
    and "getFreeWorker (mgr s) \<noteq> None \<or> ctx s \<noteq> None"
  shows "\<exists>t. (mm_step E)\<^sup>*\<^sup>* s t \<and> mpc t = M_Check"
  using leaves_wait [OF reach_wait_inv [OF assms(1)] assms(2-4)] .


end
