(* ===== verification/System_Runs.thy ===== *)
theory System_Runs
  imports ManagerSystem_Props
begin

text \<open>
  The step relation of theory \<open>ManagerSystem\<close> as a function of the goroutine that moves, so
  that concrete schedules can be evaluated.  Every step it makes is a step of the relation.
\<close>

section \<open>One action\<close>

datatype 'w action =
    ResultAct | ResultExit
  | SaveAct | SaveExit
  | HealthAct | HealthExit
  | RestartAct nat int | RestartFinish nat int
  | MatchAct | WakeAct
  | CancelAct
  | EnvAct "'w \<Rightarrow> 'w"

definition result_act :: "'w sys_env \<Rightarrow> 'w sys \<Rightarrow> 'w sys option" where
  "result_act E s =
     (case rpc s of
        R_Poll \<Rightarrow>
          (case handleResults_fetch (unmarshal E) (mgr s) (world s) of
             (Inl _, w') \<Rightarrow> Some (s\<lparr>world := w'\<rparr>)
           | (Inr res, w') \<Rightarrow> Some (s\<lparr>world := w', rpc := R_Send res\<rparr>))
      | R_Send res \<Rightarrow>
          (case chan_send res (mgr s) of
             None \<Rightarrow> None
           | Some wm' \<Rightarrow> Some (s\<lparr>mgr := wm', rpc := R_Free res, handed := handed s @ [res]\<rparr>))
      | R_Free res \<Rightarrow>
          if mu s = Unlocked then Some (s\<lparr>mgr := handleResults_free res (mgr s), rpc := R_Poll\<rparr>) else None
      | R_Exited \<Rightarrow> None)"

definition save_act :: "'w sys \<Rightarrow> 'w sys option" where
  "save_act s =
     (case spc s of
        S_Recv \<Rightarrow>
          (case chan_recv (mgr s) of
             None \<Rightarrow> None
           | Some (res, wm') \<Rightarrow> Some (s\<lparr>mgr := wm', spc := S_Remove res\<rparr>))
      | S_Remove res \<Rightarrow>
          (case db_RemoveMatchStatus (dbConn (mgr s)) (res_MatchID res) (world s) of
             (_, w') \<Rightarrow> Some (s\<lparr>world := w', spc := S_Save res\<rparr>))
      | S_Save res \<Rightarrow>
          (case db_SaveMatchResults (dbConn (mgr s)) res (world s) of
             (_, w') \<Rightarrow> Some (s\<lparr>world := w', spc := S_Recv, processed := processed s @ [res]\<rparr>))
      | S_Exited \<Rightarrow> None)"

definition health_act :: "'w sys_env \<Rightarrow> 'w sys \<Rightarrow> 'w sys option" where
  "health_act E s =
     (case hpc s of
        H_Wait \<Rightarrow>
          (case broker_GetWorkersPong (brokerConn (mgr s)) (workerPongTimeout (mgr s)) (world s) of
             (Inl _, w') \<Rightarrow> Some (s\<lparr>world := w'\<rparr>)
           | (Inr R, w') \<Rightarrow> Some (s\<lparr>world := w', hpc := H_Lock R\<rparr>))
      | H_Lock R \<Rightarrow> if mu s = Unlocked then Some (s\<lparr>mu := HeldByHealth, hpc := H_Check R 0\<rparr>) else None
      | H_Check R i \<Rightarrow>
          if i < length (workers (mgr s))
          then (case healthCheck_worker (rt E) R i (mgr s) (world s) of
                  None \<Rightarrow> None
                | Some (wm', w') \<Rightarrow>
                    Some (s\<lparr>mgr := wm', world := w', hpc := H_Check R (Suc i),
                      handed := handed s @ drop (length (saveResultChan (mgr s))) (saveResultChan wm')\<rparr>))
          else if i = length (workers (mgr s)) then Some (s\<lparr>mu := Unlocked, hpc := H_Wait\<rparr>)
          else None
      | H_Exited \<Rightarrow> None)"

definition match_act :: "'w sys_env \<Rightarrow> 'w sys \<Rightarrow> 'w sys option" where
  "match_act E s =
     (case mpc s of
        M_Assign us gameConfig mid \<Rightarrow>
          if mu s \<noteq> Unlocked then None
          else (case AssignMatch \<lparr>cfg_MatchID = mid, Config = gameConfig\<rparr> (mgr s) (world s) of
             (Inl _, wm', w') \<Rightarrow> Some (s\<lparr>mgr := wm', world := w', mpc := M_Wait\<rparr>)
           | (Inr si, wm', w') \<Rightarrow>
               Some (s\<lparr>mgr := wm', world := w', mpc := M_Add us si mid, assigned := assigned s @ [mid]\<rparr>))
      | M_Add us si mid \<Rightarrow>
          (case db_AddMatch (mdb E) us si mid (world s) of (_, w') \<Rightarrow> Some (s\<lparr>world := w', mpc := M_Wait\<rparr>))
      | M_Check \<Rightarrow> Some (s\<lparr>mpc := (if ctx s \<noteq> None then M_Exited else M_Poll)\<rparr>)
      | M_Poll \<Rightarrow>
          (case db_GatherMatchPlayers (mdb E) (world s) of
             (Inl e, w') \<Rightarrow>
               Some (s\<lparr>world := w', mpc := (if errors_is e ErrDBNotEnoughPlayers then M_Poll else M_Wait)\<rparr>)
           | (Inr us, w') \<Rightarrow> Some (s\<lparr>world := w', mpc := M_Tokens us\<rparr>))
      | M_Tokens us \<Rightarrow>
          (case db_GenerateAuthTokens (mdb E) us (world s) of
             (r, w') \<Rightarrow>
               Some (s\<lparr>world := w', mpc := (case r of Inl _ \<Rightarrow> M_Wait | Inr us' \<Rightarrow> M_NextId us')\<rparr>))
      | M_NextId us \<Rightarrow>
          (case marshal E us of
             Inl _ \<Rightarrow> Some (s\<lparr>mpc := M_Wait\<rparr>)
           | Inr gameConfig \<Rightarrow>
               (case db_GetNextMatchId (mdb E) (world s) of
                  (Inl _, w') \<Rightarrow> Some (s\<lparr>world := w', mpc := M_Wait\<rparr>)
                | (Inr mid, w') \<Rightarrow>
                    if 0 < mid \<and> mid \<notin> set (drawn s)
                    then Some (s\<lparr>world := w', mpc := M_Assign us gameConfig mid, drawn := drawn s @ [mid]\<rparr>)
                    else None))
      | M_Exited \<Rightarrow> None
      | _ \<Rightarrow>
          if mu s \<noteq> Unlocked \<or> mpc s = M_Sleep \<and> newfreeWorker (mgr s) \<noteq> Woken then None
          else (case WaitForFreeWorker_turn (ctx s) (mgr s) of
                  (WaitReturns, wm') \<Rightarrow> Some (s\<lparr>mgr := wm', mpc := M_Check, after_func := False\<rparr>)
                | (WaitSleeps, wm') \<Rightarrow> Some (s\<lparr>mgr := wm', mpc := M_Sleep, after_func := True\<rparr>)))"

fun act :: "'w sys_env \<Rightarrow> 'w action \<Rightarrow> 'w sys \<Rightarrow> 'w sys option" where
  "act E ResultAct s = result_act E s"
| "act E ResultExit s =
     (if rpc s = R_Poll \<and> ctx s \<noteq> None
      then Some (s\<lparr>rpc := R_Exited, mgr := leave_wg ResultLoop (mgr s)\<rparr>) else None)"
| "act E SaveAct s = save_act s"
| "act E SaveExit s =
     (if spc s = S_Recv \<and> ctx s \<noteq> None
      then Some (s\<lparr>spc := S_Exited, mgr := leave_wg SaveLoop (mgr s)\<rparr>) else None)"
| "act E HealthAct s = health_act E s"
| "act E HealthExit s =
     (if hpc s = H_Wait \<and> ctx s \<noteq> None
      then Some (s\<lparr>hpc := H_Exited, mgr := leave_wg HealthLoop (mgr s)\<rparr>) else None)"
| "act E (RestartAct i sid) s =
     (if RestartCall i sid \<in> set (wg (mgr s))
      then (case docker_RestartContainer (dockerConn (mgr s)) (ContainerID (workers (mgr s) ! i)) (world s) of
              (Some _, w') \<Rightarrow> Some (s\<lparr>world := w', mgr := leave_wg (RestartCall i sid) (mgr s)\<rparr>)
            | (None, w') \<Rightarrow>
                Some (s\<lparr>world := w',
                        mgr := join_wg (RestartLock i sid) (leave_wg (RestartCall i sid) (mgr s))\<rparr>))
      else None)"
| "act E (RestartFinish i sid) s =
     (if RestartLock i sid \<in> set (wg (mgr s)) \<and> mu s = Unlocked
      then Some (s\<lparr>mgr := leave_wg (RestartLock i sid) (snd (restartWorker_finish i sid (mgr s)))\<rparr>)
      else None)"
| "act E MatchAct s = match_act E s"
| "act E WakeAct s =
     (if after_func s \<and> ctx s \<noteq> None \<and> mu s = Unlocked
      then Some (s\<lparr>mgr := signal_free (mgr s), after_func := False\<rparr>) else None)"
| "act E CancelAct s = (if ctx s = None then Some (s\<lparr>ctx := Some (Sentinel Canceled)\<rparr>) else None)"
| "act E (EnvAct f) s = Some (s\<lparr>world := f (world s)\<rparr>)"

section \<open>Soundness\<close>

lemma result_act_sound: "result_act E s = Some t \<Longrightarrow> result_step E s t"
  by (auto simp: result_act_def intro: result_step.intros
      split: result_pc.splits sum.splits option.splits prod.splits if_splits)

lemma save_act_sound: "save_act s = Some t \<Longrightarrow> save_step s t"
  by (auto simp: save_act_def intro: save_step.intros split: save_pc.splits option.splits prod.splits)

lemma health_act_sound: "health_act E s = Some t \<Longrightarrow> health_step E s t"
  by (auto simp: health_act_def intro: health_step.intros
      split: health_pc.splits sum.splits option.splits prod.splits if_splits)


lemma match_act_sound:
  assumes "match_act E s = Some t"
  shows "mm_step E s t"
proof (cases "mpc s")
  case M_Wait
  with assms have w: "mpc s = M_Wait \<or> mpc s = M_Sleep \<and> newfreeWorker (mgr s) = Woken" "mu s = Unlocked"
    by (auto simp: match_act_def split: if_splits)
  with M_Wait assms show ?thesis
    by (auto simp: match_act_def intro: m_return m_sleep split: prod.splits wait_outcome.splits)
next
  case M_Sleep
  with assms have w: "mpc s = M_Wait \<or> mpc s = M_Sleep \<and> newfreeWorker (mgr s) = Woken" "mu s = Unlocked"
    by (auto simp: match_act_def split: if_splits)
  with M_Sleep assms show ?thesis
    by (auto simp: match_act_def intro: m_return m_sleep split: prod.splits wait_outcome.splits)
next
  case M_Check
  then show ?thesis using assms m_exit [OF M_Check] m_poll [OF M_Check]
    by (auto simp: match_act_def split: if_splits)
next
  case M_Poll
  then show ?thesis using assms m_again [OF M_Poll] m_gather [OF M_Poll]
    by (auto simp: match_act_def split: prod.splits sum.splits)
next
  case (M_Tokens us)
  then show ?thesis using assms m_tokens [OF M_Tokens]
    by (auto simp: match_act_def split: prod.splits)
next
  case (M_NextId us)
  then show ?thesis using assms m_marshal [OF M_NextId] m_noid [OF M_NextId] m_nextid [OF M_NextId]
    by (auto simp: match_act_def split: prod.splits sum.splits if_splits)
next
  case (M_Assign us c mid)
  then show ?thesis using assms m_refused [OF M_Assign] m_assign [OF M_Assign]
    by (auto simp: match_act_def split: prod.splits sum.splits if_splits)
next
  case (M_Add us si mid)
  then show ?thesis using assms m_add [OF M_Add]
    by (auto simp: match_act_def split: prod.splits)
next
  case M_Exited
  then show ?thesis using assms by (simp add: match_act_def)
qed

definition allowed :: "'w sys_env \<Rightarrow> 'w action \<Rightarrow> bool" where
  "allowed E a \<longleftrightarrow> (\<forall>f. a = EnvAct f \<longrightarrow> (\<forall>w. env E w (f w)))"

lemma act_sound:
  assumes "act E a s = Some t" and "allowed E a"
  shows "sys_step E s t"
  using assms
proof (cases a)
  case (EnvAct f)
  with assms have "t = s\<lparr>world := f (world s)\<rparr>" and "env E (world s) (f (world s))"
    by (auto simp: allowed_def)
  then show ?thesis by (simp add: by_env)
next
  case (RestartAct i sid)
  with assms have c: "RestartCall i sid \<in> set (wg (mgr s))" by (auto split: if_splits)
  from RestartAct assms c have "restart_step s t"
    by (auto intro: x_fail x_done split: prod.splits option.splits)
  then show ?thesis by (rule by_restart)
next
  case (RestartFinish i sid)
  with assms have "restart_step s t" by (auto intro: x_finish split: if_splits)
  then show ?thesis by (rule by_restart)
qed (auto split: if_splits intro: by_result [OF result_act_sound] by_result [OF r_exit]
      by_save [OF save_act_sound] by_save [OF s_exit] by_health [OF health_act_sound]
      by_health [OF h_exit] by_matchmaker [OF match_act_sound] by_matchmaker [OF m_after] by_cancel)

section \<open>Schedules\<close>

fun schedule :: "'w sys_env \<Rightarrow> 'w action list \<Rightarrow> 'w sys \<Rightarrow> 'w sys option" where
  "schedule E [] s = Some s"
| "schedule E (a # as) s = (case act E a s of None \<Rightarrow> None | Some t \<Rightarrow> schedule E as t)"

lemma schedule_append:
  "schedule E (as @ bs) s = (case schedule E as s of None \<Rightarrow> None | Some t \<Rightarrow> schedule E bs t)"
  by (induction as arbitrary: s) (auto split: option.splits)

lemma schedule_reach:
  "schedule E as s = Some t \<Longrightarrow> list_all (allowed E) as \<Longrightarrow> reach E n s \<Longrightarrow> reach E (n + length as) t"
proof (induction as arbitrary: s n)
  case Nil
  then show ?case by simp
next
  case (Cons a as)
  from Cons.prems(1) obtain u where u: "act E a s = Some u" "schedule E as u = Some t"
    by (auto split: option.splits)
  have "reach E (Suc n) u"
    using Cons.prems(2,3) u(1) by (auto intro: reach.step act_sound)
  from Cons.IH [OF u(2) _ this] Cons.prems(2) show ?case by simp
qed

end
