(* ===== verification/Matchmaker.thy ===== *)
theory Matchmaker
  imports Types
begin

text \<open>
  \<open>server-manager/app/matchmaker.go\<close>: the matchmaker, written against the ports it is given
  (\<open>internal.WorkerManager\<close> and \<open>internal.DatabaseConnection\<close>).  The JSON encoder of the
  game configuration is an argument; \<open>marshal_players\<close> of theory \<open>Json\<close> is what the code uses.
\<close>

section \<open>State\<close>

record 'w WorkerManager_ops =
  wm_WaitForFreeWorker :: "'w \<Rightarrow> 'w"
  wm_AssignMatch :: "MatchConfig \<Rightarrow> ('w, ServerInfo) call"

record 'w Matchmaker =
  workerManager :: "'w WorkerManager_ops"
  mm_db :: "'w DatabaseConnection_ops"
  mm_config :: EnvConfig
  dbPoolTimeout :: duration
  opened :: bool
  mm_closed :: bool
  loop_running :: bool

definition NewMatchmaker ::
    "'w WorkerManager_ops \<Rightarrow> 'w DatabaseConnection_ops \<Rightarrow> EnvConfig \<Rightarrow> 'w Matchmaker" where
  "NewMatchmaker wm db cfg =
     \<lparr>workerManager = wm, mm_db = db, mm_config = cfg, dbPoolTimeout = milliseconds 150,
      opened = False, mm_closed = False, loop_running = False\<rparr>"

section \<open>Start and Shutdown\<close>

text \<open>\<open>loop_running\<close> stands for the wait group: it counts the core loop's goroutine.\<close>

definition StartMatchmaker ::
    "'w Matchmaker \<Rightarrow> 'w \<Rightarrow> go_error option \<times> 'w Matchmaker \<times> 'w" where
  "StartMatchmaker m w =
     (if mm_closed m then (Some (Sentinel ErrMatchmakerClosed), m, w)
      else if opened m then (Some (Sentinel ErrMatchmakerAlreadyOpen), m, w)
      else case db_Open (mm_db m) w of
        (Some e, w1) \<Rightarrow> (Some e, m, w1)
      | (None, w1) \<Rightarrow>
     (case db_SetupMatchmaking (mm_db m) w1 of
        (Some e, w2) \<Rightarrow> (Some e, m, w2)
      | (None, w2) \<Rightarrow> (None, m\<lparr>loop_running := True, opened := True\<rparr>, w2)))"

text \<open>\<open>Shutdown\<close> closes the connection and then blocks until the core loop has exited.\<close>

definition ShutdownMatchmaker ::
    "'w Matchmaker \<Rightarrow> 'w \<Rightarrow> ('w Matchmaker \<times> 'w) option" where
  "ShutdownMatchmaker m w =
     (if mm_closed m then Some (m, w)
      else let (_, w1) = db_Close (mm_db m) w
           in if loop_running m then None else Some (m\<lparr>mm_closed := True\<rparr>, w1))"

section \<open>Creating a match\<close>

text \<open>The match ID and the error, as the Go function returns them.\<close>

definition createMatch ::
    "(User list \<Rightarrow> go_error + bytes) \<Rightarrow> 'w Matchmaker \<Rightarrow> User list \<Rightarrow> 'w \<Rightarrow>
     (int \<times> go_error option) \<times> 'w" where
  "createMatch marshal m us w =
     (case marshal us of
        Inl e \<Rightarrow> ((0, Some e), w)
      | Inr gameConfig \<Rightarrow>
     (case db_GetNextMatchId (mm_db m) w of
        (Inl e, w1) \<Rightarrow> ((0, Some e), w1)
      | (Inr matchID, w1) \<Rightarrow>
     (case wm_AssignMatch (workerManager m) \<lparr>cfg_MatchID = matchID, Config = gameConfig\<rparr> w1 of
        (Inl e, w2) \<Rightarrow> ((0, Some e), w2)
      | (Inr serverInfo, w2) \<Rightarrow>
     (case db_AddMatch (mm_db m) us serverInfo matchID w2 of
        (r, w3) \<Rightarrow> ((matchID, r), w3)))))"

section \<open>Polling for players\<close>

text \<open>
  The \<open>select\<close> at the head of the polling loop: the ticker fired, or the context is done
  with its error.  The loop has no bound of its own, so the function is partial: \<open>None\<close> is
  "polls forever".
\<close>

datatype select_outcome = Ticked | CtxDone go_error

partial_function (option) waitForEnoughPlayers ::
    "('w \<Rightarrow> select_outcome \<times> 'w) \<Rightarrow> 'w Matchmaker \<Rightarrow> 'w \<Rightarrow>
     ((go_error + User list) \<times> 'w) option" where
  "waitForEnoughPlayers select m w =
     (case select w of
        (CtxDone e, w1) \<Rightarrow> Some (Inl e, w1)
      | (Ticked, w1) \<Rightarrow>
     (case db_GatherMatchPlayers (mm_db m) w1 of
        (Inr us, w2) \<Rightarrow> Some (Inr us, w2)
      | (Inl e, w2) \<Rightarrow>
          if errors_is e ErrDBNotEnoughPlayers then waitForEnoughPlayers select m w2
          else Some (Inl e, w2)))"

section \<open>One iteration of the matchmaking loop\<close>

text \<open>
  How the loop classifies the error of \<open>createMatch\<close>: a shortage of players is not an error
  of the iteration (the next one starts without a delay).
\<close>

definition iteration_error :: "go_error option \<Rightarrow> go_error option" where
  "iteration_error r =
     (case r of
        None \<Rightarrow> None
      | Some e \<Rightarrow> if errors_is e ErrDBNotEnoughPlayers then None else Some e)"

datatype loop_outcome = LoopReturns go_error | LoopContinues "go_error option"

definition matchmaking_iteration ::
    "(User list \<Rightarrow> go_error + bytes) \<Rightarrow> ('w \<Rightarrow> go_error option) \<Rightarrow>
     ('w \<Rightarrow> select_outcome \<times> 'w) \<Rightarrow> 'w Matchmaker \<Rightarrow> 'w \<Rightarrow> (loop_outcome \<times> 'w) option" where
  "matchmaking_iteration marshal ctxErr select m w =
     (let w1 = wm_WaitForFreeWorker (workerManager m) w in
      case ctxErr w1 of
        Some e \<Rightarrow> Some (LoopReturns e, w1)
      | None \<Rightarrow>
     (case waitForEnoughPlayers select m w1 of
        None \<Rightarrow> None
      | Some (Inl e, w2) \<Rightarrow> Some (LoopContinues (Some e), w2)
      | Some (Inr us, w2) \<Rightarrow>
     (case db_GenerateAuthTokens (mm_db m) us w2 of
        (Inl e, w3) \<Rightarrow> Some (LoopContinues (Some e), w3)
      | (Inr us', w3) \<Rightarrow>
     (case createMatch marshal m us' w3 of
        ((_, r), w4) \<Rightarrow> Some (LoopContinues (iteration_error r), w4)))))"

lemmas matchmaker_defs [op_defs] =
  NewMatchmaker_def StartMatchmaker_def ShutdownMatchmaker_def createMatch_def
  iteration_error_def matchmaking_iteration_def

end
