(* ===== verification/Database.thy ===== *)
theory Database
  imports Types
begin

text \<open>
  \<open>server-manager/adapters/db.go\<close>: the database adapter.  The tables are those of the
  project's PostgreSQL schema, as lists of rows; each SQL statement of the adapter is a
  function on the tables with the constraints of the schema (primary keys, foreign keys,
  the range of the 32-bit \<open>matches.id\<close> column), and each method of the adapter issues its
  statements over a connection on which any round trip can fail.

  Two kinds of failure are told apart: the request is lost and nothing happens at the
  server, or the reply is lost and the statement has run although the adapter sees an error.
  Parameters of the model (\<open>pg_env\<close>): the order in which a query without \<open>ORDER BY\<close> visits
  the rows, the random source of \<open>gen_random_bytes\<close>, and the texts PostgreSQL accepts as
  \<open>jsonb\<close>.
\<close>

section \<open>Tables\<close>

record db_user =
  u_login :: string
  u_match_id :: "int option"
  u_match_auth_token :: "string option"
  u_queued_until :: "time option"

record db_match =
  m_id :: int
  m_host :: string
  m_port :: string
  m_active :: bool
  m_canceled :: bool
  m_results :: "string option"

record db_store =
  users :: "db_user list"
  matches :: "db_match list"
  user_matches :: "(string \<times> int) list"
  matches_id_seq :: int

record pg_env =
  scan :: "db_user list \<Rightarrow> db_user list"
  gen_random :: "nat \<Rightarrow> string \<Rightarrow> string"
  jsonb_ok :: "bytes \<Rightarrow> bool"

abbreviation match_ids :: "db_store \<Rightarrow> int set" where
  "match_ids st \<equiv> m_id ` set (matches st)"

abbreviation logins :: "db_store \<Rightarrow> string set" where
  "logins st \<equiv> u_login ` set (users st)"

section \<open>Statements\<close>

type_synonym 'a statement = "db_store \<Rightarrow> go_error + 'a \<times> db_store"

definition sql_error :: "string \<Rightarrow> go_error" where
  "sql_error msg = External msg"

definition int4 :: "int \<Rightarrow> bool" where
  "int4 i = (- (2 ^ 31) \<le> i \<and> i < 2 ^ 31)"

text \<open>\<open>queued_until > NOW() AND match_id IS NULL\<close>: a comparison with NULL is not true.\<close>

definition waiting_user :: "time \<Rightarrow> db_user \<Rightarrow> bool" where
  "waiting_user now u =
     ((case u_queued_until u of None \<Rightarrow> False | Some q \<Rightarrow> now < q) \<and> u_match_id u = None)"

definition sql_gather :: "pg_env \<Rightarrow> time \<Rightarrow> int \<Rightarrow> User list statement" where
  "sql_gather E now limit st =
     (if limit < 0 then Inl (sql_error ''LIMIT must not be negative'')
      else Inr (map (\<lambda>u. \<lparr>Login = u_login u, MatchAuthToken = ''''\<rparr>)
                  (take (nat limit) (filter (waiting_user now) (scan E (users st)))), st))"

definition sql_generate_tokens :: "pg_env \<Rightarrow> nat \<Rightarrow> string list \<Rightarrow> User list statement" where
  "sql_generate_tokens E draw ls st =
     Inr (map (\<lambda>u. \<lparr>Login = u_login u, MatchAuthToken = gen_random E draw (u_login u)\<rparr>)
            (filter (\<lambda>u. u_login u \<in> set ls) (scan E (users st))),
          st\<lparr>users := map (\<lambda>u. if u_login u \<in> set ls
                               then u\<lparr>u_match_auth_token := Some (gen_random E draw (u_login u))\<rparr>
                               else u) (users st)\<rparr>)"

definition sql_nextval :: "int statement" where
  "sql_nextval st =
     (if matches_id_seq st + 1 < 2 ^ 63
      then Inr (matches_id_seq st + 1, st\<lparr>matches_id_seq := matches_id_seq st + 1\<rparr>)
      else Inl (sql_error ''nextval: reached maximum value of sequence''))"

definition sql_insert_match :: "int \<Rightarrow> string \<Rightarrow> string \<Rightarrow> unit statement" where
  "sql_insert_match mid host port st =
     (if \<not> int4 mid then Inl (sql_error ''integer out of range'')
      else if mid \<in> match_ids st then Inl (sql_error ''duplicate key matches_pkey'')
      else Inr ((), st\<lparr>matches := matches st @
             [\<lparr>m_id = mid, m_host = host, m_port = port, m_active = True, m_canceled = False,
               m_results = None\<rparr>]\<rparr>))"

fun sql_insert_user_matches :: "string list \<Rightarrow> int \<Rightarrow> unit statement" where
  "sql_insert_user_matches [] mid st = Inr ((), st)"
| "sql_insert_user_matches (l # ls) mid st =
     (if l \<notin> logins st then Inl (sql_error ''foreign key user_matches.user_id'')
      else if mid \<notin> match_ids st then Inl (sql_error ''foreign key user_matches.match_id'')
      else if (l, mid) \<in> set (user_matches st) then Inl (sql_error ''duplicate key user_matches_pkey'')
      else sql_insert_user_matches ls mid (st\<lparr>user_matches := user_matches st @ [(l, mid)]\<rparr>))"

definition assign_user :: "int \<Rightarrow> db_user \<Rightarrow> db_user" where
  "assign_user mid u = u\<lparr>u_match_id := Some mid, u_queued_until := None\<rparr>"

definition sql_assign_users :: "int \<Rightarrow> string list \<Rightarrow> unit statement" where
  "sql_assign_users mid ls st =
     (if (\<exists>u\<in>set (users st). u_login u \<in> set ls) \<and> mid \<notin> match_ids st
      then Inl (sql_error ''foreign key users.match_id'')
      else Inr ((), st\<lparr>users := map (\<lambda>u. if u_login u \<in> set ls then assign_user mid u else u)
                                   (users st)\<rparr>))"

text \<open>A nil \<open>json.RawMessage\<close> is stored as NULL; the statement returns the rows affected.\<close>

definition json_column :: "bytes \<Rightarrow> string option" where
  "json_column d = (if d = [] then None else Some d)"

definition save_match :: "Result \<Rightarrow> db_match \<Rightarrow> db_match" where
  "save_match res m = m\<lparr>m_results := json_column (Details res), m_canceled := \<not> Success res,
                        m_active := False\<rparr>"

definition sql_save_results :: "pg_env \<Rightarrow> Result \<Rightarrow> nat statement" where
  "sql_save_results E res st =
     (if \<not> int4 (res_MatchID res) then Inl (sql_error ''integer out of range'')
      else if Details res \<noteq> [] \<and> \<not> jsonb_ok E (Details res)
      then Inl (sql_error ''invalid input syntax for type json'')
      else Inr (length (filter (\<lambda>m. m_id m = res_MatchID res) (matches st)),
                st\<lparr>matches := map (\<lambda>m. if m_id m = res_MatchID res then save_match res m else m)
                                (matches st)\<rparr>))"

definition release_user :: "db_user \<Rightarrow> db_user" where
  "release_user u = u\<lparr>u_match_id := None, u_queued_until := None, u_match_auth_token := None\<rparr>"

definition sql_remove_match_status :: "int \<Rightarrow> unit statement" where
  "sql_remove_match_status mid st =
     Inr ((), st\<lparr>users := map (\<lambda>u. if u_match_id u = Some mid then release_user u else u)
                            (users st)\<rparr>)"

definition sql_reset_users :: "unit statement" where
  "sql_reset_users st = Inr ((), st\<lparr>users := map release_user (users st)\<rparr>)"

definition cancel_match :: "db_match \<Rightarrow> db_match" where
  "cancel_match m = m\<lparr>m_active := False, m_canceled := True, m_results := Some ''{}''\<rparr>"

definition sql_cancel_active :: "unit statement" where
  "sql_cancel_active st =
     Inr ((), st\<lparr>matches := map (\<lambda>m. if m_active m then cancel_match m else m) (matches st)\<rparr>)"

section \<open>The connection\<close>

datatype fault = NoFault | ReqLost go_error | ReplyLost go_error

record pg =
  store :: db_store
  faults :: "fault list"
  pg_now :: time
  draws :: nat

text \<open>The fate of the next round trip; with no fault scheduled it succeeds.\<close>

definition next_fault :: "pg \<Rightarrow> fault \<times> pg" where
  "next_fault p = (case faults p of [] \<Rightarrow> (NoFault, p) | f # fs \<Rightarrow> (f, p\<lparr>faults := fs\<rparr>))"

text \<open>A statement outside a transaction.\<close>

definition exec :: "'a statement \<Rightarrow> pg \<Rightarrow> (go_error + 'a) \<times> pg" where
  "exec f p =
     (case next_fault p of
        (ReqLost e, p1) \<Rightarrow> (Inl e, p1)
      | (NoFault, p1) \<Rightarrow>
          (case f (store p1) of
             Inl e \<Rightarrow> (Inl e, p1)
           | Inr (a, st) \<Rightarrow> (Inr a, p1\<lparr>store := st\<rparr>))
      | (ReplyLost e, p1) \<Rightarrow>
          (case f (store p1) of
             Inl _ \<Rightarrow> (Inl e, p1)
           | Inr (_, st) \<Rightarrow> (Inl e, p1\<lparr>store := st\<rparr>)))"

text \<open>
  A transaction works on its own copy of the tables.  A statement that fails, or whose
  reply is lost, leaves nothing but the rollback; the commit publishes the copy, also when
  only its reply is lost.
\<close>

definition tx_begin :: "pg \<Rightarrow> go_error option \<times> pg" where
  "tx_begin p =
     (case next_fault p of
        (NoFault, p1) \<Rightarrow> (None, p1)
      | (ReqLost e, p1) \<Rightarrow> (Some e, p1)
      | (ReplyLost e, p1) \<Rightarrow> (Some e, p1))"

definition tx_exec :: "'a statement \<Rightarrow> db_store \<Rightarrow> pg \<Rightarrow> (go_error + 'a \<times> db_store) \<times> pg" where
  "tx_exec f st p =
     (case next_fault p of
        (NoFault, p1) \<Rightarrow> (f st, p1)
      | (ReqLost e, p1) \<Rightarrow> (Inl e, p1)
      | (ReplyLost e, p1) \<Rightarrow> (Inl e, p1))"

definition tx_rollback :: "pg \<Rightarrow> pg" where
  "tx_rollback p = snd (next_fault p)"

definition tx_commit :: "db_store \<Rightarrow> pg \<Rightarrow> go_error option \<times> pg" where
  "tx_commit st p =
     (case next_fault p of
        (NoFault, p1) \<Rightarrow> (None, p1\<lparr>store := st\<rparr>)
      | (ReqLost e, p1) \<Rightarrow> (Some e, p1)
      | (ReplyLost e, p1) \<Rightarrow> (Some e, p1\<lparr>store := st\<rparr>))"

text \<open>
  The shape of both transactions of the adapter: begin, deferred rollback, one \<open>tx.Exec\<close>
  after the other with a return at the first error, commit.  The rollback after a commit
  finds the transaction closed and makes no round trip.
\<close>

fun tx_statements :: "unit statement list \<Rightarrow> db_store \<Rightarrow> pg \<Rightarrow> (go_error + db_store) \<times> pg" where
  "tx_statements [] st p = (Inr st, p)"
| "tx_statements (f # fs) st p =
     (case tx_exec f st p of
        (Inl e, p1) \<Rightarrow> (Inl e, p1)
      | (Inr (_, st1), p1) \<Rightarrow> tx_statements fs st1 p1)"

definition transaction :: "unit statement list \<Rightarrow> pg \<Rightarrow> go_error option \<times> pg" where
  "transaction fs p =
     (case tx_begin p of
        (Some e, p1) \<Rightarrow> (Some e, p1)
      | (None, p1) \<Rightarrow>
     (case tx_statements fs (store p1) p1 of
        (Inl e, p2) \<Rightarrow> (Some e, tx_rollback p2)
      | (Inr st, p2) \<Rightarrow> tx_commit st p2))"

section \<open>The adapter\<close>

text \<open>\<open>conn\<close> says whether the \<open>*pgx.Conn\<close> is not nil.\<close>

record DatabaseConnection =
  conn :: bool
  db_config :: EnvConfig
  connOpened :: bool
  db_closed :: bool

definition NewDatabaseConnection :: "EnvConfig \<Rightarrow> DatabaseConnection" where
  "NewDatabaseConnection cfg =
     \<lparr>conn = False, db_config = cfg, connOpened = False, db_closed = False\<rparr>"

text \<open>The adapter's methods work on the connection and on the server behind it.\<close>

type_synonym db_world = "DatabaseConnection \<times> pg"

definition OpenDatabase :: "db_world proc" where
  "OpenDatabase = (\<lambda>(c, p).
     if db_closed c then (Some (Sentinel ErrDBConnClosed), c, p)
     else if connOpened c then (Some (Sentinel ErrDBConnAlreadyOpen), c, p)
     else case next_fault p of
       (NoFault, p1) \<Rightarrow> (None, c\<lparr>conn := True, connOpened := True\<rparr>, p1)
     | (ReqLost e, p1) \<Rightarrow> (Some e, c, p1)
     | (ReplyLost e, p1) \<Rightarrow> (Some e, c, p1))"

definition CloseDatabase :: "db_world proc" where
  "CloseDatabase = (\<lambda>(c, p).
     if db_closed c then (Some (Sentinel ErrDBConnAlreadyClosed), c, p)
     else (None, c\<lparr>db_closed := True\<rparr>, if conn c then snd (next_fault p) else p))"

text \<open>The guard every other method starts with.\<close>

definition db_guard :: "DatabaseConnection \<Rightarrow> go_error option" where
  "db_guard c =
     (if \<not> connOpened c then Some (Sentinel ErrDBConnNotOpen)
      else if db_closed c then Some (Sentinel ErrDBConnClosed)
      else None)"

definition GatherMatchPlayers :: "pg_env \<Rightarrow> (db_world, User list) call" where
  "GatherMatchPlayers E = (\<lambda>(c, p).
     case db_guard c of
       Some e \<Rightarrow> (Inl e, c, p)
     | None \<Rightarrow>
         (case exec (sql_gather E (pg_now p) (PlayersPerRoom (db_config c))) p of
            (Inl e, p1) \<Rightarrow> (Inl e, c, p1)
          | (Inr us, p1) \<Rightarrow>
              if int (length us) < PlayersPerRoom (db_config c)
              then (Inl (Sentinel ErrDBNotEnoughPlayers), c, p1)
              else (Inr us, c, p1)))"

definition AddMatch :: "User list \<Rightarrow> ServerInfo \<Rightarrow> int \<Rightarrow> db_world proc" where
  "AddMatch us serverInfo matchID = (\<lambda>(c, p).
     case db_guard c of
       Some e \<Rightarrow> (Some e, c, p)
     | None \<Rightarrow>
         (let ls = map Login us in
          case transaction
                 [sql_insert_match matchID (Host serverInfo) (Port serverInfo),
                  sql_insert_user_matches ls matchID,
                  sql_assign_users matchID ls] p of
            (r, p1) \<Rightarrow> (r, c, p1)))"

definition SaveMatchResults :: "pg_env \<Rightarrow> Result \<Rightarrow> db_world proc" where
  "SaveMatchResults E res = (\<lambda>(c, p).
     case db_guard c of
       Some e \<Rightarrow> (Some e, c, p)
     | None \<Rightarrow>
         (case exec (sql_save_results E res) p of
            (Inl e, p1) \<Rightarrow> (Some e, c, p1)
          | (Inr n, p1) \<Rightarrow>
              if n = 0 then (Some (Errorf ''%w id=%d'' [Sentinel ErrDBMatchNotFound]), c, p1)
              else (None, c, p1)))"

definition GetNextMatchId :: "(db_world, int) call" where
  "GetNextMatchId = (\<lambda>(c, p).
     case db_guard c of
       Some e \<Rightarrow> (Inl e, c, p)
     | None \<Rightarrow> (case exec sql_nextval p of (r, p1) \<Rightarrow> (r, c, p1)))"

definition GenerateAuthTokens :: "pg_env \<Rightarrow> User list \<Rightarrow> (db_world, User list) call" where
  "GenerateAuthTokens E us = (\<lambda>(c, p).
     case db_guard c of
       Some e \<Rightarrow> (Inl e, c, p)
     | None \<Rightarrow>
         (case exec (sql_generate_tokens E (draws p) (map Login us)) p of
            (r, p1) \<Rightarrow> (r, c, p1\<lparr>draws := Suc (draws p1)\<rparr>)))"

definition RemoveMatchStatus :: "int \<Rightarrow> db_world proc" where
  "RemoveMatchStatus matchID = (\<lambda>(c, p).
     case db_guard c of
       Some e \<Rightarrow> (Some e, c, p)
     | None \<Rightarrow>
         (case exec (sql_remove_match_status matchID) p of
            (Inl e, p1) \<Rightarrow> (Some e, c, p1)
          | (Inr _, p1) \<Rightarrow> (None, c, p1)))"

definition SetupMatchmaking :: "db_world proc" where
  "SetupMatchmaking = (\<lambda>(c, p).
     case db_guard c of
       Some e \<Rightarrow> (Some e, c, p)
     | None \<Rightarrow> (case transaction [sql_reset_users, sql_cancel_active] p of (r, p1) \<Rightarrow> (r, c, p1)))"

text \<open>The adapter as a value of the interface type.\<close>

definition database_ops :: "pg_env \<Rightarrow> db_world DatabaseConnection_ops" where
  "database_ops E =
     \<lparr>db_Open = OpenDatabase, db_Close = CloseDatabase, db_SetupMatchmaking = SetupMatchmaking,
      db_GatherMatchPlayers = GatherMatchPlayers E,
      db_GenerateAuthTokens = GenerateAuthTokens E,
      db_GetNextMatchId = GetNextMatchId, db_AddMatch = AddMatch,
      db_RemoveMatchStatus = RemoveMatchStatus, db_SaveMatchResults = SaveMatchResults E\<rparr>"

lemmas database_defs [op_defs] =
  OpenDatabase_def CloseDatabase_def db_guard_def GatherMatchPlayers_def AddMatch_def SaveMatchResults_def
  GetNextMatchId_def GenerateAuthTokens_def RemoveMatchStatus_def SetupMatchmaking_def

end
