(* ===== verification/Database_Props.thy ===== *)
theory Database_Props
  imports Database "HOL-Library.Multiset"
begin

text \<open>
  Facts about the database adapter: what each statement does to the tables, that a method
  is atomic whatever its round trips suffer, the integrity of the tables as an invariant
  of every operation of the adapter and of the API's writers, and the contract the
  matchmaker and the save loop rely on, as a locale interpreted on the adapter.
\<close>

section \<open>The abstract state of a user\<close>

text \<open>
  The waiting queue of \<open>docs/architecture.md\<close>: a user is in a match, waiting, or inactive,
  depending on two columns.
\<close>

datatype user_status = InMatch int | Waiting | Inactive

definition status_of :: "time \<Rightarrow> db_user \<Rightarrow> user_status" where
  "status_of now u =
     (case u_match_id u of
        Some m \<Rightarrow> InMatch m
      | None \<Rightarrow> if waiting_user now u then Waiting else Inactive)"

lemma status_simps [simp]:
  "status_of now (assign_user m u) = InMatch m"
  "status_of now (release_user u) = Inactive"
  "u_login (assign_user m u) = u_login u"
  "u_login (release_user u) = u_login u"
  "u_match_id (assign_user m u) = Some m"
  "u_match_id (release_user u) = None"
  "u_match_auth_token (release_user u) = None"
  by (simp_all add: status_of_def assign_user_def release_user_def waiting_user_def)

lemma match_simps [simp]:
  "m_id (save_match res m) = m_id m"
  "m_active (save_match res m) = False"
  "m_canceled (save_match res m) = (\<not> Success res)"
  "m_results (save_match res m) = json_column (Details res)"
  "m_id (cancel_match m) = m_id m"
  "m_active (cancel_match m) = False"
  "m_canceled (cancel_match m) = True"
  "m_results (cancel_match m) = Some ''{}''"
  by (simp_all add: save_match_def cancel_match_def)

lemma status_waiting: "status_of now u = Waiting \<longleftrightarrow> waiting_user now u"
  by (auto simp: status_of_def waiting_user_def split: option.splits)

lemma status_InMatch: "status_of now u = InMatch m \<longleftrightarrow> u_match_id u = Some m"
  by (auto simp: status_of_def split: option.splits if_splits)

section \<open>What the statements do\<close>

text \<open>The effect of \<open>AddMatch\<close> on the tables, and when its statements accept it.\<close>

definition add_match_store :: "User list \<Rightarrow> ServerInfo \<Rightarrow> int \<Rightarrow> db_store \<Rightarrow> db_store" where
  "add_match_store us si mid st =
     st\<lparr>matches := matches st @
          [\<lparr>m_id = mid, m_host = Host si, m_port = Port si, m_active = True, m_canceled = False,
            m_results = None\<rparr>],
        user_matches := user_matches st @ map (\<lambda>u. (Login u, mid)) us,
        users := map (\<lambda>u. if u_login u \<in> Login ` set us then assign_user mid u else u) (users st)\<rparr>"

definition add_match_ok :: "User list \<Rightarrow> int \<Rightarrow> db_store \<Rightarrow> bool" where
  "add_match_ok us mid st \<longleftrightarrow>
     int4 mid \<and> mid \<notin> match_ids st \<and> distinct (map Login us) \<and> Login ` set us \<subseteq> logins st \<and>
     (\<forall>u\<in>set us. (Login u, mid) \<notin> set (user_matches st))"

lemma sql_insert_user_matches_iff:
  "sql_insert_user_matches ls mid st = Inr ((), st') \<longleftrightarrow>
     set ls \<subseteq> logins st \<and> (ls \<noteq> [] \<longrightarrow> mid \<in> match_ids st) \<and> distinct ls \<and>
     (\<forall>l\<in>set ls. (l, mid) \<notin> set (user_matches st)) \<and>
     st' = st\<lparr>user_matches := user_matches st @ map (\<lambda>l. (l, mid)) ls\<rparr>"
  by (induction ls arbitrary: st) auto

section \<open>Round trips\<close>

lemma next_fault_store: "next_fault p = (f, p') \<Longrightarrow> store p' = store p"
  by (auto simp: next_fault_def split: list.splits)

lemma tx_rollback_store [simp]: "store (tx_rollback p) = store p"
  by (simp add: tx_rollback_def next_fault_def split: list.split)

lemma exec_cases:
  assumes "exec f p = (r, p')"
  obtains (lost) e where "r = Inl e" and "store p' = store p"
  | (ran) a st where "r = Inr a" and "f (store p) = Inr (a, st)" and "store p' = st"
  | (reply_lost) e a st where "r = Inl e" and "f (store p) = Inr (a, st)" and "store p' = st"
      and "faults p \<noteq> []"
  using assms
  by (auto simp: exec_def next_fault_def split: list.splits fault.splits sum.splits prod.splits)

lemma tx_begin_store: "tx_begin p = (r, p') \<Longrightarrow> store p' = store p"
  by (auto simp: tx_begin_def dest: next_fault_store split: prod.splits fault.splits)

lemma tx_exec_store: "tx_exec f st p = (r, p') \<Longrightarrow> store p' = store p"
  by (auto simp: tx_exec_def dest: next_fault_store split: prod.splits fault.splits)

lemma tx_exec_Inr: "tx_exec f st p = (Inr x, p') \<Longrightarrow> f st = Inr x"
  by (auto simp: tx_exec_def split: prod.splits fault.splits)

lemma tx_commit_cases:
  "tx_commit st p = (r, p') \<Longrightarrow>
   (r = None \<and> store p' = st) \<or> (r \<noteq> None \<and> (store p' = store p \<or> store p' = st))"
  by (auto simp: tx_commit_def dest: next_fault_store split: prod.splits fault.splits)

text \<open>What statements in a row compute when all of them succeed.\<close>

fun run_statements :: "unit statement list \<Rightarrow> db_store \<Rightarrow> db_store option" where
  "run_statements [] st = Some st"
| "run_statements (f # fs) st =
     (case f st of Inl _ \<Rightarrow> None | Inr (_, st1) \<Rightarrow> run_statements fs st1)"

lemma tx_statements_store:
  "tx_statements fs st p = (r, p') \<Longrightarrow>
   store p' = store p \<and> (\<forall>st'. r = Inr st' \<longrightarrow> run_statements fs st = Some st')"
proof (induction fs st p arbitrary: r p' rule: tx_statements.induct)
  case (1 st p)
  then show ?case by auto
next
  case (2 f fs st p)
  obtain x p1 where x: "tx_exec f st p = (x, p1)" by fastforce
  note p1 = tx_exec_store [OF x]
  show ?case
  proof (cases x)
    case (Inl e)
    with 2(2) x p1 show ?thesis by auto
  next
    case (Inr y)
    obtain u st1 where y: "y = (u, st1)" by (cases y)
    with 2(2) x Inr have rest: "tx_statements fs st1 p1 = (r, p')" by simp
    from 2(1) [OF x [symmetric] Inr y [symmetric] rest] p1 tx_exec_Inr [OF x [unfolded Inr]] y
    show ?thesis by auto
  qed
qed

text \<open>
  A transaction is atomic whatever its round trips suffer: it leaves the tables alone, or
  has done all its statements, and the latter if it reports success.
\<close>

lemma transaction_atomic:
  assumes "transaction fs p = (r, p')"
  shows "store p' = store p \<and> r \<noteq> None \<or> run_statements fs (store p) = Some (store p')"
proof -
  obtain b p1 where b: "tx_begin p = (b, p1)" by fastforce
  note p1 = tx_begin_store [OF b]
  obtain s p2 where s: "tx_statements fs (store p1) p1 = (s, p2)" by fastforce
  note p2 = tx_statements_store [OF s]
  show ?thesis
  proof (cases "b = None \<and> (\<exists>st. s = Inr st)")
    case True
    then obtain st where st: "s = Inr st" by blast
    with True assms b s have q: "tx_commit st p2 = (r, p')" by (simp add: transaction_def)
    from tx_commit_cases [OF q] p2 st p1 show ?thesis by auto
  next
    case False
    with assms b s p1 p2 show ?thesis
      by (auto simp: transaction_def split: option.splits sum.splits)
  qed
qed

text \<open>The statements of \<open>AddMatch\<close> and \<open>SetupMatchmaking\<close> compute their specifications.\<close>

lemma run_add_match:
  "run_statements [sql_insert_match mid (Host si) (Port si),
      sql_insert_user_matches (map Login us) mid, sql_assign_users mid (map Login us)] st = Some st' \<longleftrightarrow>
     add_match_ok us mid st \<and> st' = add_match_store us si mid st"
proof (cases "int4 mid \<and> mid \<notin> match_ids st")
  case False
  then show ?thesis by (auto simp: sql_insert_match_def add_match_ok_def)
next
  case True
  let ?st1 = "st\<lparr>matches := matches st @
    [\<lparr>m_id = mid, m_host = Host si, m_port = Port si, m_active = True, m_canceled = False,
      m_results = None\<rparr>]\<rparr>"
  let ?ok = "set (map Login us) \<subseteq> logins st \<and> distinct (map Login us) \<and>
    (\<forall>l\<in>set (map Login us). (l, mid) \<notin> set (user_matches st))"
  have ins: "sql_insert_match mid (Host si) (Port si) st = Inr ((), ?st1)"
    using True by (simp add: sql_insert_match_def)
  show ?thesis
  proof (cases "sql_insert_user_matches (map Login us) mid ?st1")
    case (Inl e)
    with sql_insert_user_matches_iff [of "map Login us" mid ?st1] have "\<not> ?ok" by auto
    with Inl ins show ?thesis by (auto simp: add_match_ok_def)
  next
    case (Inr r)
    then obtain st2 where st2: "sql_insert_user_matches (map Login us) mid ?st1 = Inr ((), st2)"
      by (cases r) auto
    then have "?ok" and "st2 = ?st1\<lparr>user_matches := user_matches st @ map (\<lambda>l. (l, mid)) (map Login us)\<rparr>"
      using sql_insert_user_matches_iff [of "map Login us" mid ?st1 st2] by auto
    with True ins st2 show ?thesis
      by (auto simp: sql_assign_users_def add_match_ok_def add_match_store_def comp_def)
  qed
qed

definition setup_store :: "db_store \<Rightarrow> db_store" where
  "setup_store st =
     st\<lparr>users := map release_user (users st),
        matches := map (\<lambda>m. if m_active m then cancel_match m else m) (matches st)\<rparr>"

lemma run_setup:
  "run_statements [sql_reset_users, sql_cancel_active] st = Some (setup_store st)"
  by (simp add: sql_reset_users_def sql_cancel_active_def setup_store_def)

section \<open>What the methods do\<close>

lemma AddMatch_cases:
  assumes "AddMatch us si mid (c, p) = (r, c', p')"
  obtains (nothing) e where "r = Some e" and "c' = c" and "store p' = store p"
  | (added) "c' = c" and "add_match_ok us mid (store p)"
      and "store p' = add_match_store us si mid (store p)"
proof (cases "db_guard c")
  case (Some e)
  with assms have "r = Some e" and "c' = c" and "store p' = store p"
    by (simp_all add: AddMatch_def)
  then show thesis by (rule nothing)
next
  case None
  with assms have "c' = c" and t: "transaction
      [sql_insert_match mid (Host si) (Port si), sql_insert_user_matches (map Login us) mid,
       sql_assign_users mid (map Login us)] p = (r, p')"
    by (auto simp: AddMatch_def Let_def split: prod.splits)
  from transaction_atomic [OF t, unfolded run_add_match]
  have "store p' = store p \<and> r \<noteq> None \<or>
      add_match_ok us mid (store p) \<and> store p' = add_match_store us si mid (store p)"
    by blast
  then show thesis
  proof (elim disjE conjE)
    assume "store p' = store p" and "r \<noteq> None"
    then obtain e where "r = Some e" by blast
    then show thesis using \<open>c' = c\<close> \<open>store p' = store p\<close> by (rule nothing)
  next
    assume "add_match_ok us mid (store p)" and "store p' = add_match_store us si mid (store p)"
    with \<open>c' = c\<close> show thesis by (rule added)
  qed
qed

lemma SetupMatchmaking_cases:
  assumes "SetupMatchmaking (c, p) = (r, c', p')"
  shows "c' = c \<and> (store p' = store p \<and> r \<noteq> None \<or> store p' = setup_store (store p))"
proof (cases "db_guard c")
  case (Some e)
  with assms have "r = Some e" and "c' = c" and "p' = p" by (simp_all add: SetupMatchmaking_def)
  then show ?thesis by simp
next
  case None
  with assms have "c' = c" and "transaction [sql_reset_users, sql_cancel_active] p = (r, p')"
    by (auto simp: SetupMatchmaking_def split: prod.splits)
  with transaction_atomic [OF this(2)] show ?thesis by (auto simp only: run_setup option.inject)
qed

definition remove_store :: "int \<Rightarrow> db_store \<Rightarrow> db_store" where
  "remove_store mid st =
     st\<lparr>users := map (\<lambda>u. if u_match_id u = Some mid then release_user u else u) (users st)\<rparr>"

definition save_store :: "Result \<Rightarrow> db_store \<Rightarrow> db_store" where
  "save_store res st =
     st\<lparr>matches := map (\<lambda>m. if m_id m = res_MatchID res then save_match res m else m) (matches st)\<rparr>"

lemma RemoveMatchStatus_cases:
  assumes "RemoveMatchStatus mid (c, p) = (r, c', p')"
  shows "c' = c \<and> (store p' = store p \<and> r \<noteq> None \<or> store p' = remove_store mid (store p))"
proof (cases "db_guard c")
  case (Some e)
  with assms have "r = Some e" and "c' = c" and "p' = p" by (simp_all add: RemoveMatchStatus_def)
  then show ?thesis by simp
next
  case None
  obtain x p1 where x: "exec (sql_remove_match_status mid) p = (x, p1)" by fastforce
  with None assms have "c' = c" "p' = p1" "r = (case x of Inl e \<Rightarrow> Some e | Inr _ \<Rightarrow> None)"
    by (auto simp: RemoveMatchStatus_def split: sum.splits)
  with x show ?thesis
    by (cases rule: exec_cases) (auto simp: sql_remove_match_status_def remove_store_def)
qed

lemma SaveMatchResults_cases:
  assumes "SaveMatchResults E res (c, p) = (r, c', p')"
  shows "c' = c \<and> (store p' = store p \<and> r \<noteq> None \<or> store p' = save_store res (store p)) \<and>
    (r = None \<longrightarrow> res_MatchID res \<in> match_ids (store p))"
proof (cases "db_guard c")
  case (Some e)
  with assms have "r = Some e" and "c' = c" and "p' = p" by (simp_all add: SaveMatchResults_def)
  then show ?thesis by simp
next
  case None
  obtain x p1 where x: "exec (sql_save_results E res) p = (x, p1)" by fastforce
  with None assms have "c' = c" "p' = p1"
    "r = (case x of Inl e \<Rightarrow> Some e
          | Inr n \<Rightarrow> if n = 0 then Some (Errorf ''%w id=%d'' [Sentinel ErrDBMatchNotFound]) else None)"
    by (auto simp: SaveMatchResults_def split: sum.splits if_splits)
  with x show ?thesis
    by (cases rule: exec_cases)
      (auto simp: sql_save_results_def save_store_def filter_empty_conv
         intro: rev_image_eqI split: if_splits)
qed

lemma GetNextMatchId_cases:
  assumes "GetNextMatchId (c, p) = (r, c', p')"
  shows "c' = c \<and> (store p' = store p \<and> (\<forall>i. r \<noteq> Inr i) \<or>
     store p' = (store p)\<lparr>matches_id_seq := matches_id_seq (store p) + 1\<rparr> \<and>
     (\<forall>i. r = Inr i \<longrightarrow> i = matches_id_seq (store p) + 1))"
proof (cases "db_guard c")
  case (Some e)
  with assms have "r = Inl e" and "c' = c" and "p' = p" by (simp_all add: GetNextMatchId_def)
  then show ?thesis by simp
next
  case None
  obtain x p1 where x: "exec sql_nextval p = (x, p1)" by fastforce
  with None assms have "c' = c" "p' = p1" "r = x" by (auto simp: GetNextMatchId_def)
  with x show ?thesis
    by (cases rule: exec_cases) (auto simp: sql_nextval_def split: if_splits)
qed

text \<open>The tokens written by one draw of the random source.\<close>

definition tokens_store :: "pg_env \<Rightarrow> nat \<Rightarrow> User list \<Rightarrow> db_store \<Rightarrow> db_store" where
  "tokens_store E d us st =
     st\<lparr>users := map (\<lambda>u. if u_login u \<in> Login ` set us
                          then u\<lparr>u_match_auth_token := Some (gen_random E d (u_login u))\<rparr> else u)
                    (users st)\<rparr>"

lemma GenerateAuthTokens_cases:
  assumes "GenerateAuthTokens E us (c, p) = (r, c', p')"
  shows "c' = c \<and> (store p' = store p \<and> (\<forall>us'. r \<noteq> Inr us') \<or>
     store p' = tokens_store E (draws p) us (store p) \<and>
     (\<forall>us'. r = Inr us' \<longrightarrow>
        us' = map (\<lambda>u. \<lparr>Login = u_login u, MatchAuthToken = gen_random E (draws p) (u_login u)\<rparr>)
                (filter (\<lambda>u. u_login u \<in> Login ` set us) (scan E (users (store p))))))"
proof (cases "db_guard c")
  case (Some e)
  with assms have "r = Inl e" and "c' = c" and "p' = p" by (simp_all add: GenerateAuthTokens_def)
  then show ?thesis by simp
next
  case None
  obtain x p1 where x: "exec (sql_generate_tokens E (draws p) (map Login us)) p = (x, p1)" by fastforce
  with None assms have "c' = c" "store p' = store p1" "r = x" by (auto simp: GenerateAuthTokens_def)
  with x show ?thesis
    by (cases rule: exec_cases) (auto simp: sql_generate_tokens_def tokens_store_def)
qed

lemma GatherMatchPlayers_cases:
  assumes "GatherMatchPlayers E (c, p) = (r, c', p')"
  shows "c' = c \<and> store p' = store p \<and>
     (\<forall>us. r = Inr us \<longrightarrow> PlayersPerRoom (db_config c) \<le> int (length us) \<and>
        us = map (\<lambda>u. \<lparr>Login = u_login u, MatchAuthToken = ''''\<rparr>)
               (take (nat (PlayersPerRoom (db_config c)))
                 (filter (waiting_user (pg_now p)) (scan E (users (store p))))))"
proof (cases "db_guard c")
  case (Some e)
  with assms have "r = Inl e" and "c' = c" and "p' = p" by (simp_all add: GatherMatchPlayers_def)
  then show ?thesis by simp
next
  case None
  obtain x p1 where x: "exec (sql_gather E (pg_now p) (PlayersPerRoom (db_config c))) p = (x, p1)"
    by fastforce
  with None assms have "c' = c" "p' = p1"
    "r = (case x of Inl e \<Rightarrow> Inl e
          | Inr us \<Rightarrow> if int (length us) < PlayersPerRoom (db_config c)
                     then Inl (Sentinel ErrDBNotEnoughPlayers) else Inr us)"
    by (auto simp: GatherMatchPlayers_def split: sum.splits if_splits)
  with x show ?thesis
    by (cases rule: exec_cases) (auto simp: sql_gather_def split: if_splits)
qed

section \<open>Integrity of the tables\<close>

text \<open>
  The keys are unique, the references resolve, a user's current match is in the user's
  history, and no match ID is above the last one drawn from the sequence.
\<close>

definition wf_store :: "db_store \<Rightarrow> bool" where
  "wf_store st \<longleftrightarrow>
     distinct (map u_login (users st)) \<and> distinct (map m_id (matches st)) \<and>
     distinct (user_matches st) \<and>
     (\<forall>u\<in>set (users st). \<forall>m. u_match_id u = Some m \<longrightarrow>
        m \<in> match_ids st \<and> (u_login u, m) \<in> set (user_matches st)) \<and>
     (\<forall>(l, m)\<in>set (user_matches st). l \<in> logins st \<and> m \<in> match_ids st) \<and>
     (\<forall>m\<in>match_ids st. m \<le> matches_id_seq st)"

text \<open>
  An update of the users that keeps their logins and at most clears their match keeps the
  integrity; so does an update of the matches that keeps their IDs.
\<close>

lemma map_map_same: "(\<And>x. f (g x) = f x) \<Longrightarrow> map f (map g xs) = map f xs"
  by (simp add: comp_def)

lemma image_image_same: "(\<And>x. f (g x) = f x) \<Longrightarrow> f ` g ` A = f ` A"
  by (simp add: image_image)

lemma wf_store_users:
  assumes "wf_store st" and "\<And>u. u_login (f u) = u_login u"
    and "\<And>u. u_match_id (f u) = u_match_id u \<or> u_match_id (f u) = None"
  shows "wf_store (st\<lparr>users := map f (users st)\<rparr>)"
proof -
  have "u_login ` f ` set (users st) = logins st"
    by (simp add: image_image assms(2))
  moreover have "m \<in> match_ids st \<and> (u_login u, m) \<in> set (user_matches st)"
    if "u \<in> set (users st)" and "u_match_id (f u) = Some m" for u m
    using assms(1) that assms(3) [of u] by (auto simp: wf_store_def)
  ultimately show ?thesis
    using assms(1,2) by (auto simp: wf_store_def comp_def)
qed

lemma wf_store_matches:
  assumes "wf_store st" and "\<And>m. m_id (f m) = m_id m"
  shows "wf_store (st\<lparr>matches := map f (matches st)\<rparr>)"
proof -
  have "m_id ` f ` set (matches st) = match_ids st"
    by (simp add: image_image assms(2))
  then show ?thesis using assms by (auto simp: wf_store_def comp_def)
qed

lemma wf_remove_store [inv_intros]: "wf_store st \<Longrightarrow> wf_store (remove_store mid st)"
  unfolding remove_store_def by (rule wf_store_users) auto

lemma wf_save_store [inv_intros]: "wf_store st \<Longrightarrow> wf_store (save_store res st)"
  unfolding save_store_def by (rule wf_store_matches) auto

lemma wf_tokens_store [inv_intros]: "wf_store st \<Longrightarrow> wf_store (tokens_store E d us st)"
  unfolding tokens_store_def by (rule wf_store_users) auto

lemma wf_setup_store [inv_intros]: "wf_store st \<Longrightarrow> wf_store (setup_store st)"
proof -
  assume "wf_store st"
  then have "wf_store (st\<lparr>users := map release_user (users st)\<rparr>)"
    by (rule wf_store_users) auto
  then have "wf_store (st\<lparr>users := map release_user (users st)\<rparr>
      \<lparr>matches := map (\<lambda>m. if m_active m then cancel_match m else m)
         (matches (st\<lparr>users := map release_user (users st)\<rparr>))\<rparr>)"
    by (rule wf_store_matches) auto
  then show ?thesis by (simp add: setup_store_def)
qed

lemma wf_nextval [inv_intros]: "wf_store st \<Longrightarrow> wf_store (st\<lparr>matches_id_seq := matches_id_seq st + 1\<rparr>)"
  by (auto simp: wf_store_def)

lemma add_match_store_logins [simp]: "logins (add_match_store us si mid st) = logins st"
proof -
  have "u_login (if u_login u \<in> Login ` set us then assign_user mid u else u) = u_login u" for u
    by simp
  then show ?thesis by (simp add: add_match_store_def image_image_same del: if_image_distrib)
qed

lemma add_match_store_ids [simp]: "match_ids (add_match_store us si mid st) = insert mid (match_ids st)"
  by (auto simp: add_match_store_def)

lemma wf_add_match_store [inv_intros]:
  assumes "wf_store st" and "add_match_ok us mid st" and "mid \<le> matches_id_seq st"
  shows "wf_store (add_match_store us si mid st)"
proof -
  let ?st = "add_match_store us si mid st"
  have fresh: "mid \<notin> match_ids st" "distinct (map Login us)" "Login ` set us \<subseteq> logins st"
    using assms(2) by (auto simp: add_match_ok_def)
  have new: "user_matches ?st = user_matches st @ map (\<lambda>u. (Login u, mid)) us"
    "matches_id_seq ?st = matches_id_seq st"
    "users ?st = map (\<lambda>u. if u_login u \<in> Login ` set us then assign_user mid u else u) (users st)"
    by (simp_all add: add_match_store_def)
  have "distinct (map m_id (matches ?st))"
    using assms(1) fresh(1) by (simp add: add_match_store_def wf_store_def)
  moreover have "distinct (map u_login (users ?st))"
    using assms(1) unfolding new(3) by (subst map_map_same) (auto simp: wf_store_def)
  moreover have "distinct (user_matches ?st)"
  proof -
    have "distinct (map (\<lambda>u. (Login u, mid)) us)"
      using fresh(2) by (auto simp: distinct_map inj_on_def)
    moreover have "set (user_matches st) \<inter> set (map (\<lambda>u. (Login u, mid)) us) = {}"
      using assms(1) fresh(1) by (auto simp: wf_store_def)
    ultimately show ?thesis using assms(1) by (simp add: new wf_store_def)
  qed
  moreover have "m \<in> match_ids ?st \<and> (u_login u, m) \<in> set (user_matches ?st)"
    if "u \<in> set (users ?st)" and "u_match_id u = Some m" for u m
    using that assms(1) unfolding new(1,3) add_match_store_ids
    by (auto simp: wf_store_def split: if_splits)
  moreover have "l \<in> logins ?st \<and> m \<in> match_ids ?st" if "(l, m) \<in> set (user_matches ?st)" for l m
    using that assms(1) fresh(3) unfolding new(1) add_match_store_ids add_match_store_logins
    by (auto simp: wf_store_def)
  moreover have "m \<le> matches_id_seq ?st" if "m \<in> match_ids ?st" for m
    using that assms(1,3) unfolding new(2) add_match_store_ids by (auto simp: wf_store_def)
  ultimately show ?thesis unfolding wf_store_def by blast
qed

section \<open>All the writers of the database\<close>

text \<open>
  A step of the database is one call of an adapter method over some connection, or one of
  the API's writes (\<open>api/src/lib/db.js\<close>: a user registers, enters, refreshes or leaves the
  queue, which touches only users with no match), or time passing, or the network's next
  faults.  Match IDs given to \<open>AddMatch\<close> have been drawn from the sequence.
\<close>

inductive db_step :: "pg_env \<Rightarrow> pg \<Rightarrow> pg \<Rightarrow> bool" for E where
  gather: "GatherMatchPlayers E (c, p) = (rg, c', p') \<Longrightarrow> db_step E p p'"
| tokens: "GenerateAuthTokens E us (c, p) = (rt, c', p') \<Longrightarrow> db_step E p p'"
| nextid: "GetNextMatchId (c, p) = (rn, c', p') \<Longrightarrow> db_step E p p'"
| add: "mid \<le> matches_id_seq (store p) \<Longrightarrow> AddMatch us si mid (c, p) = (ra, c', p') \<Longrightarrow> db_step E p p'"
| remove: "RemoveMatchStatus mid (c, p) = (rr, c', p') \<Longrightarrow> db_step E p p'"
| save: "SaveMatchResults E res (c, p) = (rs, c', p') \<Longrightarrow> db_step E p p'"
| reset: "SetupMatchmaking (c, p) = (ru, c', p') \<Longrightarrow> db_step E p p'"
| register: "l \<notin> logins (store p) \<Longrightarrow>
    db_step E p (p\<lparr>store := (store p)\<lparr>users := users (store p) @
      [\<lparr>u_login = l, u_match_id = None, u_match_auth_token = None, u_queued_until = None\<rparr>]\<rparr>\<rparr>)"
| queue: "db_step E p (p\<lparr>store := (store p)\<lparr>users :=
      map (\<lambda>u. if u_login u = l \<and> u_match_id u = None then u\<lparr>u_queued_until := q\<rparr> else u)
        (users (store p))\<rparr>\<rparr>)"
| time: "pg_now p \<le> t \<Longrightarrow> db_step E p (p\<lparr>pg_now := t\<rparr>)"
| network: "db_step E p (p\<lparr>faults := fs\<rparr>)"

text \<open>
  Whatever the faults, a step has one of these effects on the tables; in particular no
  effect lies between nothing and all of a transaction.
\<close>

inductive db_effect :: "db_store \<Rightarrow> db_store \<Rightarrow> bool" where
  none: "db_effect st st"
| users: "(\<And>u. u_login (f u) = u_login u) \<Longrightarrow>
    (\<And>u. u_match_id (f u) = u_match_id u \<or> u_match_id (f u) = None) \<Longrightarrow>
    db_effect st (st\<lparr>users := map f (users st)\<rparr>)"
| registered: "l \<notin> logins st \<Longrightarrow> db_effect st (st\<lparr>users := users st @
    [\<lparr>u_login = l, u_match_id = None, u_match_auth_token = None, u_queued_until = None\<rparr>]\<rparr>)"
| drawn: "db_effect st (st\<lparr>matches_id_seq := matches_id_seq st + 1\<rparr>)"
| added: "mid \<le> matches_id_seq st \<Longrightarrow> add_match_ok us mid st \<Longrightarrow>
    db_effect st (add_match_store us si mid st)"
| saved: "db_effect st (save_store res st)"
| set_up: "db_effect st (setup_store st)"

lemma db_effect_tokens [intro]: "db_effect st (tokens_store E d us st)"
  unfolding tokens_store_def by (rule db_effect.users) auto

lemma db_effect_remove [intro]: "db_effect st (remove_store mid st)"
  unfolding remove_store_def by (rule db_effect.users) auto

lemma db_step_effect: "db_step E p p' \<Longrightarrow> db_effect (store p) (store p')"
proof (induction rule: db_step.induct)
  case (gather c p rg c' p')
  from GatherMatchPlayers_cases [OF gather] show ?case by (auto intro: db_effect.none)
next
  case (tokens us c p rt c' p')
  from GenerateAuthTokens_cases [OF tokens] show ?case by (auto intro: db_effect.none)
next
  case (nextid c p rn c' p')
  from GetNextMatchId_cases [OF nextid] show ?case by (auto intro: db_effect.none db_effect.drawn)
next
  case (add mid p us si c ra c' p')
  from add(2) show ?case
    by (cases rule: AddMatch_cases) (auto intro: db_effect.none db_effect.added add(1))
next
  case (remove mid c p rr c' p')
  from RemoveMatchStatus_cases [OF remove] show ?case by (auto intro: db_effect.none)
next
  case (save res c p rs c' p')
  from SaveMatchResults_cases [OF save] show ?case by (auto intro: db_effect.none db_effect.saved)
next
  case (reset c p ru c' p')
  from SetupMatchmaking_cases [OF reset] show ?case by (auto intro: db_effect.none db_effect.set_up)
next
  case (register l p)
  then show ?case by (simp add: db_effect.registered)
next
  case (queue p l q)
  show ?case by simp (rule db_effect.users, auto)
qed (simp_all add: db_effect.none)

lemma wf_register:
  "wf_store st \<Longrightarrow> l \<notin> logins st \<Longrightarrow>
   wf_store (st\<lparr>users := users st @
     [\<lparr>u_login = l, u_match_id = None, u_match_auth_token = None, u_queued_until = None\<rparr>]\<rparr>)"
  by (auto simp: wf_store_def)

lemma db_effect_wf: "db_effect st st' \<Longrightarrow> wf_store st \<Longrightarrow> wf_store st'"
  by (induction rule: db_effect.induct)
    (simp_all add: wf_store_users wf_register wf_nextval wf_add_match_store wf_save_store wf_setup_store)

definition empty_store :: db_store where
  "empty_store = \<lparr>users = [], matches = [], user_matches = [], matches_id_seq = 0\<rparr>"

inductive db_reachable :: "pg_env \<Rightarrow> pg \<Rightarrow> bool" for E where
  fresh: "store p = empty_store \<Longrightarrow> db_reachable E p"
| step: "db_reachable E p \<Longrightarrow> db_step E p p' \<Longrightarrow> db_reachable E p'"

lemma wf_empty_store: "wf_store empty_store"
  by (simp add: wf_store_def empty_store_def)

lemma db_reachable_wf: "db_reachable E p \<Longrightarrow> wf_store (store p)"
  by (induction rule: db_reachable.induct)
    (auto simp: wf_empty_store intro: db_effect_wf db_step_effect)

text \<open>No step takes a match away or makes a finished match active again.\<close>

definition finished :: "db_store \<Rightarrow> int \<Rightarrow> bool" where
  "finished st mid \<longleftrightarrow>
     mid \<in> match_ids st \<and> (\<forall>m\<in>set (matches st). m_id m = mid \<longrightarrow> \<not> m_active m)"

lemma save_store_ids [simp]: "match_ids (save_store res st) = match_ids st"
  by (simp add: save_store_def image_image_same del: if_image_distrib)

lemma setup_store_ids [simp]: "match_ids (setup_store st) = match_ids st"
  by (simp add: setup_store_def image_image_same del: if_image_distrib)

lemma finished_save: "finished st mid \<Longrightarrow> finished (save_store res st) mid"
  unfolding finished_def save_store_ids by (auto simp: save_store_def)

lemma finished_setup: "finished st mid \<Longrightarrow> finished (setup_store st) mid"
  unfolding finished_def setup_store_ids by (auto simp: setup_store_def)

lemma finished_add:
  "finished st mid \<Longrightarrow> add_match_ok us m st \<Longrightarrow> finished (add_match_store us si m st) mid"
  unfolding finished_def add_match_store_ids by (auto simp: add_match_store_def add_match_ok_def)

lemma db_effect_finished: "db_effect st st' \<Longrightarrow> finished st mid \<Longrightarrow> finished st' mid"
  by (induction rule: db_effect.induct)
    (simp_all add: finished_save finished_setup finished_add, simp_all add: finished_def)

lemma db_steps_finished:
  "(db_step E)\<^sup>*\<^sup>* p p' \<Longrightarrow> finished (store p) mid \<Longrightarrow> finished (store p') mid"
  by (induction rule: rtranclp_induct) (auto intro: db_effect_finished db_step_effect)

end
