(* ===== verification/Match_Records.thy ===== *)
theory Match_Records
  imports Database_Props Manager
begin

text \<open>
  The contract of the database between the matchmaker, which adds matches, and the save
  loop, which ends them: an abstract view of the tables (which match a user is in, which
  matches are active) and the effect of three operations on it, as a locale interpreted on
  the adapter; and the properties of the adapter's methods.
\<close>

section \<open>The abstract view\<close>

text \<open>The match a login is in, by the first row with that login; the matches that are active.\<close>

definition match_of :: "db_store \<Rightarrow> string \<Rightarrow> int option" where
  "match_of st l = Option.bind (find (\<lambda>u. u_login u = l) (users st)) u_match_id"

definition active_matches :: "db_store \<Rightarrow> int set" where
  "active_matches st = m_id ` {m \<in> set (matches st). m_active m}"

lemma find_map_login:
  assumes "\<And>u. u_login (f u) = u_login u"
  shows "find (\<lambda>u. u_login u = l) (map f us) = map_option f (find (\<lambda>u. u_login u = l) us)"
  using assms by (induction us) auto

lemma find_SomeD: "find P xs = Some x \<Longrightarrow> x \<in> set xs \<and> P x"
  by (induction xs) (auto split: if_splits)

lemma find_login_exists: "l \<in> u_login ` set us \<Longrightarrow> \<exists>u. find (\<lambda>u. u_login u = l) us = Some u \<and> u_login u = l"
  by (induction us) auto

lemma match_of_users:
  assumes "\<And>u. u_login (f u) = u_login u"
  shows "match_of (st\<lparr>users := map f (users st)\<rparr>) l =
     Option.bind (find (\<lambda>u. u_login u = l) (users st)) (\<lambda>u. u_match_id (f u))"
  by (simp add: match_of_def find_map_login [OF assms] Option.bind_map_option comp_def)

lemma match_of_remove:
  "match_of (remove_store mid st) l = (if match_of st l = Some mid then None else match_of st l)"
proof -
  have "match_of (remove_store mid st) l =
      Option.bind (find (\<lambda>u. u_login u = l) (users st))
        (\<lambda>u. u_match_id (if u_match_id u = Some mid then release_user u else u))"
    unfolding remove_store_def by (rule match_of_users) simp
  then show ?thesis
    by (cases "find (\<lambda>u. u_login u = l) (users st)") (simp_all add: match_of_def)
qed

lemma match_of_add:
  assumes "add_match_ok us mid st"
  shows "match_of (add_match_store us si mid st) l =
    (if l \<in> Login ` set us then Some mid else match_of st l)"
proof -
  let ?f = "\<lambda>u. if u_login u \<in> Login ` set us then assign_user mid u else u"
  have "match_of (add_match_store us si mid st) l = match_of (st\<lparr>users := map ?f (users st)\<rparr>) l"
    by (simp add: match_of_def add_match_store_def)
  also have "\<dots> = Option.bind (find (\<lambda>u. u_login u = l) (users st)) (\<lambda>u. u_match_id (?f u))"
    by (rule match_of_users) simp
  also have "\<dots> = (if l \<in> Login ` set us then Some mid else match_of st l)"
  proof (cases "find (\<lambda>u. u_login u = l) (users st)")
    case None
    then have "l \<notin> logins st" using find_login_exists [of l "users st"] by auto
    with assms have "l \<notin> Login ` set us" by (auto simp: add_match_ok_def)
    with None show ?thesis by (simp add: match_of_def)
  next
    case (Some u)
    with find_SomeD [OF Some] show ?thesis by (auto simp: match_of_def)
  qed
  finally show ?thesis .
qed

lemma match_of_save [simp]: "match_of (save_store res st) l = match_of st l"
  by (simp add: match_of_def save_store_def)

lemma active_remove [simp]: "active_matches (remove_store mid st) = active_matches st"
  by (simp add: active_matches_def remove_store_def)

lemma active_add: "active_matches (add_match_store us si mid st) = insert mid (active_matches st)"
  by (force simp: active_matches_def add_match_store_def)

lemma active_save: "active_matches (save_store res st) = active_matches st - {res_MatchID res}"
  by (force simp: active_matches_def save_store_def split: if_splits)

section \<open>The contract\<close>

text \<open>
  Each operation either has its whole effect on the view or none, and has it when it
  reports success; adding gives the players the match, removing takes it from exactly those
  who have it, saving ends exactly the match saved.
\<close>

locale match_records =
  fixes add :: "User list \<Rightarrow> ServerInfo \<Rightarrow> int \<Rightarrow> 'w proc"
    and remove :: "int \<Rightarrow> 'w proc"
    and save :: "Result \<Rightarrow> 'w proc"
    and in_match :: "'w \<Rightarrow> string \<Rightarrow> int option"
    and active :: "'w \<Rightarrow> int set"
  assumes add_law: "add us si m w = (r, w') \<Longrightarrow>
        (r \<noteq> None \<and> in_match w' = in_match w \<and> active w' = active w) \<or>
        ((\<forall>l. in_match w' l = (if l \<in> Login ` set us then Some m else in_match w l)) \<and>
         active w' = insert m (active w))"
    and remove_law: "remove m w = (r, w') \<Longrightarrow>
        active w' = active w \<and>
        ((r \<noteq> None \<and> in_match w' = in_match w) \<or>
         (\<forall>l. in_match w' l = (if in_match w l = Some m then None else in_match w l)))"
    and save_law: "save res w = (r, w') \<Longrightarrow>
        in_match w' = in_match w \<and>
        ((r \<noteq> None \<and> active w' = active w) \<or> active w' = active w - {res_MatchID res})"
begin

text \<open>The body of the save loop over these operations.\<close>

definition finish :: "Result \<Rightarrow> 'w proc" where
  "finish res w = (let (_, w1) = remove (res_MatchID res) w in save res w1)"

text \<open>
  Whatever fails, finishing a match puts no user into a match and takes none out of another
  match, and touches the activity of no other match.
\<close>

lemma finish_frame:
  assumes "finish res w = (r, w')"
  shows "in_match w' l = in_match w l \<or> in_match w l = Some (res_MatchID res) \<and> in_match w' l = None"
    and "active w' - {res_MatchID res} = active w - {res_MatchID res}"
    and "r = None \<Longrightarrow> active w' = active w - {res_MatchID res}"
proof -
  obtain r1 w1 where w1: "remove (res_MatchID res) w = (r1, w1)" by fastforce
  with assms have w': "save res w1 = (r, w')" by (simp add: finish_def)
  note laws = remove_law [OF w1] save_law [OF w']
  show "in_match w' l = in_match w l \<or> in_match w l = Some (res_MatchID res) \<and> in_match w' l = None"
    using laws by (metis (no_types))
  show "active w' - {res_MatchID res} = active w - {res_MatchID res}" using laws by auto
  show "r = None \<Longrightarrow> active w' = active w - {res_MatchID res}" using laws by auto
qed

text \<open>
  The round trip of a match: added for players who were in no match, and finished with both
  statements reporting success, it leaves every user in the match he was in before, and the
  match itself not active.
\<close>

lemma add_finish:
  assumes "add us si m w = (None, w1)" and "\<forall>l\<in>Login ` set us. in_match w l = None"
    and "\<forall>l. in_match w l \<noteq> Some m"
    and "res_MatchID res = m" and "remove m w1 = (None, w2)" and "save res w2 = (None, w3)"
  shows "in_match w3 = in_match w" and "active w3 = active w - {m}"
proof -
  have "in_match w3 l = in_match w l" for l
    using add_law [OF assms(1)] remove_law [OF assms(5)] save_law [OF assms(6)] assms(2,3)
    by (cases "l \<in> Login ` set us") auto
  then show "in_match w3 = in_match w" by (rule ext)
  show "active w3 = active w - {m}"
    using add_law [OF assms(1)] remove_law [OF assms(5)] save_law [OF assms(6)] assms(4) by auto
qed

end

abbreviation db_match_of :: "db_world \<Rightarrow> string \<Rightarrow> int option" where
  "db_match_of w \<equiv> match_of (store (snd w))"

abbreviation db_active :: "db_world \<Rightarrow> int set" where
  "db_active w \<equiv> active_matches (store (snd w))"

interpretation records: match_records AddMatch RemoveMatchStatus "SaveMatchResults E"
  db_match_of db_active for E
proof (unfold_locales, goal_cases)
  case (1 us si m w r w')
  obtain c p c' p' where [simp]: "w = (c, p)" "w' = (c', p')" by (cases w, cases w')
  from 1 have "AddMatch us si m (c, p) = (r, c', p')" by simp
  then show ?case
    by (cases rule: AddMatch_cases) (auto simp: match_of_add active_add)
next
  case (2 m w r w')
  obtain c p c' p' where [simp]: "w = (c, p)" "w' = (c', p')" by (cases w, cases w')
  from 2 have "RemoveMatchStatus m (c, p) = (r, c', p')" by simp
  from RemoveMatchStatus_cases [OF this] show ?case by (auto simp: match_of_remove)
next
  case (3 res w r w')
  obtain c p c' p' where [simp]: "w = (c, p)" "w' = (c', p')" by (cases w, cases w')
  from 3 have "SaveMatchResults E res (c, p) = (r, c', p')" by simp
  from SaveMatchResults_cases [OF this] show ?case
    by (auto simp: active_save intro!: ext)
qed


section \<open>The adapter as a part of a larger world\<close>

text \<open>\<open>get\<close> and \<open>put\<close> say where in the world the connection and its server are.\<close>

definition via ::
    "('w \<Rightarrow> db_world) \<Rightarrow> (db_world \<Rightarrow> 'w \<Rightarrow> 'w) \<Rightarrow> (db_world \<Rightarrow> 'a \<times> db_world) \<Rightarrow> 'w \<Rightarrow> 'a \<times> 'w" where
  "via get put f w = (case f (get w) of (r, d) \<Rightarrow> (r, put d w))"

definition lift_database ::
    "('w \<Rightarrow> db_world) \<Rightarrow> (db_world \<Rightarrow> 'w \<Rightarrow> 'w) \<Rightarrow> pg_env \<Rightarrow> 'w DatabaseConnection_ops" where
  "lift_database get put E =
     \<lparr>db_Open = via get put OpenDatabase, db_Close = via get put CloseDatabase,
      db_SetupMatchmaking = via get put SetupMatchmaking,
      db_GatherMatchPlayers = via get put (GatherMatchPlayers E),
      db_GenerateAuthTokens = (\<lambda>us. via get put (GenerateAuthTokens E us)),
      db_GetNextMatchId = via get put GetNextMatchId,
      db_AddMatch = (\<lambda>us si m. via get put (AddMatch us si m)),
      db_RemoveMatchStatus = (\<lambda>m. via get put (RemoveMatchStatus m)),
      db_SaveMatchResults = (\<lambda>res. via get put (SaveMatchResults E res))\<rparr>"

lemma lift_database_sel [simp]:
  "db_Open (lift_database get put E) = via get put OpenDatabase"
  "db_GatherMatchPlayers (lift_database get put E) = via get put (GatherMatchPlayers E)"
  "db_GenerateAuthTokens (lift_database get put E) = (\<lambda>us. via get put (GenerateAuthTokens E us))"
  "db_GetNextMatchId (lift_database get put E) = via get put GetNextMatchId"
  "db_AddMatch (lift_database get put E) = (\<lambda>us si m. via get put (AddMatch us si m))"
  "db_RemoveMatchStatus (lift_database get put E) = (\<lambda>m. via get put (RemoveMatchStatus m))"
  "db_SaveMatchResults (lift_database get put E) = (\<lambda>res. via get put (SaveMatchResults E res))"
  by (simp_all add: lift_database_def)

section \<open>The adapter's methods\<close>

text \<open>A connection that works: open, and no fault ahead.\<close>

definition connected :: "db_world \<Rightarrow> bool" where
  "connected w \<longleftrightarrow> db_guard (fst w) = None \<and> faults (snd w) = []"

lemma connected_exec:
  assumes "faults p = []"
  shows "exec f p = (case f (store p) of Inl e \<Rightarrow> (Inl e, p) | Inr (a, st) \<Rightarrow> (Inr a, p\<lparr>store := st\<rparr>))"
  using assms by (simp add: exec_def next_fault_def)

lemma mset_filter_length: "mset xs = mset ys \<Longrightarrow> length (filter P xs) = length (filter P ys)"
  by (metis mset_filter size_mset)

text \<open>
  C7. \<open>AddMatch\<close> is all or nothing.  Whatever happens to its round trips, either the tables
  are as before and an error is returned, or everything is recorded: a new active match with
  the server's address and no results, every player in that match, out of the queue and with
  the match in his history, and every other user as before.
\<close>

theorem AddMatch_all_or_nothing:
  assumes "AddMatch us si mid (c, p) = (r, c', p')"
  shows "(r \<noteq> None \<and> store p' = store p) \<or>
     (mid \<notin> match_ids (store p) \<and>
      matches (store p') = matches (store p) @
        [\<lparr>m_id = mid, m_host = Host si, m_port = Port si, m_active = True, m_canceled = False,
          m_results = None\<rparr>] \<and>
      user_matches (store p') = user_matches (store p) @ map (\<lambda>u. (Login u, mid)) us \<and>
      length (users (store p')) = length (users (store p)) \<and>
      (\<forall>i<length (users (store p)).
         if u_login (users (store p) ! i) \<in> Login ` set us
         then status_of now (users (store p') ! i) = InMatch mid \<and>
              u_queued_until (users (store p') ! i) = None
         else users (store p') ! i = users (store p) ! i))"
  using assms
  by (cases rule: AddMatch_cases) (auto simp: add_match_ok_def add_match_store_def assign_user_def status_of_def)

text \<open>
  C36. \<open>GatherMatchPlayers\<close> succeeds exactly when there are enough waiting users.  Over a
  working connection, with a positive room size and tables in order, it reports
  \<open>ErrDBNotEnoughPlayers\<close> if fewer than \<open>PlayersPerRoom\<close> users wait, and otherwise returns
  exactly that many different users, all of them waiting.  The order in which PostgreSQL
  visits the rows is any permutation of them.
\<close>

theorem GatherMatchPlayers_enough:
  assumes "\<And>us. mset (scan E us) = mset us" and "wf_store (store p)" and "connected (c, p)"
    and "0 < PlayersPerRoom (db_config c)"
    and "GatherMatchPlayers E (c, p) = (r, c', p')"
  shows "if int (length (filter (waiting_user (pg_now p)) (users (store p)))) < PlayersPerRoom (db_config c)
     then r = Inl (Sentinel ErrDBNotEnoughPlayers)
     else \<exists>us. r = Inr us \<and> int (length us) = PlayersPerRoom (db_config c) \<and>
       distinct (map Login us) \<and>
       (\<forall>l\<in>Login ` set us. \<exists>u\<in>set (users (store p)). u_login u = l \<and> status_of (pg_now p) u = Waiting)"
proof -
  let ?k = "PlayersPerRoom (db_config c)" and ?ws = "filter (waiting_user (pg_now p)) (scan E (users (store p)))"
  let ?us = "map (\<lambda>u. \<lparr>Login = u_login u, MatchAuthToken = ''''\<rparr>) (take (nat ?k) ?ws)"
  have len: "length ?ws = length (filter (waiting_user (pg_now p)) (users (store p)))"
    by (rule mset_filter_length) (rule assms(1))
  have r: "r = (if int (length ?us) < ?k then Inl (Sentinel ErrDBNotEnoughPlayers) else Inr ?us)"
    using assms(3-5)
    by (auto simp: GatherMatchPlayers_def connected_def connected_exec sql_gather_def split: if_splits)
  have set_scan: "set (scan E (users (store p))) = set (users (store p))"
    using assms(1) by (metis set_mset_mset)
  have "distinct (map u_login (scan E (users (store p))))"
    using assms(1,2) by (metis wf_store_def mset_map mset_eq_imp_distinct_iff)
  then have "distinct (map u_login (take (nat ?k) ?ws))"
    by (metis distinct_map_filter distinct_take take_map)
  then have d: "distinct (map Login ?us)" by (simp add: comp_def)
  have w: "\<exists>u\<in>set (users (store p)). u_login u = l \<and> status_of (pg_now p) u = Waiting"
    if "l \<in> Login ` set ?us" for l
    using that set_scan by (fastforce simp: status_waiting dest: in_set_takeD)
  show ?thesis
  proof (cases "int (length ?ws) < ?k")
    case True
    then show ?thesis using r len by simp
  next
    case False
    then have "int (length ?us) = ?k" using assms(4) by simp
    with r d w False len show ?thesis by auto
  qed
qed


text \<open>Over a working connection a transaction does all its statements or fails with the first error.\<close>

lemma tx_statements_connected:
  assumes "faults p = []"
  shows "\<exists>r. tx_statements fs st p = (r, p) \<and>
     (case run_statements fs st of Some st' \<Rightarrow> r = Inr st' | None \<Rightarrow> \<exists>e. r = Inl e)"
  using assms
proof (induction fs arbitrary: st)
  case Nil
  then show ?case by simp
next
  case (Cons f fs)
  then have x: "tx_exec f st p = (f st, p)" by (simp add: tx_exec_def next_fault_def)
  show ?case
  proof (cases "f st")
    case (Inl e)
    then show ?thesis by (simp add: x)
  next
    case (Inr y)
    then show ?thesis using Cons by (cases y) (simp add: x)
  qed
qed

lemma transaction_connected:
  assumes "faults p = []"
  shows "case run_statements fs (store p) of
     Some st \<Rightarrow> transaction fs p = (None, p\<lparr>store := st\<rparr>)
   | None \<Rightarrow> \<exists>e. transaction fs p = (Some e, p)"
  using tx_statements_connected [OF assms, of fs "store p"] assms
  by (auto simp: transaction_def tx_begin_def tx_commit_def tx_rollback_def next_fault_def split: option.splits)

text \<open>
  C37. When \<open>AddMatch\<close> succeeds.  Over a working connection it succeeds if and only if the
  match ID is a new one in the range of the column and the players are different registered
  users.  Whether the players still wait in the queue when the match is added is not among
  the conditions: a user who left the queue after \<open>GatherMatchPlayers\<close> is put into the match.
\<close>

theorem AddMatch_succeeds_iff:
  assumes "connected (c, p)" and "wf_store (store p)" and "AddMatch us si mid (c, p) = (r, c', p')"
  shows "r = None \<longleftrightarrow>
    int4 mid \<and> mid \<notin> match_ids (store p) \<and> distinct (map Login us) \<and> Login ` set us \<subseteq> logins (store p)"
proof -
  let ?fs = "[sql_insert_match mid (Host si) (Port si), sql_insert_user_matches (map Login us) mid,
      sql_assign_users mid (map Login us)]"
  have t: "transaction ?fs p = (r, p')"
    using assms(1,3) by (auto simp: AddMatch_def connected_def Let_def split: prod.splits)
  have "r = None \<longleftrightarrow> (\<exists>st. run_statements ?fs (store p) = Some st)"
    using transaction_connected [of p ?fs] assms(1) t
    by (cases "run_statements ?fs (store p)") (auto simp: connected_def)
  also have "\<dots> \<longleftrightarrow> add_match_ok us mid (store p)"
    unfolding run_add_match by blast
  also have "\<dots> \<longleftrightarrow> int4 mid \<and> mid \<notin> match_ids (store p) \<and> distinct (map Login us) \<and>
      Login ` set us \<subseteq> logins (store p)"
    using assms(2) by (auto simp: add_match_ok_def wf_store_def)
  finally show ?thesis .
qed

text \<open>
  \<open>SetupMatchmaking\<close> leaves nothing of a previous run.  When it reports success, no user
  is in a match, waits in the queue or holds a token; no match is active; the matches that
  were active are recorded as canceled, and the others as they were.
\<close>

theorem SetupMatchmaking_resets:
  assumes "SetupMatchmaking (c, p) = (None, c', p')"
  shows "(\<forall>u\<in>set (users (store p')). status_of now u = Inactive \<and> u_match_auth_token u = None) \<and>
     active_matches (store p') = {} \<and>
     map u_login (users (store p')) = map u_login (users (store p)) \<and>
     matches (store p') = map (\<lambda>m. if m_active m
        then m\<lparr>m_active := False, m_canceled := True, m_results := Some ''{}''\<rparr> else m) (matches (store p))"
  using SetupMatchmaking_cases [OF assms]
  by (auto simp: setup_store_def active_matches_def cancel_match_def)

text \<open>
  C29. The tables stay in order.  From an empty database, through any sequence of calls of the
  adapter by any number of connections with any faults, and of the API's registrations and
  queue updates: logins, match IDs and history rows are unique, every reference resolves, a
  user's current match is in his history, and the sequence is ahead of every match ID.
\<close>

theorem tables_integrity:
  assumes "db_reachable E p"
  shows "wf_store (store p)"
  using assms by (rule db_reachable_wf)

text \<open>
  C38. A finished match stays finished: no call of the adapter, however it fails, removes a
  match or makes it active again once it has ended.
\<close>

theorem finished_forever:
  assumes "(db_step E)\<^sup>*\<^sup>* p p'" and "finished (store p) mid"
  shows "finished (store p') mid"
  using assms by (rule db_steps_finished)

section \<open>The save loop on the adapter\<close>

lemma RemoveMatchStatus_connected:
  "connected (c, p) \<Longrightarrow>
   RemoveMatchStatus mid (c, p) = (None, c, p\<lparr>store := remove_store mid (store p)\<rparr>)"
  by (simp add: RemoveMatchStatus_def connected_def connected_exec sql_remove_match_status_def remove_store_def)

lemma SaveMatchResults_connected:
  assumes "connected (c, p)" and "int4 (res_MatchID res)" and "jsonb_ok E (Details res)"
  shows "snd (SaveMatchResults E res (c, p)) = (c, p\<lparr>store := save_store res (store p)\<rparr>)"
    and "res_MatchID res \<in> match_ids (store p) \<Longrightarrow> fst (SaveMatchResults E res (c, p)) = None"
proof -
  note d = SaveMatchResults_def connected_exec sql_save_results_def save_store_def
  show "snd (SaveMatchResults E res (c, p)) = (c, p\<lparr>store := save_store res (store p)\<rparr>)"
    using assms by (simp add: d connected_def)
  assume "res_MatchID res \<in> match_ids (store p)"
  then have "filter (\<lambda>m. m_id m = res_MatchID res) (matches (store p)) \<noteq> []"
    by (auto simp: filter_empty_conv)
  with assms show "fst (SaveMatchResults E res (c, p)) = None" by (simp add: d connected_def)
qed

lemma connected_store [simp]: "connected (c, p\<lparr>store := st\<rparr>) = connected (c, p)"
  by (simp add: connected_def)

text \<open>
  C20. The body of the save loop ends a match.  Over a working connection, for a recorded
  match with details that PostgreSQL accepts, it succeeds, every user of that match leaves
  it and can queue again, the match is inactive with its outcome stored, and every other
  user and match is as before.
\<close>

theorem saveLoop_body_ends_match:
  assumes "dbConn wm = database_ops E" and "connected (c, p)" and "int4 (res_MatchID res)"
    and "res_MatchID res \<in> match_ids (store p)" and "jsonb_ok E (Details res)"
    and "saveLoop_body res wm (c, p) = (r, c', p')"
  shows "r = None \<and>
     users (store p') = map (\<lambda>u. if u_match_id u = Some (res_MatchID res)
        then u\<lparr>u_match_id := None, u_queued_until := None, u_match_auth_token := None\<rparr> else u)
        (users (store p)) \<and>
     matches (store p') = map (\<lambda>m. if m_id m = res_MatchID res
        then m\<lparr>m_results := json_column (Details res), m_canceled := \<not> Success res, m_active := False\<rparr>
        else m) (matches (store p))"
proof -
  let ?p1 = "p\<lparr>store := remove_store (res_MatchID res) (store p)\<rparr>"
  have c: "connected (c, ?p1)" and m: "res_MatchID res \<in> match_ids (store ?p1)"
    using assms(2,4) by (simp_all add: remove_store_def)
  from SaveMatchResults_connected(1) [OF c assms(3,5)] SaveMatchResults_connected(2) [OF c assms(3,5) m]
  have "SaveMatchResults E res (c, ?p1) = (None, c, ?p1\<lparr>store := save_store res (store ?p1)\<rparr>)"
    by (simp add: prod_eq_iff)
  with RemoveMatchStatus_connected [OF assms(2), of "res_MatchID res"]
  have "r = None" and "store p' = save_store res (remove_store (res_MatchID res) (store p))"
    using assms(1,6) by (auto simp: saveLoop_body_def database_ops_def)
  then show ?thesis
    by (simp add: save_store_def remove_store_def release_user_def save_match_def)
qed


lemma saveLoop_body_finish:
  "dbConn wm = database_ops E \<Longrightarrow> saveLoop_body res wm = records.finish E res"
  by (rule ext) (simp add: saveLoop_body_def records.finish_def database_ops_def)

text \<open>
  Failures of the save loop are contained.  Whatever fails in the body of the save loop,
  a user's match changes only from the finished match to none, the activity of the other
  matches does not change, and the finished match is inactive if the body reports success.
\<close>

theorem saveLoop_body_contained:
  assumes "dbConn wm = database_ops E" and "saveLoop_body res wm w = (r, w')"
  shows "(db_match_of w' l = db_match_of w l \<or>
       db_match_of w l = Some (res_MatchID res) \<and> db_match_of w' l = None) \<and>
     db_active w' - {res_MatchID res} = db_active w - {res_MatchID res} \<and>
     (r = None \<longrightarrow> res_MatchID res \<notin> db_active w')"
  using records.finish_frame [OF assms(2) [unfolded saveLoop_body_finish [OF assms(1)]]] by blast

end
