(* ===== verification/Matchmaker_Props.thy ===== *)
theory Matchmaker_Props
  imports Matchmaker ManagerSystem_Props Match_Records
begin

text \<open>
  The matchmaker's operations: when polling for players ends, what creating a match leaves
  behind on each branch, over a contract of the two components it uses, as a locale,
  interpreted on the worker manager next to the database adapter.
\<close>

section \<open>Polling for players\<close>

text \<open>The world after \<open>k\<close> polls, if each of them found too few players.\<close>

fun short_polls :: "('w \<Rightarrow> select_outcome \<times> 'w) \<Rightarrow> 'w Matchmaker \<Rightarrow> nat \<Rightarrow> 'w \<Rightarrow> 'w option" where
  "short_polls select m 0 w = Some w"
| "short_polls select m (Suc k) w =
     (case select w of
        (CtxDone e, w1) \<Rightarrow> None
      | (Ticked, w1) \<Rightarrow>
     (case db_GatherMatchPlayers (mm_db m) w1 of
        (Inr us, w2) \<Rightarrow> None
      | (Inl e, w2) \<Rightarrow>
          if errors_is e ErrDBNotEnoughPlayers then short_polls select m k w2 else None))"

lemma waitForEnoughPlayers_returns_polls:
  assumes "waitForEnoughPlayers select m w = Some y"
  shows "\<exists>k. short_polls select m k w = None"
proof (rule waitForEnoughPlayers.raw_induct
    [where P = "\<lambda>select m w y. \<exists>k. short_polls select m k w = None", OF _ assms], goal_cases)
  case (1 f select m w y)
  obtain o1 w1 where s: "select w = (o1, w1)" by fastforce
  show ?case
  proof (cases o1)
    case (CtxDone e)
    with s show ?thesis by (intro exI [of _ "Suc 0"]) simp
  next
    case Ticked
    obtain r w2 where g: "db_GatherMatchPlayers (mm_db m) w1 = (r, w2)" by fastforce
    show ?thesis
    proof (cases "\<exists>e. r = Inl e \<and> errors_is e ErrDBNotEnoughPlayers")
      case False
      with s g Ticked show ?thesis
        by (intro exI [of _ "Suc 0"]) (auto split: sum.splits)
    next
      case True
      then obtain e where e: "r = Inl e" "errors_is e ErrDBNotEnoughPlayers" by blast
      with 1(2) s g Ticked have "f select m w2 = Some y" by simp
      from 1(1) [OF this] obtain k where "short_polls select m k w2 = None" by blast
      with s g Ticked e show ?thesis by (intro exI [of _ "Suc k"]) simp
    qed
  qed
qed

lemma short_polls_None_returns:
  "short_polls select m k w = None \<Longrightarrow> \<exists>y. waitForEnoughPlayers select m w = Some y"
proof (induction select m k w rule: short_polls.induct)
  case (1 select m w)
  then show ?case by simp
next
  case (2 select m k w)
  then show ?case
    by (subst waitForEnoughPlayers.simps)
      (auto split: prod.splits select_outcome.splits sum.splits if_splits)
qed


text \<open>
  The players found are those of the last poll.  If \<open>k\<close> polls are short of players and the
  next one gathers \<open>us\<close>, then \<open>waitForEnoughPlayers\<close> returns \<open>us\<close>, in the state that poll left.
\<close>

theorem waitForEnoughPlayers_result:
  assumes "short_polls select m k w = Some w1" and "select w1 = (Ticked, w2)"
    and "db_GatherMatchPlayers (mm_db m) w2 = (Inr us, w3)"
  shows "waitForEnoughPlayers select m w = Some (Inr us, w3)"
proof -
  have last: "waitForEnoughPlayers select m w1 = Some (Inr us, w3)"
    using assms(2,3) by (subst waitForEnoughPlayers.simps) simp
  from assms(1) have "waitForEnoughPlayers select m w = waitForEnoughPlayers select m w1"
  proof (induction select m k w rule: short_polls.induct)
    case (1 select m w)
    then show ?case by simp
  next
    case (2 select m k w)
    then show ?case
      by (subst waitForEnoughPlayers.simps)
        (auto split: prod.splits select_outcome.splits sum.splits if_splits)
  qed
  with last show ?thesis by simp
qed


section \<open>Creating a match\<close>

text \<open>
  What \<open>createMatch\<close> relies on, on top of the contract of the database: the effect of
  \<open>AssignMatch\<close> on the running matches, and that each of the three calls leaves the other
  components' part of the world alone.
\<close>

locale match_creation =
  match_records "db_AddMatch (mm_db m)" remove save in_match active
  for m :: "'w Matchmaker" and remove :: "int \<Rightarrow> 'w proc" and save :: "Result \<Rightarrow> 'w proc"
    and in_match :: "'w \<Rightarrow> string \<Rightarrow> int option" and active :: "'w \<Rightarrow> int set" +
  fixes running :: "'w \<Rightarrow> int set"
  assumes next_frame: "db_GetNextMatchId (mm_db m) w = (q, w') \<Longrightarrow>
        running w' = running w \<and> in_match w' = in_match w \<and> active w' = active w"
    and assign_frame: "wm_AssignMatch (workerManager m) cfg w = (a, w') \<Longrightarrow>
        in_match w' = in_match w \<and> active w' = active w"
    and assign_fails: "wm_AssignMatch (workerManager m) cfg w = (Inl e, w') \<Longrightarrow> running w' = running w"
    and assign_runs: "wm_AssignMatch (workerManager m) cfg w = (Inr si, w') \<Longrightarrow>
        running w' = insert (cfg_MatchID cfg) (running w)"
    and add_frame: "db_AddMatch (mm_db m) us si mid w = (r, w') \<Longrightarrow> running w' = running w"
begin

text \<open>Either the match never started, or it runs and only its record can be missing.\<close>

lemma createMatch_outcome:
  assumes "createMatch enc m us w = ((mid, r), w')"
  obtains (not_started) e where "r = Some e" and "mid = 0" and "running w' = running w"
      and "in_match w' = in_match w" and "active w' = active w"
  | (not_recorded) e where "r = Some e" and "running w' = insert mid (running w)"
      and "in_match w' = in_match w" and "active w' = active w"
  | (recorded) "running w' = insert mid (running w)"
      and "\<forall>l. in_match w' l = (if l \<in> Login ` set us then Some mid else in_match w l)"
      and "active w' = insert mid (active w)"
proof (cases "enc us")
  case (Inl e)
  with assms show thesis by (intro not_started) (auto simp: createMatch_def)
next
  case (Inr c)
  obtain q w1 where q: "db_GetNextMatchId (mm_db m) w = (q, w1)" by fastforce
  note f1 = next_frame [OF q]
  show thesis
  proof (cases q)
    case (Inl e)
    with assms Inr q f1 show thesis by (intro not_started) (auto simp: createMatch_def)
  next
    case (Inr i)
    obtain a w2 where a: "wm_AssignMatch (workerManager m) \<lparr>cfg_MatchID = i, Config = c\<rparr> w1 = (a, w2)"
      by fastforce
    note f2 = assign_frame [OF a]
    show thesis
    proof (cases a)
      case (Inl e)
      from assign_fails [OF a [unfolded Inl]] have "running w2 = running w1" .
      with assms \<open>enc us = Inr c\<close> Inr q a Inl f1 f2 show thesis
        by (intro not_started) (auto simp: createMatch_def)
    next
      case (Inr si)
      from assign_runs [OF a [unfolded Inr]] have run: "running w2 = insert i (running w1)" by simp
      obtain x w3 where x: "db_AddMatch (mm_db m) us si i w2 = (x, w3)" by fastforce
      with assms \<open>enc us = Inr c\<close> \<open>q = Inr i\<close> q a Inr have eq: "mid = i" "r = x" "w' = w3"
        by (auto simp: createMatch_def)
      from add_law [OF x] add_frame [OF x] run f1 f2 eq show thesis
        by (elim disjE conjE) (auto intro: not_recorded recorded)
    qed
  qed
qed

end

text \<open>
  The matchmaker next to the worker manager and the database: the manager with the
  containers and the broker \<open>'c\<close> behind it, and the matchmaker's own database connection.
\<close>

type_synonym 'c composed = "'c WorkerManager \<times> 'c \<times> db_world"

definition composed_matchmaker ::
    "('c composed \<Rightarrow> 'c composed) \<Rightarrow> pg_env \<Rightarrow> EnvConfig \<Rightarrow> 'c composed Matchmaker" where
  "composed_matchmaker wait E cfg =
     NewMatchmaker
       \<lparr>wm_WaitForFreeWorker = wait,
        wm_AssignMatch = (\<lambda>mc (wm, c, d). case AssignMatch mc wm c of (r, wm', c') \<Rightarrow> (r, wm', c', d))\<rparr>
       (lift_database (snd \<circ> snd) (\<lambda>d (wm, c, _). (wm, c, d)) E) cfg"

lemma composed_sel [simp]:
  "mm_db (composed_matchmaker wait E cfg) = lift_database (snd \<circ> snd) (\<lambda>d (wm, c, _). (wm, c, d)) E"
  "wm_AssignMatch (workerManager (composed_matchmaker wait E cfg)) mc (wm, c, d) =
     (case AssignMatch mc wm c of (r, wm', c') \<Rightarrow> (r, wm', c', d))"
  by (simp_all add: composed_matchmaker_def NewMatchmaker_def)

lemma via_composed [simp]:
  "via (snd \<circ> snd) (\<lambda>d (wm, c, _). (wm, c, d)) f (wm, c, d) = (case f d of (r, d') \<Rightarrow> (r, wm, c, d'))"
  by (simp add: via_def)

interpretation creation: match_creation "composed_matchmaker wait E cfg"
  "db_RemoveMatchStatus (lift_database (snd \<circ> snd) (\<lambda>d (wm, c, _). (wm, c, d)) E)"
  "db_SaveMatchResults (lift_database (snd \<circ> snd) (\<lambda>d (wm, c, _). (wm, c, d)) E)"
  "\<lambda>(wm, c, d). db_match_of d" "\<lambda>(wm, c, d). db_active d" "\<lambda>(wm, c, d). running_matches wm"
  for wait :: "'c composed \<Rightarrow> 'c composed" and E cfg
proof (unfold_locales, goal_cases)
  case (1 us si mid w r w')
  obtain wm c d where w: "w = (wm, c, d)" by (cases w)
  obtain r' d' where x: "AddMatch us si mid d = (r', d')" by (metis surj_pair)
  from 1 w x have "w' = (wm, c, d')" "r = r'" by auto
  with records.add_law [OF x] w show ?case by auto
next
  case (2 mid w r w')
  obtain wm c d where w: "w = (wm, c, d)" by (cases w)
  obtain r' d' where x: "RemoveMatchStatus mid d = (r', d')" by (metis surj_pair)
  from 2 w x have "w' = (wm, c, d')" "r = r'" by auto
  with records.remove_law [OF x] w show ?case by auto
next
  case (3 res w r w')
  obtain wm c d where w: "w = (wm, c, d)" by (cases w)
  obtain r' d' where x: "SaveMatchResults E res d = (r', d')" by (metis surj_pair)
  from 3 w x have "w' = (wm, c, d')" "r = r'" by auto
  with records.save_law [OF x] w show ?case by auto
next
  case (4 w q w')
  obtain wm c cn p where w: "w = (wm, c, cn, p)" by (cases w) auto
  obtain r cn' p' where g: "GetNextMatchId (cn, p) = (r, cn', p')" by (cases "GetNextMatchId (cn, p)") auto
  from GetNextMatchId_cases [OF g] have "match_of (store p') = match_of (store p) \<and>
      active_matches (store p') = active_matches (store p)"
    by (auto simp: match_of_def active_matches_def)
  moreover from 4 w g have "w' = (wm, c, cn', p')" by auto
  ultimately show ?case by (simp add: w)
next
  case (5 mc w a w')
  then show ?case by (cases w) (auto split: prod.splits)
next
  case (6 mc w e w')
  then show ?case by (cases w) (auto dest: mgr.assign_fails split: prod.splits)
next
  case (7 mc w si w')
  then show ?case by (cases w) (auto dest: mgr.assign_succeeds split: prod.splits)
next
  case (8 us si mid w r w')
  then show ?case by (cases w) (auto split: prod.splits)
qed


text \<open>
  C4. A created match is consistent across the components.  When \<open>createMatch\<close> reports
  success, exactly one more match runs, the one whose ID it returns; the database has it as
  active, and exactly the given players are in it.
\<close>

theorem createMatch_success:
  assumes "createMatch enc (composed_matchmaker wait E cfg) us (wm, c, d) = ((mid, None), (wm', c', d'))"
  shows "running_matches wm' = insert mid (running_matches wm) \<and>
     db_active d' = insert mid (db_active d) \<and>
     (\<forall>l. db_match_of d' l = (if l \<in> Login ` set us then Some mid else db_match_of d l))"
  using assms by (cases rule: creation.createMatch_outcome) simp_all

text \<open>
  C19. What a failed \<open>createMatch\<close> leaves behind.  Either no match was started and nothing is
  recorded, and the returned ID is 0; or the match runs on a worker, and the database has
  recorded all of it or nothing.  In the last case its players are free to be matched again
  while the game waits for them, as the comment in \<open>createMatch\<close> says.
\<close>

theorem createMatch_failure:
  assumes "createMatch enc (composed_matchmaker wait E cfg) us (wm, c, d) = ((mid, Some e), (wm', c', d'))"
  shows "(mid = 0 \<and> running_matches wm' = running_matches wm \<and>
          db_match_of d' = db_match_of d \<and> db_active d' = db_active d) \<or>
     (running_matches wm' = insert mid (running_matches wm) \<and>
        (db_match_of d' = db_match_of d \<and> db_active d' = db_active d \<or>
         (\<forall>l. db_match_of d' l = (if l \<in> Login ` set us then Some mid else db_match_of d l)) \<and>
           db_active d' = insert mid (db_active d)))"
  using assms by (cases rule: creation.createMatch_outcome) simp_all

end
