(* ===== verification/Deployment.thy ===== *)
theory Deployment
  imports System_Runs Matchmaker_Props
begin

text \<open>
  A whole deployment: the worker manager and the matchmaker of the server-manager, each
  with a database connection of its own to one PostgreSQL server (\<open>app/run.go\<close> gives both
  the same configuration and nothing else to share), next to a broker's result stream and
  the set of workers that answer pings.  The database side is the adapter of theory
  \<open>Database\<close>; the containers and the broker are a small scripted instance, used for runs
  that show what can happen.
\<close>

section \<open>The world\<close>

record deployment =
  wm_conn :: DatabaseConnection
  mm_conn :: DatabaseConnection
  server :: pg
  stream :: "bytes list"
  alive :: Responders

definition get_wm :: "deployment \<Rightarrow> db_world" where
  "get_wm d = (wm_conn d, server d)"

definition put_wm :: "db_world \<Rightarrow> deployment \<Rightarrow> deployment" where
  "put_wm w d = d\<lparr>wm_conn := fst w, server := snd w\<rparr>"

definition get_mm :: "deployment \<Rightarrow> db_world" where
  "get_mm d = (mm_conn d, server d)"

definition put_mm :: "db_world \<Rightarrow> deployment \<Rightarrow> deployment" where
  "put_mm w d = d\<lparr>mm_conn := fst w, server := snd w\<rparr>"

section \<open>A scripted instance\<close>

text \<open>
  Containers that always start and restart, and a broker that delivers its stream in order.
  A message is the decimal digit of the match it ends.
\<close>

definition script_docker :: "'w DockerConnection_ops" where
  "script_docker =
     \<lparr>docker_Open = (\<lambda>cfg d. (None, d)), docker_Close = (\<lambda>d. (None, d)),
      docker_SpawnContainer = (\<lambda>i d. (Inr (''c'' @ i), d)),
      docker_RestartContainer = (\<lambda>c d. (None, d)), docker_RemoveContainer = (\<lambda>c d. (None, d)),
      docker_GetGamePort = (\<lambda>c d. (Inr ''40001'', d)), docker_RemoveZombieWorkers = (\<lambda>d. (None, d))\<rparr>"

definition script_broker :: "deployment BrokerConnection_ops" where
  "script_broker =
     \<lparr>broker_Open = (\<lambda>cfg d. (None, d)), broker_Close = (\<lambda>d. (None, d)),
      broker_AssignJob = (\<lambda>i cfg d. (None, d)),
      broker_GetResult = (\<lambda>d. case stream d of
           [] \<Rightarrow> (Inl (Sentinel DeadlineExceeded), d)
         | b # bs \<Rightarrow> (Inr \<lparr>Data = b, Ack = (\<lambda>d. (None, d))\<rparr>, d\<lparr>stream := bs\<rparr>)),
      broker_GetWorkersPong = (\<lambda>t d. (Inr (alive d), d))\<rparr>"

definition script_unmarshal :: "bytes \<Rightarrow> go_error + Result" where
  "script_unmarshal b =
     (case b of
        [c] \<Rightarrow> Inr \<lparr>Success = True, res_MatchID = int (digit_val c), Details = ''{}''\<rparr>
      | _ \<Rightarrow> Inl (External ''invalid character''))"

definition script_pg :: pg_env where
  "script_pg = \<lparr>scan = (\<lambda>us. us), gen_random = (\<lambda>d l. l @ ''-token''), jsonb_ok = (\<lambda>b. b = ''{}'')\<rparr>"

text \<open>The outside world may extend the stream, stop or resume answering pings, and queue users.\<close>

definition script_env :: "deployment sys_env" where
  "script_env =
     \<lparr>rt = \<lparr>time_Now = (\<lambda>d. (1, d)), ctx_Err = (\<lambda>d. None)\<rparr>,
      unmarshal = script_unmarshal, marshal = (\<lambda>us. Inr (concat (map Login us))),
      mdb = lift_database get_mm put_mm script_pg,
      env = (\<lambda>d d'. wm_conn d' = wm_conn d \<and> mm_conn d' = mm_conn d)\<rparr>"

definition script_config :: EnvConfig where
  "script_config =
     \<lparr>Image = ''game'', Workercount = 1, ExposePorts = {}, ClientPort = ''7777/tcp'',
      BrokerURI = ''nats://nats'', BrokerNetworkName = ''net'', PublicHost = ''localhost'',
      DatabaseURI = ''postgres://db'', PlayersPerRoom = 1, LogLevel = 0, GameServerLogLevel = 0,
      TestMakeContainerDummy = False\<rparr>"

text \<open>One user, waiting in the queue; the matchmaker's connection is already open.\<close>

definition script_world :: deployment where
  "script_world =
     \<lparr>wm_conn = NewDatabaseConnection script_config,
      mm_conn = (NewDatabaseConnection script_config)\<lparr>conn := True, connOpened := True\<rparr>,
      server = \<lparr>store = \<lparr>users = [\<lparr>u_login = ''ann'', u_match_id = None, u_match_auth_token = None,
                                   u_queued_until = Some 100\<rparr>],
                       matches = [], user_matches = [], matches_id_seq = 0\<rparr>,
                faults = [], pg_now = 1, draws = 0\<rparr>,
      stream = [], alive = {''0''}\<rparr>"

definition script_start :: "deployment sys" where
  "script_start =
     (let (_, wm, w) = Start (NewWorkerManager script_docker script_broker
                         (lift_database get_wm put_wm script_pg) script_config) script_world
      in \<lparr>mgr = wm, world = w, mu = Unlocked, rpc = R_Poll, spc = S_Recv, hpc = H_Wait, mpc = M_Wait,
          ctx = None, after_func = False, drawn = [], assigned = [], handed = [], processed = []\<rparr>)"

end
