(* ===== verification/Scenarios.thy ===== *)
theory Scenarios
  imports Deployment
begin

text \<open>
  Concrete schedules of the scripted deployment, evaluated: runs in which the hypotheses of
  the system's properties hold, and two runs that show what the code allows although it
  does not mean to.
\<close>

section \<open>Evaluating a schedule\<close>

lemma script_docker_sel [simp]:
  "docker_Open script_docker = (\<lambda>cfg d. (None, d))"
  "docker_SpawnContainer script_docker = (\<lambda>i d. (Inr (''c'' @ i), d))"
  "docker_RestartContainer script_docker = (\<lambda>c d. (None, d))"
  "docker_GetGamePort script_docker = (\<lambda>c d. (Inr ''40001'', d))"
  "docker_RemoveZombieWorkers script_docker = (\<lambda>d. (None, d))"
  by (simp_all add: script_docker_def)

lemma script_broker_sel [simp]:
  "broker_Open script_broker = (\<lambda>cfg d. (None, d))"
  "broker_AssignJob script_broker = (\<lambda>i cfg d. (None, d))"
  "broker_GetWorkersPong script_broker = (\<lambda>t d. (Inr (alive d), d))"
  "stream d = b # bs \<Longrightarrow>
     broker_GetResult script_broker d = (Inr \<lparr>Data = b, Ack = (\<lambda>d. (None, d))\<rparr>, d\<lparr>stream := bs\<rparr>)"
  by (simp_all add: script_broker_def)

lemma script_env_sel [simp]:
  "time_Now (rt script_env) = (\<lambda>d. (1, d))"
  "unmarshal script_env = script_unmarshal" "marshal script_env = (\<lambda>us. Inr (concat (map Login us)))"
  "mdb script_env = lift_database get_mm put_mm script_pg"
  by (simp_all add: script_env_def)

lemma script_pg_sel [simp]:
  "scan script_pg = (\<lambda>us. us)" "gen_random script_pg = (\<lambda>d l. l @ ''-token'')"
  "jsonb_ok script_pg = (\<lambda>b. b = ''{}'')"
  by (simp_all add: script_pg_def)

lemma script_config_sel [simp]: "Workercount script_config = 1" "PlayersPerRoom script_config = 1"
  "PublicHost script_config = ''localhost''"
  by (simp_all add: script_config_def)

lemma Itoa0 [simp]: "Itoa 0 = ''0''" by code_simp
lemma digits [simp]: "digit_val (CHR ''0'') = 0" "digit_val (CHR ''1'') = 1" by code_simp+
lemma int41 [simp]: "int4 1" by (simp add: int4_def)
lemma wrap_small: "0 \<le> i \<Longrightarrow> i < 1000 \<Longrightarrow> wrap64 i = i" by (intro wrap64_id) simp_all

lemmas eval_sys = act.simps result_act_def save_act_def health_act_def match_act_def
lemmas eval_mgr =
  WaitForFreeWorker_turn_def getFreeWorker_def AssignMatch_def upd_worker_def SetOccupied_def
  handleResults_fetch_def chan_send_def handleResults_free_def getWorkerByMatchID_def SetFree_def
  signal_free_def Signal_def chan_recv_def healthCheck_worker_def HandlePong_def IsHealthy_def
  isStateValid_def IsZero_def Before_def SetRestarting_def restartWorker_finish_def leave_wg_def
  join_wg_def cancel_result_def wrap_small
lemmas eval_db =
  via_def get_mm_def put_mm_def get_wm_def put_wm_def GatherMatchPlayers_def db_guard_def exec_def
  next_fault_def sql_gather_def waiting_user_def GenerateAuthTokens_def sql_generate_tokens_def
  GetNextMatchId_def sql_nextval_def AddMatch_def transaction_def tx_begin_def tx_exec_def
  tx_commit_def tx_rollback_def sql_insert_match_def sql_assign_users_def assign_user_def
  RemoveMatchStatus_def sql_remove_match_status_def SaveMatchResults_def sql_save_results_def
  save_match_def release_user_def json_column_def OpenDatabase_def
lemmas eval_start =
  script_start_def script_world_def NewDatabaseConnection_def NewWorkerManager_def NewWorker_def
  seconds_def zero_time_def Start_def
lemmas eval = eval_sys eval_mgr eval_db eval_start script_unmarshal_def Let_def

lemma script_initial: "initial script_start"
proof -
  let ?S = "Start (NewWorkerManager script_docker script_broker
      (lift_database get_wm put_wm script_pg) script_config) script_world"
  obtain r wm w where s: "?S = (r, wm, w)" by (cases ?S) auto
  have "fst ?S = None" by (simp add: eval)
  with s have r: "r = None" by simp
  from s have st: "script_start = \<lparr>mgr = wm, world = w, mu = Unlocked, rpc = R_Poll, spc = S_Recv,
      hpc = H_Wait, mpc = M_Wait, ctx = None, after_func = False, drawn = [], assigned = [],
      handed = [], processed = []\<rparr>"
    unfolding script_start_def s by simp
  show ?thesis
    unfolding initial_def
  proof (intro conjI exI)
    show "Start (NewWorkerManager script_docker script_broker (lift_database get_wm put_wm script_pg)
        script_config) script_world = (None, mgr script_start, world script_start)"
      by (simp add: s st r)
  qed (simp_all add: st)
qed

lemma script_run:
  assumes "case schedule script_env as script_start of None \<Rightarrow> False | Some t \<Rightarrow> P t"
    and "list_all (allowed script_env) as" and "length as \<le> 100"
  obtains n t where "reach script_env n t" and "n \<le> 2 ^ 62" and "P t"
proof -
  from assms(1) obtain t where t: "schedule script_env as script_start = Some t" "P t"
    by (auto split: option.splits)
  from schedule_reach [OF t(1) assms(2) reach.start [OF script_initial]]
  have "reach script_env (length as) t" by simp
  moreover have "length as \<le> 2 ^ 62" using assms(3) by simp
  ultimately show thesis using t(2) by (rule that)
qed

lemma allowed_acts [simp]:
  "allowed E ResultAct" "allowed E SaveAct" "allowed E HealthAct" "allowed E MatchAct"
  "allowed E (RestartAct i sid)" "allowed E (RestartFinish i sid)" "allowed E CancelAct" "allowed E WakeAct"
  "allowed script_env (EnvAct (stream_update f))" "allowed script_env (EnvAct (alive_update g))"
  by (simp_all add: allowed_def script_env_def)

section \<open>The schedules\<close>

text \<open>The matchmaker makes a match for the waiting user, up to its recording in the database.\<close>

definition make_match :: "deployment action list" where
  "make_match = [MatchAct, MatchAct, MatchAct, MatchAct, MatchAct, MatchAct]"

definition deliver :: "bytes \<Rightarrow> deployment action list" where
  "deliver b = [EnvAct (stream_update (\<lambda>bs. bs @ [b])), ResultAct, ResultAct, ResultAct]"

definition save_next :: "deployment action list" where
  "save_next = [SaveAct, SaveAct, SaveAct]"

definition health_round :: "deployment action list" where
  "health_round = [HealthAct, HealthAct, HealthAct, HealthAct]"

text \<open>The worker stops answering; the fourth missed ping is one too many.\<close>

definition worker_dies :: "deployment action list" where
  "worker_dies = EnvAct (alive_update (\<lambda>_. {})) # health_round @ health_round @ health_round @ health_round"

lemmas schedules = make_match_def deliver_def save_next_def health_round_def worker_dies_def




section \<open>Witnesses\<close>

theorem match_accounted_witness:
  "\<exists>s :: deployment sys. 1 \<in> set (assigned s) \<and> running_matches (mgr s) = {} \<and>
     (\<exists>res \<in> set (saveResultChan (mgr s)) \<union> set (in_flight (spc s)) \<union> set (processed s).
        res_MatchID res = 1)"
proof -
  let ?P = "\<lambda>s. 1 \<in> set (assigned s) \<and> running_matches (mgr s) = {}"
  obtain n t where t: "reach script_env n t" "n \<le> 2 ^ 62" and "?P t"
    by (rule script_run [of ?P "make_match @ [MatchAct] @ deliver ''1''"])
      (simp_all add: schedules eval running_matches_def)
  with match_accounted [OF t, of 1] show ?thesis by (intro exI [of _ t]) simp
qed

theorem matches_exclusive_witness:
  "\<exists>s :: deployment sys. matches_unique (workers (mgr s)) \<and> running_matches (mgr s) = {1} \<and>
     running_matches (mgr s) \<subseteq> set (assigned s) \<and> distinct (assigned s) \<and> set (assigned s) \<subseteq> set (drawn s)"
proof -
  let ?P = "\<lambda>s. running_matches (mgr s) = {1}"
  obtain n t where t: "reach script_env n t" "n \<le> 2 ^ 62" and "?P t"
    by (rule script_run [of ?P make_match]) (simp_all add: schedules eval running_matches_def Collect_conv_if)
  with matches_exclusive [OF t] show ?thesis by (intro exI [of _ t]) simp
qed

theorem restart_frees_only_restarting_witness:
  "\<exists>(s :: deployment sys) wm'. restartWorker_finish 0 2 (mgr s) = (None, wm') \<and>
     State (workers (mgr s) ! 0) = WorkerRestarting \<and> State (workers wm' ! 0) = WorkerFree \<and>
     running_matches wm' = running_matches (mgr s)"
proof -
  let ?P = "\<lambda>s. RestartLock 0 2 \<in> set (wg (mgr s)) \<and> fst (restartWorker_finish 0 2 (mgr s)) = None"
  obtain n t where t: "reach script_env n t" "n \<le> 2 ^ 62" and P: "?P t"
    by (rule script_run [of ?P "make_match @ [MatchAct] @ worker_dies @ [RestartAct 0 2]"])
      (simp_all add: schedules eval)
  then obtain wm' where f: "restartWorker_finish 0 2 (mgr t) = (None, wm')"
    by (cases "restartWorker_finish 0 2 (mgr t)") auto
  from restart_frees_only_restarting [OF t conjunct1 [OF P] f] f show ?thesis
    by (intro exI [of _ t] exI [of _ wm']) simp
qed


theorem wait_returns_witness:
  "\<exists>s t. mpc s = M_Sleep \<and> getFreeWorker (mgr s) = Some 0 \<and> (mm_step script_env)\<^sup>*\<^sup>* s t \<and> mpc t = M_Check"
proof -
  let ?P = "\<lambda>s. mpc s = M_Sleep \<and> mu s = Unlocked \<and> getFreeWorker (mgr s) = Some 0"
  obtain n s where s: "reach script_env n s" and P: "?P s"
    by (rule script_run [of ?P "make_match @ [MatchAct, MatchAct] @ deliver ''1''"])
      (simp_all add: schedules eval)
  from P have "mpc s = M_Sleep" "mu s = Unlocked" "getFreeWorker (mgr s) \<noteq> None \<or> ctx s \<noteq> None" by simp_all
  from wait_returns [OF s this] obtain t where "(mm_step script_env)\<^sup>*\<^sup>* s t" "mpc t = M_Check"
    by (elim exE conjE)
  with P show ?thesis by (intro exI [of _ s] exI [of _ t]) simp
qed


end
