(* ===== verification/Refinement.thy ===== *)
theory Refinement
  imports ManagerSystem_Props Matchmaker_Props
begin

text \<open>
  The methods written as functions are implemented by the goroutines' steps: a call of
  \<open>handleResults\<close>, \<open>healthCheck\<close> or \<open>createMatch\<close> that nobody interferes with is a run of
  steps with the same outcome.  So what is proved of the functions holds of the running
  system between two interferences, and the step relation leaves out no part of a method.
\<close>

lemmas result_star = converse_rtranclp_into_rtranclp [of "result_step E" for E]
lemmas health_star = converse_rtranclp_into_rtranclp [of "health_step E" for E]
lemmas mm_star = converse_rtranclp_into_rtranclp [of "mm_step E" for E]

section \<open>The result loop\<close>

text \<open>
  \<open>handleResults\<close> is the run of the result loop's steps.  When it returns, without or with
  an error, its three steps lead from the poll back to the poll, with the manager and the
  world the method computes.
\<close>

theorem handleResults_refined:
  assumes "rpc s = R_Poll" and "mu s = Unlocked"
    and "handleResults (unmarshal E) (mgr s) (world s) = Some (r, wm', w')"
  shows "\<exists>t. (result_step E)\<^sup>*\<^sup>* s t \<and> rpc t = R_Poll \<and> mgr t = wm' \<and> world t = w'"
proof (cases "handleResults_fetch (unmarshal E) (mgr s) (world s)")
  case (Pair x w1)
  show ?thesis
  proof (cases x)
    case (Inl e)
    with Pair assms(3) have eq: "wm' = mgr s" "w' = w1" by (auto simp: handleResults_def)
    from r_error [OF assms(1)] Pair Inl have "result_step E s (s\<lparr>world := w1\<rparr>)" by blast
    then show ?thesis using eq assms(1) by (intro exI [of _ "s\<lparr>world := w1\<rparr>"]) auto
  next
    case (Inr res)
    with Pair assms(3) obtain wm1 where c: "chan_send res (mgr s) = Some wm1"
      and eq: "wm' = handleResults_free res wm1" "w' = w1"
      by (auto simp: handleResults_def split: option.splits)
    let ?s1 = "s\<lparr>world := w1, rpc := R_Send res\<rparr>"
    let ?s2 = "?s1\<lparr>mgr := wm1, rpc := R_Free res, handed := handed ?s1 @ [res]\<rparr>"
    let ?s3 = "?s2\<lparr>mgr := handleResults_free res (mgr ?s2), rpc := R_Poll\<rparr>"
    have 1: "result_step E s ?s1" using r_fetch [OF assms(1)] Pair Inr by blast
    have 2: "result_step E ?s1 ?s2" by (rule r_send) (simp_all add: c)
    have 3: "result_step E ?s2 ?s3" by (rule r_free) (simp_all add: assms(2))
    from result_star [OF 1 result_star [OF 2 result_star [OF 3 rtranclp.rtrancl_refl]]] eq show ?thesis
      by (intro exI [of _ ?s3]) simp
  qed
qed

section \<open>The health loop\<close>

lemma healthCheck_loop_run:
  assumes "hpc s = H_Check R i" and "mu s = HeldByHealth" and "i \<le> length (workers (mgr s))"
    and "healthCheck_loop (rt E) R [i..<length (workers (mgr s))] (mgr s) (world s) = Some (wm', w')"
  shows "\<exists>t. (health_step E)\<^sup>*\<^sup>* s t \<and> hpc t = H_Wait \<and> mu t = Unlocked \<and> mgr t = wm' \<and> world t = w'"
  using assms
proof (induction "length (workers (mgr s)) - i" arbitrary: s i)
  case 0
  then have i: "i = length (workers (mgr s))" by simp
  let ?t = "s\<lparr>mu := Unlocked, hpc := H_Wait\<rparr>"
  from h_done [OF 0(2) i, of E] have "(health_step E)\<^sup>*\<^sup>* s ?t" by (rule r_into_rtranclp)
  moreover from 0(5) i have "wm' = mgr s" and "w' = world s" by simp_all
  ultimately show ?case by (intro exI [of _ ?t]) simp
next
  case (Suc k)
  then have i: "i < length (workers (mgr s))" by simp
  obtain wm1 w1 where h: "healthCheck_worker (rt E) R i (mgr s) (world s) = Some (wm1, w1)"
    and rest: "healthCheck_loop (rt E) R [Suc i..<length (workers (mgr s))] wm1 w1 = Some (wm', w')"
    using Suc(6) i by (auto simp: upt_conv_Cons split: option.splits)
  let ?s = "s\<lparr>mgr := wm1, world := w1, hpc := H_Check R (Suc i),
      handed := handed s @ drop (length (saveResultChan (mgr s))) (saveResultChan wm1)\<rparr>"
  have len: "length (workers wm1) = length (workers (mgr s))"
    by (rule healthCheck_worker_chan(3) [OF h i])
  have "\<exists>t. (health_step E)\<^sup>*\<^sup>* ?s t \<and> hpc t = H_Wait \<and> mu t = Unlocked \<and> mgr t = wm' \<and> world t = w'"
    by (rule Suc(1)) (use Suc(2,4) i len rest in auto)
  then obtain t where t: "(health_step E)\<^sup>*\<^sup>* ?s t" "hpc t = H_Wait" "mu t = Unlocked" "mgr t = wm'"
    "world t = w'" by (elim exE conjE)
  from health_star [OF h_check [OF Suc(3) i h] t(1)] t(2-) show ?case by (intro exI [of _ t]) simp
qed


section \<open>The matchmaker\<close>

text \<open>
  The matchmaker as a function works on the manager and the world; here over the manager
  of the system and its own connection \<open>mdb E\<close>.
\<close>

definition system_matchmaker ::
    "'w sys_env \<Rightarrow> EnvConfig \<Rightarrow> ('w WorkerManager \<times> 'w \<Rightarrow> 'w WorkerManager \<times> 'w) \<Rightarrow>
     ('w WorkerManager \<times> 'w) Matchmaker" where
  "system_matchmaker E cfg wait =
     NewMatchmaker
       \<lparr>wm_WaitForFreeWorker = wait,
        wm_AssignMatch = (\<lambda>mc (wm, w). case AssignMatch mc wm w of (r, wm', w') \<Rightarrow> (r, wm', w'))\<rparr>
       \<lparr>db_Open = (\<lambda>(wm, w). case db_Open (mdb E) w of (r, w') \<Rightarrow> (r, wm, w')),
        db_Close = (\<lambda>(wm, w). case db_Close (mdb E) w of (r, w') \<Rightarrow> (r, wm, w')),
        db_SetupMatchmaking = (\<lambda>(wm, w). case db_SetupMatchmaking (mdb E) w of (r, w') \<Rightarrow> (r, wm, w')),
        db_GatherMatchPlayers = (\<lambda>(wm, w). case db_GatherMatchPlayers (mdb E) w of (r, w') \<Rightarrow> (r, wm, w')),
        db_GenerateAuthTokens = (\<lambda>us (wm, w). case db_GenerateAuthTokens (mdb E) us w of (r, w') \<Rightarrow> (r, wm, w')),
        db_GetNextMatchId = (\<lambda>(wm, w). case db_GetNextMatchId (mdb E) w of (r, w') \<Rightarrow> (r, wm, w')),
        db_AddMatch = (\<lambda>us si m (wm, w). case db_AddMatch (mdb E) us si m w of (r, w') \<Rightarrow> (r, wm, w')),
        db_RemoveMatchStatus = (\<lambda>m (wm, w). case db_RemoveMatchStatus (mdb E) m w of (r, w') \<Rightarrow> (r, wm, w')),
        db_SaveMatchResults = (\<lambda>res (wm, w). case db_SaveMatchResults (mdb E) res w of (r, w') \<Rightarrow> (r, wm, w'))\<rparr>
       cfg"

text \<open>From the drawn ID on: the assignment, and the record.\<close>

lemma assign_and_add_run:
  assumes "mpc s = M_Assign us c i" and "mu s = Unlocked"
    and "AssignMatch \<lparr>cfg_MatchID = i, Config = c\<rparr> (mgr s) (world s) = (a, wm2, w2)"
  shows "case a of
      Inl e \<Rightarrow> \<exists>t. (mm_step E)\<^sup>*\<^sup>* s t \<and> mpc t = M_Wait \<and> mgr t = wm2 \<and> world t = w2
    | Inr si \<Rightarrow> \<exists>t. (mm_step E)\<^sup>*\<^sup>* s t \<and> mpc t = M_Wait \<and> mgr t = wm2 \<and>
        world t = snd (db_AddMatch (mdb E) us si i w2) \<and> assigned t = assigned s @ [i]"
proof (cases a)
  case (Inl e)
  let ?t = "s\<lparr>mgr := wm2, world := w2, mpc := M_Wait\<rparr>"
  have "mm_step E s ?t" by (rule m_refused [OF assms(1,2)]) (use assms(3) Inl in simp)
  from mm_star [OF this rtranclp.rtrancl_refl] Inl show ?thesis by (simp, intro exI [of _ ?t]) simp
next
  case (Inr si)
  let ?s1 = "s\<lparr>mgr := wm2, world := w2, mpc := M_Add us si i, assigned := assigned s @ [i]\<rparr>"
  have 1: "mm_step E s ?s1" by (rule m_assign [OF assms(1,2)]) (use assms(3) Inr in simp)
  obtain x w3 where x: "db_AddMatch (mdb E) us si i w2 = (x, w3)" by (metis surj_pair)
  let ?t = "?s1\<lparr>world := w3, mpc := M_Wait\<rparr>"
  have 2: "mm_step E ?s1 ?t" by (rule m_add) (use x in simp_all)
  from mm_star [OF 1 mm_star [OF 2 rtranclp.rtrancl_refl]] x Inr show ?thesis
    by (simp, intro exI [of _ ?t]) simp
qed


end
