(* ===== verification/Instances.thy ===== *)
theory Instances
  imports Deployment Scenarios Refinement
begin

text \<open>
  Concrete instances of the properties of the database adapter, the matchmaker and the
  manager's operations: two users, of whom one waits, and the scripted deployment.
\<close>

section \<open>Two users\<close>

definition ex_user :: "string \<Rightarrow> time option \<Rightarrow> db_user" where
  "ex_user l q = \<lparr>u_login = l, u_match_id = None, u_match_auth_token = None, u_queued_until = q\<rparr>"

definition ex_pg :: pg where
  "ex_pg = \<lparr>store = \<lparr>users = [ex_user ''ann'' (Some 100), ex_user ''bob'' None], matches = [],
                     user_matches = [], matches_id_seq = 1\<rparr>,
            faults = [], pg_now = 1, draws = 0\<rparr>"

definition ex_conn :: DatabaseConnection where
  "ex_conn = (NewDatabaseConnection script_config)\<lparr>conn := True, connOpened := True\<rparr>"

definition ann :: User where
  "ann = \<lparr>Login = ''ann'', MatchAuthToken = ''ann-token''\<rparr>"

definition ex_info :: ServerInfo where
  "ex_info = \<lparr>Host = ''localhost'', Port = ''40001''\<rparr>"

definition ex_result :: Result where
  "ex_result = \<lparr>Success = True, res_MatchID = 1, Details = ''{}''\<rparr>"

lemmas ex_defs = ex_user_def ex_pg_def ex_conn_def ann_def ex_info_def ex_result_def
  NewDatabaseConnection_def

lemma ex_connected: "connected (ex_conn, ex_pg)"
  by (simp add: connected_def ex_defs db_guard_def)

lemma ex_wf: "wf_store (store ex_pg)"
  by (simp add: wf_store_def ex_defs)

definition ex_added :: pg where
  "ex_added = ex_pg\<lparr>store := add_match_store [ann] ex_info 1 (store ex_pg)\<rparr>"

lemma ex_add: "AddMatch [ann] ex_info 1 (ex_conn, ex_pg) = (None, ex_conn, ex_added)"
  by (simp add: ex_added_def ex_defs eval_db add_match_store_def)

theorem AddMatch_all_or_nothing_witness:
  "status_of 1 (users (store ex_added) ! 0) = InMatch 1 \<and> users (store ex_added) ! 1 = users (store ex_pg) ! 1"
proof -
  have "\<forall>i<length (users (store ex_pg)).
         if u_login (users (store ex_pg) ! i) \<in> Login ` set [ann]
         then status_of 1 (users (store ex_added) ! i) = InMatch 1 \<and>
              u_queued_until (users (store ex_added) ! i) = None
         else users (store ex_added) ! i = users (store ex_pg) ! i"
    using AddMatch_all_or_nothing [OF ex_add, of 1] by blast
  from this [rule_format, of 0] this [rule_format, of 1] show ?thesis
    by (simp add: ex_defs)
qed

theorem GatherMatchPlayers_enough_witness:
  "\<exists>us. fst (GatherMatchPlayers script_pg (ex_conn, ex_pg)) = Inr us \<and> length us = 1 \<and> distinct (map Login us)"
proof -
  obtain r c' p' where g: "GatherMatchPlayers script_pg (ex_conn, ex_pg) = (r, c', p')"
    by (metis surj_pair)
  have s: "mset (scan script_pg us) = mset us" for us by simp
  have k: "0 < PlayersPerRoom (db_config ex_conn)" by (simp add: ex_defs)
  have e: "\<not> int (length (filter (waiting_user (pg_now ex_pg)) (users (store ex_pg))))
      < PlayersPerRoom (db_config ex_conn)"
    by (simp add: ex_defs waiting_user_def)
  from GatherMatchPlayers_enough [OF s ex_wf ex_connected k g, unfolded if_not_P [OF e]]
  obtain us where "r = Inr us" "int (length us) = PlayersPerRoom (db_config ex_conn)" "distinct (map Login us)"
    by (elim exE conjE)
  with g show ?thesis by (simp add: ex_defs)
qed

theorem AddMatch_succeeds_iff_witness:
  "fst (AddMatch [ann] ex_info 1 (ex_conn, ex_pg)) = None \<and>
   fst (AddMatch [\<lparr>Login = ''eve'', MatchAuthToken = ''''\<rparr>] ex_info 1 (ex_conn, ex_pg)) \<noteq> None"
proof -
  obtain r c' p' where a: "AddMatch [ann] ex_info 1 (ex_conn, ex_pg) = (r, c', p')" by (metis surj_pair)
  obtain r2 c2 p2 where b: "AddMatch [\<lparr>Login = ''eve'', MatchAuthToken = ''''\<rparr>] ex_info 1 (ex_conn, ex_pg)
      = (r2, c2, p2)" by (metis surj_pair)
  from AddMatch_succeeds_iff [OF ex_connected ex_wf a] AddMatch_succeeds_iff [OF ex_connected ex_wf b] a b
  show ?thesis by (simp add: ex_defs)
qed

theorem SetupMatchmaking_resets_witness:
  "\<exists>c' p'. SetupMatchmaking (ex_conn, ex_added) = (None, c', p') \<and> active_matches (store ex_added) = {1} \<and>
     active_matches (store p') = {}"
proof -
  obtain r c' p' where s: "SetupMatchmaking (ex_conn, ex_added) = (r, c', p')" by (metis surj_pair)
  moreover have "fst (SetupMatchmaking (ex_conn, ex_added)) = None"
    by (simp add: SetupMatchmaking_def eval_db ex_added_def ex_defs sql_reset_users_def sql_cancel_active_def)
  ultimately have "SetupMatchmaking (ex_conn, ex_added) = (None, c', p')" by simp
  moreover have "active_matches (store ex_added) = {1}"
    by (simp add: ex_added_def active_add) (simp add: active_matches_def ex_defs)
  ultimately show ?thesis using SetupMatchmaking_resets by blast
qed

theorem tables_integrity_witness:
  "\<exists>p. db_reachable script_pg p \<and> users (store p) \<noteq> [] \<and> wf_store (store p)"
proof -
  let ?p = "\<lparr>store = empty_store, faults = [], pg_now = 0, draws = 0\<rparr>"
  let ?q = "?p\<lparr>store := (store ?p)\<lparr>users := users (store ?p) @ [ex_user ''ann'' None]\<rparr>\<rparr>"
  have "db_step script_pg ?p ?q"
    unfolding ex_user_def by (rule db_step.register) (simp add: empty_store_def)
  moreover have "db_reachable script_pg ?p" by (rule fresh) simp
  ultimately have "db_reachable script_pg ?q" by (rule db_reachable.step [rotated])
  with tables_integrity [OF this] show ?thesis by (intro exI [of _ ?q]) simp
qed

theorem finished_forever_witness:
  "\<exists>p p'. db_step script_pg p p' \<and> finished (store p) 1 \<and> finished (store p') 1"
proof -
  obtain r c' p' where s: "SetupMatchmaking (ex_conn, ex_added) = (r, c', p')" by (metis surj_pair)
  have "fst (SetupMatchmaking (ex_conn, ex_added)) = None"
    by (simp add: SetupMatchmaking_def eval_db ex_added_def ex_defs sql_reset_users_def sql_cancel_active_def)
  with s SetupMatchmaking_cases [OF s] have "store p' = setup_store (store ex_added)" by simp
  then have f: "finished (store p') 1"
    by (simp add: finished_def setup_store_def ex_added_def add_match_store_def ex_defs)
  let ?q = "p'\<lparr>pg_now := pg_now p'\<rparr>"
  have st: "db_step script_pg p' ?q" by (rule db_step.time) simp
  from finished_forever [OF r_into_rtranclp f, OF st] f st show ?thesis by blast
qed

definition silent_broker :: "'w BrokerConnection_ops" where
  "silent_broker =
     \<lparr>broker_Open = (\<lambda>cfg d. (None, d)), broker_Close = (\<lambda>d. (None, d)),
      broker_AssignJob = (\<lambda>i cfg d. (None, d)),
      broker_GetResult = (\<lambda>d. (Inl (Sentinel DeadlineExceeded), d)),
      broker_GetWorkersPong = (\<lambda>t d. (Inr {}, d))\<rparr>"

definition ex_mgr :: "db_world WorkerManager" where
  "ex_mgr = NewWorkerManager script_docker silent_broker (database_ops script_pg) script_config"

lemma ex_mgr_db: "dbConn ex_mgr = database_ops script_pg"
  by (simp add: ex_mgr_def NewWorkerManager_def)

theorem saveLoop_body_ends_match_witness:
  "\<exists>c' p'. saveLoop_body ex_result ex_mgr (ex_conn, ex_added) = (None, c', p') \<and>
     map u_match_id (users (store ex_added)) = [Some 1, None] \<and>
     map u_match_id (users (store p')) = [None, None] \<and> map m_active (matches (store p')) = [False]"
proof -
  obtain r c' p' where s: "saveLoop_body ex_result ex_mgr (ex_conn, ex_added) = (r, c', p')" by (metis surj_pair)
  have c: "connected (ex_conn, ex_added)" using ex_connected by (simp add: connected_def ex_added_def)
  have m: "res_MatchID ex_result \<in> match_ids (store ex_added)" "int4 (res_MatchID ex_result)"
    "jsonb_ok script_pg (Details ex_result)"
    by (simp_all add: ex_added_def add_match_store_def ex_defs)
  note * = saveLoop_body_ends_match [OF ex_mgr_db c m(2,1,3) s]
  have "map u_match_id (users (store ex_added)) = [Some 1, None]"
    by (simp add: ex_added_def add_match_store_def ex_defs assign_user_def)
  moreover from * have "map u_match_id (users (store p')) = [None, None]"
    by (simp add: ex_added_def add_match_store_def ex_defs assign_user_def)
  moreover from * have "map m_active (matches (store p')) = [False]"
    by (simp add: ex_added_def add_match_store_def ex_defs)
  moreover from s * have "saveLoop_body ex_result ex_mgr (ex_conn, ex_added) = (None, c', p')" by simp
  ultimately show ?thesis by (intro exI [of _ c'] exI [of _ p'] conjI)
qed

theorem saveLoop_body_contained_witness:
  "\<exists>r w'. saveLoop_body ex_result ex_mgr (ex_conn, ex_added\<lparr>faults := [ReqLost (External ''eof'')]\<rparr>) = (r, w') \<and>
     db_match_of w' ''ann'' = Some 1 \<and> db_active w' - {1} = {}"
proof -
  let ?w = "(ex_conn, ex_added\<lparr>faults := [ReqLost (External ''eof'')]\<rparr>)"
  obtain r w' where s: "saveLoop_body ex_result ex_mgr ?w = (r, w')" by (metis surj_pair)
  have "db_match_of (snd (saveLoop_body ex_result ex_mgr ?w)) ''ann'' = Some 1"
    by (simp add: saveLoop_body_def ex_mgr_db database_ops_def eval_db ex_added_def add_match_store_def
        ex_defs match_of_def)
  moreover have "db_active ?w = {1}"
    by (simp add: ex_added_def active_add) (simp add: active_matches_def ex_defs)
  ultimately show ?thesis using s saveLoop_body_contained [OF ex_mgr_db s] by (simp add: ex_result_def)
qed



section \<open>The matchmaker\<close>

text \<open>A manager with one free worker over the scripted containers and broker.\<close>

definition ex_wm :: "unit WorkerManager" where
  "ex_wm = (NewWorkerManager script_docker silent_broker (lift_database (\<lambda>_. (ex_conn, ex_pg)) (\<lambda>_ u. u) script_pg)
     script_config)\<lparr>workers := [NewWorker ''0'' ''c0'' 3 30], wm_initialized := True\<rparr>"

definition ex_matchmaker :: "unit composed Matchmaker" where
  "ex_matchmaker = composed_matchmaker (\<lambda>w. w) script_pg script_config"

lemma silent_broker_sel [simp]:
  "broker_Open silent_broker = (\<lambda>cfg d. (None, d))" "broker_AssignJob silent_broker = (\<lambda>i cfg d. (None, d))"
  "broker_GetResult silent_broker = (\<lambda>d. (Inl (Sentinel DeadlineExceeded), d))"
  "broker_GetWorkersPong silent_broker = (\<lambda>t d. (Inr {}, d))"
  by (simp_all add: silent_broker_def)

lemmas ex_wm_defs = ex_wm_def NewWorkerManager_def NewWorker_def ex_matchmaker_def

theorem createMatch_success_witness:
  "\<exists>mid wm' c' d'. createMatch (\<lambda>us. Inr ''{}'') ex_matchmaker [ann] (ex_wm, (), (ex_conn, ex_pg))
       = ((mid, None), (wm', c', d')) \<and>
     running_matches ex_wm = {} \<and> running_matches wm' = {mid} \<and> db_match_of d' ''ann'' = Some mid"
proof -
  let ?call = "createMatch (\<lambda>us. Inr ''{}'') ex_matchmaker [ann] (ex_wm, (), (ex_conn, ex_pg))"
  obtain mid r wm' c' d' where c: "?call = ((mid, r), (wm', c', d'))" by (metis surj_pair)
  have "snd (fst ?call) = None"
    by (simp add: createMatch_def ex_wm_defs eval_mgr eval_db ex_defs int4_def)
  with c have c0: "?call = ((mid, None), (wm', c', d'))" by simp
  have e: "running_matches ex_wm = {}" by (simp add: running_matches_def ex_wm_defs)
  from createMatch_success [OF c0 [unfolded ex_matchmaker_def]] e c0 show ?thesis
    by (intro exI [of _ mid] exI [of _ wm'] exI [of _ c'] exI [of _ d']) (simp add: ann_def)
qed

text \<open>The insertion of the match fails: the job runs, the database has nothing.\<close>

theorem createMatch_failure_witness:
  "\<exists>mid e wm' c' d'. createMatch (\<lambda>us. Inr ''{}'') ex_matchmaker [ann]
        (ex_wm, (), (ex_conn, ex_pg\<lparr>faults := [NoFault, NoFault, ReqLost (External ''eof'')]\<rparr>))
       = ((mid, Some e), (wm', c', d')) \<and>
     running_matches wm' = {mid} \<and> mid = 2 \<and> db_match_of d' ''ann'' = None"
proof -
  let ?w = "(ex_wm, (), (ex_conn, ex_pg\<lparr>faults := [NoFault, NoFault, ReqLost (External ''eof'')]\<rparr>))"
  let ?call = "createMatch (\<lambda>us. Inr ''{}'') ex_matchmaker [ann] ?w"
  obtain mid r wm' c' d' where c: "?call = ((mid, r), (wm', c', d'))" by (metis surj_pair)
  have "fst ?call = (2, Some (External ''eof''))" and m: "db_match_of (snd (snd (snd ?call))) ''ann'' = None"
    by (simp_all add: createMatch_def ex_wm_defs eval_mgr eval_db ex_defs int4_def match_of_def)
  with c have c0: "?call = ((mid, Some (External ''eof'')), (wm', c', d'))" and i: "mid = 2" by simp_all
  have e: "running_matches ex_wm = {}" by (simp add: running_matches_def ex_wm_defs)
  from m c have m': "db_match_of d' ''ann'' = None" by simp
  from createMatch_failure [OF c0 [unfolded ex_matchmaker_def]] have "running_matches wm' = {mid}"
    using i e by simp
  with c0 m' i show ?thesis
    by (intro exI [of _ mid] exI [of _ "External ''eof''"] exI [of _ wm'] exI [of _ c'] exI [of _ d']) simp
qed

text \<open>Two polls find nobody; a user joins before the third, which is the one that counts.\<close>

definition ex_polling :: "nat Matchmaker" where
  "ex_polling = NewMatchmaker \<lparr>wm_WaitForFreeWorker = (\<lambda>n. n), wm_AssignMatch = (\<lambda>mc n. (Inl (External ''''), n))\<rparr>
     \<lparr>db_Open = (\<lambda>n. (None, n)), db_Close = (\<lambda>n. (None, n)), db_SetupMatchmaking = (\<lambda>n. (None, n)),
      db_GatherMatchPlayers = (\<lambda>n. (if n < 3 then Inl (Sentinel ErrDBNotEnoughPlayers) else Inr [ann], n)),
      db_GenerateAuthTokens = (\<lambda>us n. (Inr us, n)), db_GetNextMatchId = (\<lambda>n. (Inr 1, n)),
      db_AddMatch = (\<lambda>us si m n. (None, n)), db_RemoveMatchStatus = (\<lambda>m n. (None, n)),
      db_SaveMatchResults = (\<lambda>res n. (None, n))\<rparr> script_config"

theorem waitForEnoughPlayers_result_witness:
  "waitForEnoughPlayers (\<lambda>n. (Ticked, Suc n)) ex_polling 0 = Some (Inr [ann], 3)"
proof (rule waitForEnoughPlayers_result)
  show "short_polls (\<lambda>n. (Ticked, Suc n)) ex_polling (Suc (Suc 0)) 0 = Some 2"
    by (simp add: ex_polling_def NewMatchmaker_def)
  show "db_GatherMatchPlayers (mm_db ex_polling) 3 = (Inr [ann], 3)"
    by (simp add: ex_polling_def NewMatchmaker_def)
qed simp

section \<open>The manager's methods\<close>


theorem Start_establishes_witness:
  "\<exists>wm' w'. Start (NewWorkerManager script_docker silent_broker (database_ops script_pg) script_config)
       (NewDatabaseConnection script_config, ex_pg) = (None, wm', w') \<and>
     pool_inv wm' \<and> map ID (workers wm') = [''0'']"
proof -
  let ?call = "Start (NewWorkerManager script_docker silent_broker (database_ops script_pg) script_config)
       (NewDatabaseConnection script_config, ex_pg)"
  obtain r wm' w' where s: "?call = (r, wm', w')" by (metis surj_pair)
  have "fst ?call = None" by (simp add: eval_start eval_db database_ops_def ex_pg_def Let_def)
  with s have r: "r = None" by simp
  from Start_establishes [OF s] r have "pool_inv wm'" "map ID (workers wm') = map Itoa [0..<nat (Workercount script_config)]"
    by blast+
  with s r show ?thesis by (intro exI [of _ wm'] exI [of _ w']) simp
qed


section \<open>The steps of the goroutines\<close>

theorem handleResults_refined_witness:
  "\<exists>(s :: deployment sys) t. (result_step script_env)\<^sup>*\<^sup>* s t \<and> rpc t = R_Poll \<and>
     running_matches (mgr s) = {1} \<and> running_matches (mgr t) = {}"
proof -
  let ?P = "\<lambda>s. rpc s = R_Poll \<and> mu s = Unlocked \<and> running_matches (mgr s) = {1} \<and>
    (case handleResults (unmarshal script_env) (mgr s) (world s) of
       None \<Rightarrow> False | Some (r, wm', w') \<Rightarrow> running_matches wm' = {})"
  obtain n s where "reach script_env n s" and P: "?P s"
    by (rule script_run [of ?P "make_match @ [MatchAct, EnvAct (stream_update (\<lambda>bs. bs @ [''1'']))]"])
      (simp_all add: schedules eval handleResults_def running_matches_def Collect_conv_if)
  from P have s: "rpc s = R_Poll" "mu s = Unlocked" by simp_all
  from P obtain r wm' w' where h: "handleResults (unmarshal script_env) (mgr s) (world s) = Some (r, wm', w')"
    "running_matches wm' = {}" by (auto split: option.splits)
  from handleResults_refined [OF s h(1)] obtain t where "(result_step script_env)\<^sup>*\<^sup>* s t" "rpc t = R_Poll"
    "mgr t = wm'" by (elim exE conjE)
  with P h(2) show ?thesis by (intro exI [of _ s] exI [of _ t]) simp
qed



end
