(* ===== verification/Game_OS.thy ===== *)
theory Game_OS
  imports Prelude
begin

text \<open>
  What the game-server wrapper uses of the operating system and of Go's \<open>os\<close>, \<open>os/exec\<close>,
  \<open>syscall\<close> and \<open>context\<close> packages: temporary files, processes in process groups, signals, and
  blocking on a process and a context at the same time.

  What the outside does is given as data in the state: which of the next system calls fail
  (\<open>syscall_faults\<close>), what happens next while the program blocks (\<open>events\<close>: the process forks
  or exits, a timeout expires, the root context is cancelled), and which branch a \<open>select\<close>
  with two ready channels takes (\<open>coins\<close>).  A call that never returns is \<open>None\<close>.
\<close>

section \<open>State\<close>

datatype os_event =
    Forks
  | ProcExits "go_error option" string
  | Expires
  | Cancels go_error

record process =
  proc_pid :: nat
  proc_group :: nat
  proc_out :: string

record os =
  tmp_files :: "string \<Rightarrow> string option"
  next_tmp :: nat
  live :: "process list"
  exits :: "nat \<Rightarrow> go_error option option"
  next_pid :: nat
  syscall_faults :: "go_error option list"
  events :: "os_event list"
  coins :: "bool list"
  root_ctx :: "go_error option"

section \<open>Contexts\<close>

text \<open>The background context, the service's context, and \<open>context.WithTimeout\<close> of another.\<close>

datatype ctx = Background | Root | WithTimeout ctx

fun ctx_err :: "os \<Rightarrow> ctx \<Rightarrow> go_error option" where
  "ctx_err os Background = None"
| "ctx_err os Root = root_ctx os"
| "ctx_err os (WithTimeout c) = ctx_err os c"

fun can_expire :: "ctx \<Rightarrow> bool" where
  "can_expire (WithTimeout c) = True"
| "can_expire _ = False"

section \<open>System calls\<close>

text \<open>Whether the next system call fails.\<close>

definition sys_fault :: "os \<Rightarrow> go_error option \<times> os" where
  "sys_fault os =
     (case syscall_faults os of [] \<Rightarrow> (None, os) | f # fs \<Rightarrow> (f, os\<lparr>syscall_faults := fs\<rparr>))"

definition flip_coin :: "os \<Rightarrow> bool \<times> os" where
  "flip_coin os = (case coins os of [] \<Rightarrow> (True, os) | b # bs \<Rightarrow> (b, os\<lparr>coins := bs\<rparr>))"

text \<open>\<open>os.CreateTemp\<close> picks a name that is not in use.\<close>

definition create_file :: "string \<Rightarrow> os \<Rightarrow> (go_error + string) \<times> os" where
  "create_file prefix os =
     (case sys_fault os of
        (Some e, os1) \<Rightarrow> (Inl e, os1)
      | (None, os1) \<Rightarrow>
          (let path = prefix @ Itoa (next_tmp os1)
           in (Inr path, os1\<lparr>tmp_files := (tmp_files os1)(path \<mapsto> ''''), next_tmp := Suc (next_tmp os1)\<rparr>)))"

definition write_file :: "string \<Rightarrow> string \<Rightarrow> os \<Rightarrow> go_error option \<times> os" where
  "write_file path s os =
     (case sys_fault os of
        (Some e, os1) \<Rightarrow> (Some e, os1)
      | (None, os1) \<Rightarrow> (None, os1\<lparr>tmp_files := (tmp_files os1)(path \<mapsto> s)\<rparr>))"

text \<open>Reading a file from its start: a seek and a read.\<close>

definition read_file :: "string \<Rightarrow> os \<Rightarrow> (go_error + string) \<times> os" where
  "read_file path os =
     (case sys_fault os of
        (Some e, os1) \<Rightarrow> (Inl e, os1)
      | (None, os1) \<Rightarrow>
     (case sys_fault os1 of
        (Some e, os2) \<Rightarrow> (Inl e, os2)
      | (None, os2) \<Rightarrow>
          (Inr (case tmp_files os2 path of None \<Rightarrow> '''' | Some s \<Rightarrow> s), os2)))"

text \<open>Closing and removing a file; each failure is only logged.\<close>

definition remove_file :: "string \<Rightarrow> os \<Rightarrow> os" where
  "remove_file path os =
     (let (_, os1) = sys_fault os in
      case sys_fault os1 of
        (Some _, os2) \<Rightarrow> os2
      | (None, os2) \<Rightarrow> os2\<lparr>tmp_files := (tmp_files os2)(path := None)\<rparr>)"

text \<open>Starting a process in a group of its own; the process knows its output file.\<close>

definition start_process :: "string \<Rightarrow> os \<Rightarrow> (go_error + nat) \<times> os" where
  "start_process out os =
     (case sys_fault os of
        (Some e, os1) \<Rightarrow> (Inl e, os1)
      | (None, os1) \<Rightarrow>
          (Inr (next_pid os1),
           os1\<lparr>live := live os1 @ [\<lparr>proc_pid = next_pid os1, proc_group = next_pid os1, proc_out = out\<rparr>],
               next_pid := Suc (next_pid os1)\<rparr>))"

text \<open>SIGTERM asks; whether the process exits is up to it.  SIGKILL to a group ends all of it.\<close>

definition signal_term :: "os \<Rightarrow> go_error option \<times> os" where
  "signal_term os = sys_fault os"

definition kill_group :: "nat \<Rightarrow> os \<Rightarrow> os" where
  "kill_group g os =
     (case sys_fault os of
        (Some _, os1) \<Rightarrow> os1
      | (None, os1) \<Rightarrow>
          os1\<lparr>live := filter (\<lambda>p. proc_group p \<noteq> g) (live os1),
              exits := (\<lambda>i. if i \<in> proc_pid ` set (filter (\<lambda>p. proc_group p = g) (live os1))
                            then Some (Some (External ''signal: killed'')) else exits os1 i)\<rparr>)"

section \<open>What happens meanwhile\<close>

text \<open>The event \<open>ev\<close> happens to the process with the given ID.\<close>

fun happens :: "nat \<Rightarrow> os_event \<Rightarrow> os \<Rightarrow> os" where
  "happens i Forks os =
     (case find (\<lambda>p. proc_pid p = i) (live os) of
        None \<Rightarrow> os
      | Some p \<Rightarrow> os\<lparr>live := live os @ [p\<lparr>proc_pid := next_pid os\<rparr>], next_pid := Suc (next_pid os)\<rparr>)"
| "happens i (ProcExits r out) os =
     (case find (\<lambda>p. proc_pid p = i) (live os) of
        None \<Rightarrow> os
      | Some p \<Rightarrow>
          os\<lparr>live := filter (\<lambda>p. proc_pid p \<noteq> i) (live os), exits := (exits os)(i \<mapsto> r),
             tmp_files := (if tmp_files os (proc_out p) = None then tmp_files os
                           else (tmp_files os)(proc_out p \<mapsto> out))\<rparr>)"
| "happens i Expires os = os"
| "happens i (Cancels e) os = (if root_ctx os = None then os\<lparr>root_ctx := Some e\<rparr> else os)"

text \<open>A cancellation that comes before the next blocking call.\<close>

definition settle :: "os \<Rightarrow> os" where
  "settle os =
     (case events os of
        Cancels e # evs \<Rightarrow> happens 0 (Cancels e) (os\<lparr>events := evs\<rparr>)
      | _ \<Rightarrow> os)"

end
