(* ===== verification/Game_Ports.thy ===== *)
theory Game_Ports
  imports Types Game_OS
begin

text \<open>
  The ports of the game-server wrapper (\<open>game-server/host/internal/interfaces.go\<close>), as records
  of functions on the world behind them; the structures \<open>Result\<close> and \<open>MatchConfig\<close> are those
  of theory \<open>Types\<close>, whose JSON both services share.  A method that may block for good returns
  an option.  The locale is what the server relies on of an executor.
\<close>

type_synonym ('w, 'a) blocking = "'w \<Rightarrow> ((go_error + 'a) \<times> 'w) option"

record 'w Executor_ops =
  exec_Start :: "string \<Rightarrow> 'w proc"
  exec_Stop :: "ctx \<Rightarrow> 'w \<Rightarrow> (go_error option \<times> 'w) option"
  exec_GetResult :: "ctx \<Rightarrow> ('w, bytes) blocking"

record 'w GameBroker_ops =
  gb_Open :: "duration \<Rightarrow> 'w proc"
  gb_Close :: "'w proc"
  gb_GetMatchConfig :: "ctx \<Rightarrow> ('w, MatchConfig) blocking"
  gb_SendCancel :: "ctx \<Rightarrow> int \<Rightarrow> 'w proc"
  gb_SendResult :: "ctx \<Rightarrow> int \<Rightarrow> bytes \<Rightarrow> 'w proc"

text \<open>
  Starting leaves the executor active, also when it fails; starting an active executor is
  refused; waiting for the result keeps it; stopping makes it inactive.
\<close>

locale game_executor =
  fixes ops :: "'w Executor_ops" and is_active :: "'w \<Rightarrow> bool"
  assumes start_active: "exec_Start ops cfg w = (r, w') \<Longrightarrow> is_active w'"
    and start_busy: "is_active w \<Longrightarrow> exec_Start ops cfg w = (Some (Sentinel ErrExecutorAlreadyActive), w)"
    and result_keeps: "exec_GetResult ops cx w = Some (x, w') \<Longrightarrow> is_active w' = is_active w"
    and stop_inactive: "exec_Stop ops cx w = Some (q, w') \<Longrightarrow> \<not> is_active w'"

end
