(* ===== verification/Backoff.thy ===== *)
theory Backoff
  imports Prelude
begin

text \<open>
  \<open>HandleBackoff\<close>, the same function in \<open>app/helpers.go\<close> of both services.  The backoff policy
  is the third-party interface \<open>backoff.BackOff\<close>, and waiting for a timer or the context is
  the runtime's: both are functions on the world.
\<close>

record 'w BackOff =
  Reset :: "'w \<Rightarrow> 'w"
  NextBackOff :: "'w \<Rightarrow> duration \<times> 'w"

definition HandleBackoff :: "(duration \<Rightarrow> 'w \<Rightarrow> 'w) \<Rightarrow> 'w BackOff \<Rightarrow> go_error option \<Rightarrow> 'w \<Rightarrow> 'w" where
  "HandleBackoff sleep b err w =
     (case err of
        None \<Rightarrow> Reset b w
      | Some _ \<Rightarrow> (case NextBackOff b w of (d, w1) \<Rightarrow> sleep d w1))"

end
