(* ===== verification/Server.thy ===== *)
theory Server
  imports Game_Ports Backoff
begin

text \<open>
  \<open>game-server/host/app/server.go\<close> and \<open>app.go\<close>: the server that takes one match after the
  other from the broker, runs it with the executor and reports its outcome.  Functions
  return \<open>None\<close> where the code does not return.
\<close>

section \<open>State\<close>

record 'w Server =
  broker :: "'w GameBroker_ops"
  executor :: "'w Executor_ops"
  srv_cmdArgs :: "string list"
  srv_opened :: bool
  srv_closed :: bool
  initTimeout :: duration
  serverStopTimeout :: duration
  sendResultTimeout :: duration
  sendCancelTimeout :: duration

definition NewServer :: "'w GameBroker_ops \<Rightarrow> 'w Executor_ops \<Rightarrow> string list \<Rightarrow> 'w Server" where
  "NewServer b e args =
     \<lparr>broker = b, executor = e, srv_cmdArgs = args, srv_opened = False, srv_closed = False,
      initTimeout = seconds 5, serverStopTimeout = seconds 5, sendResultTimeout = seconds 15,
      sendCancelTimeout = seconds 5\<rparr>"

section \<open>One match\<close>

text \<open>Errors of stopping and of sending a cancel are logged only.\<close>

definition stopServer :: "'w Server \<Rightarrow> ctx \<Rightarrow> 'w \<Rightarrow> 'w option" where
  "stopServer srv cx w = map_option snd (exec_Stop (executor srv) (WithTimeout cx) w)"

definition sendCancel :: "'w Server \<Rightarrow> int \<Rightarrow> 'w \<Rightarrow> 'w" where
  "sendCancel srv matchID w = snd (gb_SendCancel (broker srv) (WithTimeout Background) matchID w)"

definition sendResult :: "'w Server \<Rightarrow> ctx \<Rightarrow> int \<Rightarrow> bytes \<Rightarrow> 'w proc" where
  "sendResult srv cx matchID res w = gb_SendResult (broker srv) (WithTimeout cx) matchID res w"

definition runServer :: "'w Server \<Rightarrow> ctx \<Rightarrow> string \<Rightarrow> ('w, bytes) blocking" where
  "runServer srv cx cfg w =
     (case exec_Start (executor srv) cfg w of
        (Some e, w1) \<Rightarrow> Some (Inl (Errorf ''failed to start server: %w'' [e]), w1)
      | (None, w1) \<Rightarrow>
     (case exec_GetResult (executor srv) cx w1 of
        None \<Rightarrow> None
      | Some (x, w2) \<Rightarrow>
     (case stopServer srv cx w2 of
        None \<Rightarrow> None
      | Some w3 \<Rightarrow>
          Some (case x of Inl e \<Rightarrow> Inl (Errorf ''failed to get match result: %w'' [e]) | Inr res \<Rightarrow> Inr res,
                w3))))"

definition runMatch :: "'w Server \<Rightarrow> ctx \<Rightarrow> 'w \<Rightarrow> (go_error option \<times> 'w) option" where
  "runMatch srv cx w =
     (case gb_GetMatchConfig (broker srv) cx w of
        None \<Rightarrow> None
      | Some (Inl e, w1) \<Rightarrow> Some (Some (Errorf ''get match config failed: %w'' [e]), w1)
      | Some (Inr cfg, w1) \<Rightarrow>
     (case runServer srv cx (Config cfg) w1 of
        None \<Rightarrow> None
      | Some (Inl e, w2) \<Rightarrow>
          Some (Some (Errorf ''server execution failed: %w'' [e]), sendCancel srv (cfg_MatchID cfg) w2)
      | Some (Inr res, w2) \<Rightarrow>
     (case sendResult srv cx (cfg_MatchID cfg) res w2 of
        (Some e, w3) \<Rightarrow>
          Some (Some (Errorf ''failed to send result: %w'' [e]), sendCancel srv (cfg_MatchID cfg) w3)
      | (None, w3) \<Rightarrow> Some (None, w3))))"

section \<open>Open, Close and Run\<close>

definition OpenServer :: "'w Server \<Rightarrow> 'w \<Rightarrow> go_error option \<times> 'w Server \<times> 'w" where
  "OpenServer srv w =
     (if srv_closed srv then (Some (Sentinel ErrServerAlreadyClosed), srv, w)
      else if srv_opened srv then (Some (Sentinel ErrServerAlreadyOpened), srv, w)
      else case gb_Open (broker srv) (initTimeout srv) w of
        (Some e, w1) \<Rightarrow> (Some e, srv, w1)
      | (None, w1) \<Rightarrow> (None, srv\<lparr>srv_opened := True\<rparr>, w1))"

definition CloseServer :: "'w Server \<Rightarrow> 'w \<Rightarrow> (go_error option \<times> 'w Server \<times> 'w) option" where
  "CloseServer srv w =
     (if \<not> srv_opened srv then Some (Some (Sentinel ErrServerNotOpened), srv, w)
      else if srv_closed srv then Some (Some (Sentinel ErrServerAlreadyClosed), srv, w)
      else let srv1 = srv\<lparr>srv_closed := True\<rparr> in
      case stopServer srv1 Background w of
        None \<Rightarrow> None
      | Some w1 \<Rightarrow> (case gb_Close (broker srv1) w1 of (r, w2) \<Rightarrow> Some (r, srv1, w2)))"

text \<open>
  The loop of \<open>Run\<close>: \<open>ctxErr\<close> reads the error of the service's context, \<open>backoff\<close> is
  \<open>HandleBackoff\<close> with the loop's policy, \<open>err\<close> the error of the last iteration.
\<close>

partial_function (option) Run_loop ::
    "('w \<Rightarrow> go_error option) \<Rightarrow> (go_error option \<Rightarrow> 'w \<Rightarrow> 'w) \<Rightarrow> 'w Server \<Rightarrow> go_error option \<Rightarrow> 'w \<Rightarrow>
     (go_error option \<times> 'w) option" where
  "Run_loop ctxErr backoff srv err w =
     (if ctxErr w \<noteq> None then Some (ctxErr w, w)
      else case runMatch srv Root (backoff err w) of
        None \<Rightarrow> None
      | Some (r, w1) \<Rightarrow>
          if error_is r Canceled then Some (ctxErr w1, w1)
          else Run_loop ctxErr backoff srv r w1)"

definition RunServerLoop ::
    "('w \<Rightarrow> go_error option) \<Rightarrow> (go_error option \<Rightarrow> 'w \<Rightarrow> 'w) \<Rightarrow> 'w Server \<Rightarrow> 'w \<Rightarrow>
     (go_error option \<times> 'w) option" where
  "RunServerLoop ctxErr backoff srv w =
     (if \<not> srv_opened srv then Some (Some (Sentinel ErrServerNotOpened), w)
      else if srv_closed srv then Some (Some (Sentinel ErrServerAlreadyClosed), w)
      else Run_loop ctxErr backoff srv None w)"

text \<open>\<open>runServer\<close> of \<open>app.go\<close>: open, run, close (its error only logged).\<close>

definition runServerApp ::
    "('w \<Rightarrow> go_error option) \<Rightarrow> (go_error option \<Rightarrow> 'w \<Rightarrow> 'w) \<Rightarrow> 'w Server \<Rightarrow> 'w \<Rightarrow>
     (go_error option \<times> 'w Server \<times> 'w) option" where
  "runServerApp ctxErr backoff srv w =
     (case OpenServer srv w of
        (Some e, srv1, w1) \<Rightarrow> Some (Some (Errorf ''failed to open server: %w'' [e]), srv1, w1)
      | (None, srv1, w1) \<Rightarrow>
     (case RunServerLoop ctxErr backoff srv1 w1 of
        None \<Rightarrow> None
      | Some (r, w2) \<Rightarrow>
     (case CloseServer srv1 w2 of
        None \<Rightarrow> None
      | Some (_, srv2, w3) \<Rightarrow> Some (if error_is r Canceled then None else r, srv2, w3))))"

lemmas server_defs [op_defs] =
  stopServer_def sendCancel_def sendResult_def runServer_def runMatch_def OpenServer_def CloseServer_def

end
