(* ===== verification/Executor.thy ===== *)
theory Executor
  imports Game_OS
begin

text \<open>
  \<open>game-server/host/adapters/waiter.go\<close> and \<open>exec.go\<close>: the waiter that turns \<open>exec.Cmd.Wait\<close>
  into something one can wait for together with a context, and the executor that runs one
  game-server process per match.
\<close>

section \<open>CmdWaiter\<close>

text \<open>
  \<open>resChan\<close> is nil until the goroutine is started, empty while it waits for the process, and
  holds the error afterwards (\<open>Wait\<close> puts it back).
\<close>

datatype res_chan = NilChan | EmptyChan | Holds "go_error option"

record cmd =
  command_line :: "string list"
  Process :: "nat option"

record CmdWaiter =
  Cmd :: cmd
  resChan :: res_chan

definition NewCmdWaiter :: "cmd \<Rightarrow> CmdWaiter" where
  "NewCmdWaiter c = \<lparr>Cmd = c, resChan = NilChan\<rparr>"

definition WaitAsync :: "CmdWaiter \<Rightarrow> CmdWaiter" where
  "WaitAsync c = (if resChan c \<noteq> NilChan then c else c\<lparr>resChan := EmptyChan\<rparr>)"

text \<open>The goroutine has delivered what \<open>Cmd.Wait\<close> returned, if the process has ended.\<close>

definition delivered :: "os \<Rightarrow> CmdWaiter \<Rightarrow> CmdWaiter" where
  "delivered os c =
     (if resChan c \<noteq> EmptyChan then c
      else case Process (Cmd c) of
        None \<Rightarrow> c\<lparr>resChan := Holds (Some (External ''exec: not started''))\<rparr>
      | Some i \<Rightarrow> (case exits os i of None \<Rightarrow> c | Some r \<Rightarrow> c\<lparr>resChan := Holds r\<rparr>))"

text \<open>The \<open>select\<close> of \<open>Wait\<close> on the channel and the context, while \<open>evs\<close> happen.\<close>

fun wait_select ::
    "ctx \<Rightarrow> CmdWaiter \<Rightarrow> os_event list \<Rightarrow> os \<Rightarrow> (go_error option \<times> CmdWaiter \<times> os) option" where
  "wait_select cx c evs os =
     (let c1 = delivered os c in
      case (resChan c1, ctx_err os cx) of
        (Holds r, None) \<Rightarrow> Some (r, c1, os\<lparr>events := evs\<rparr>)
      | (Holds r, Some e) \<Rightarrow>
          (let (b, os1) = flip_coin os in Some (if b then r else Some e, c1, os1\<lparr>events := evs\<rparr>))
      | (_, Some e) \<Rightarrow> Some (Some e, c1, os\<lparr>events := evs\<rparr>)
      | (_, None) \<Rightarrow>
          (case evs of
             [] \<Rightarrow> None
           | ev # rest \<Rightarrow>
               if ev = Expires \<and> can_expire cx
               then Some (Some (Sentinel DeadlineExceeded), c1, os\<lparr>events := rest\<rparr>)
               else wait_select cx c1 rest
                      (case Process (Cmd c1) of None \<Rightarrow> os | Some i \<Rightarrow> happens i ev os)))"

declare wait_select.simps [simp del]

definition Wait :: "ctx \<Rightarrow> CmdWaiter \<Rightarrow> os \<Rightarrow> (go_error option \<times> CmdWaiter \<times> os) option" where
  "Wait cx c os = (let os1 = settle os in wait_select cx (WaitAsync c) (events os1) os1)"

section \<open>Executor\<close>

record Executor =
  cmdArgs :: "string list"
  active :: bool
  configFile :: "string option"
  resultFile :: "string option"
  exec_cmd :: "cmd option"
  cmdWaiter :: "CmdWaiter option"
  pgid :: nat

definition NewExecutor :: "string list \<Rightarrow> Executor" where
  "NewExecutor args =
     \<lparr>cmdArgs = args, active = False, configFile = None, resultFile = None, exec_cmd = None,
      cmdWaiter = None, pgid = 0\<rparr>"

definition createTempFile :: "string \<Rightarrow> os \<Rightarrow> (go_error + string) \<times> os" where
  "createTempFile subname os =
     (case create_file (''/tmp/game-server-'' @ subname @ ''-'') os of
        (Inl e, os1) \<Rightarrow> (Inl (Errorf ''%w: %w'' [Sentinel ErrFailedToCreateTempFile, e]), os1)
      | (Inr path, os1) \<Rightarrow> (Inr path, os1))"

definition generateCommand :: "string list \<Rightarrow> string \<Rightarrow> string \<Rightarrow> string list" where
  "generateCommand args configFileName resultFileName =
     args @ [''--match-config'', configFileName, ''--match-result'', resultFileName]"

definition StartExecutor :: "string \<Rightarrow> Executor \<Rightarrow> os \<Rightarrow> go_error option \<times> Executor \<times> os" where
  "StartExecutor cfg s os =
     (if active s then (Some (Sentinel ErrExecutorAlreadyActive), s, os)
      else let s0 = s\<lparr>active := True\<rparr> in
      case createTempFile ''config'' os of
        (Inl e, os1) \<Rightarrow> (Some e, s0, os1)
      | (Inr cf, os1) \<Rightarrow>
     (let s1 = s0\<lparr>configFile := Some cf\<rparr> in
      case write_file cf cfg os1 of
        (Some e, os2) \<Rightarrow> (Some (Errorf ''%w: %w'' [Sentinel ErrFailedToWriteConfig, e]), s1, os2)
      | (None, os2) \<Rightarrow>
     (case createTempFile ''result'' os2 of
        (Inl e, os3) \<Rightarrow> (Some e, s1, os3)
      | (Inr rf, os3) \<Rightarrow>
     (let s2 = s1\<lparr>resultFile := Some rf\<rparr>;
          c = \<lparr>command_line = generateCommand (cmdArgs s) cf rf, Process = None\<rparr>;
          s3 = s2\<lparr>exec_cmd := Some c, cmdWaiter := Some (NewCmdWaiter c)\<rparr> in
      case start_process rf os3 of
        (Inl e, os4) \<Rightarrow> (Some (Errorf ''%w: %w'' [Sentinel ErrGameServerFailedToStart, e]), s3, os4)
      | (Inr i, os4) \<Rightarrow>
          (let c' = c\<lparr>Process := Some i\<rparr>
           in (None, s3\<lparr>exec_cmd := Some c', cmdWaiter := Some (NewCmdWaiter c'), pgid := i\<rparr>, os4))))))"

text \<open>\<open>None\<close>: the call does not return (it blocks forever, or panics on a nil waiter).\<close>

definition stopCommand :: "ctx \<Rightarrow> Executor \<Rightarrow> os \<Rightarrow> (go_error option \<times> os) option" where
  "stopCommand cx s os =
     (case Option.bind (exec_cmd s) Process of
        None \<Rightarrow> Some (None, os)
      | Some i \<Rightarrow>
     (case cmdWaiter s of
        None \<Rightarrow> None
      | Some w \<Rightarrow>
          (let (_, os1) = signal_term os in
           case Wait cx (WaitAsync w) os1 of
             None \<Rightarrow> None
           | Some (r, w1, os2) \<Rightarrow>
               if error_is r Canceled
               then (case Wait Background w1 (kill_group (pgid s) os2) of
                       None \<Rightarrow> None
                     | Some (_, _, os3) \<Rightarrow> Some (r, os3))
               else Some (None, kill_group (pgid s) os2))))"

definition remove_opt :: "string option \<Rightarrow> os \<Rightarrow> os" where
  "remove_opt f os = (case f of None \<Rightarrow> os | Some path \<Rightarrow> remove_file path os)"

definition StopExecutor :: "ctx \<Rightarrow> Executor \<Rightarrow> os \<Rightarrow> (go_error option \<times> Executor \<times> os) option" where
  "StopExecutor cx s os =
     (if \<not> active s then Some (Some (Sentinel ErrExecutorNotActive), s, os)
      else case (if exec_cmd s = None then Some (None, os) else stopCommand cx s os) of
        None \<Rightarrow> None
      | Some (r, os1) \<Rightarrow>
          Some (r,
                s\<lparr>exec_cmd := None, pgid := 0, cmdWaiter := None, configFile := None,
                  resultFile := None, active := False\<rparr>,
                remove_opt (resultFile s) (remove_opt (configFile s) os1)))"

definition GetResult :: "ctx \<Rightarrow> Executor \<Rightarrow> os \<Rightarrow> ((go_error + bytes) \<times> Executor \<times> os) option" where
  "GetResult cx s os =
     (if \<not> active s then Some (Inl (Sentinel ErrExecutorNotActive), s, os)
      else case cmdWaiter s of
        None \<Rightarrow> None
      | Some w \<Rightarrow>
     (case Wait cx w os of
        None \<Rightarrow> None
      | Some (r, w1, os1) \<Rightarrow>
          (let s1 = s\<lparr>cmdWaiter := Some w1\<rparr> in
           case r of
             Some e \<Rightarrow> Some (Inl e, s1, os1)
           | None \<Rightarrow>
          (case resultFile s of
             None \<Rightarrow> None
           | Some path \<Rightarrow> (case read_file path os1 of (x, os2) \<Rightarrow> Some (x, s1, os2))))))"

end
