(* ===== verification/Executor_Props.thy ===== *)
theory Executor_Props
  imports Executor
begin

text \<open>
  The executor leaves nothing behind: an invariant that ties its fields to the temporary
  files and the processes that exist, kept by every operation whatever system calls fail,
  and with it that stopping returns, ends every process and removes every file.
\<close>

section \<open>System calls\<close>

lemma sys_fault_sel:
  assumes "sys_fault os = (r, os')"
  shows "tmp_files os' = tmp_files os" "next_tmp os' = next_tmp os" "live os' = live os"
    "exits os' = exits os" "next_pid os' = next_pid os" "events os' = events os"
    "coins os' = coins os" "root_ctx os' = root_ctx os"
  using assms by (auto simp: sys_fault_def split: list.splits)

lemma sys_fault_none: "syscall_faults os = [] \<Longrightarrow> sys_fault os = (None, os)"
  by (simp add: sys_fault_def)

lemma ctx_err_cong: "root_ctx os' = root_ctx os \<Longrightarrow> ctx_err os' cx = ctx_err os cx"
  by (induction cx) auto

section \<open>The invariant\<close>

text \<open>
  An inactive executor has no process, no file and no waiter.  An active one owns all the
  files there are and all the live processes, which are in the group of its own process;
  and that process is live or its exit status is known.
\<close>

definition pids_ok :: "os \<Rightarrow> bool" where
  "pids_ok os \<longleftrightarrow>
     (\<forall>p\<in>set (live os). proc_pid p < next_pid os) \<and> (\<forall>i. exits os i \<noteq> None \<longrightarrow> i < next_pid os)"

definition exec_inv :: "Executor \<Rightarrow> os \<Rightarrow> bool" where
  "exec_inv s os \<longleftrightarrow>
     pids_ok os \<and>
     dom (tmp_files os) \<subseteq> set_option (configFile s) \<union> set_option (resultFile s) \<and>
     (\<not> active s \<longrightarrow> exec_cmd s = None \<and> cmdWaiter s = None \<and> configFile s = None \<and> resultFile s = None) \<and>
     (case exec_cmd s of
        None \<Rightarrow> cmdWaiter s = None \<and> live os = []
      | Some c \<Rightarrow>
          (\<exists>w. cmdWaiter s = Some w \<and> Cmd w = c) \<and> resultFile s \<noteq> None \<and>
          (case Process c of
             None \<Rightarrow> live os = []
           | Some i \<Rightarrow> pgid s = i \<and> (\<forall>p\<in>set (live os). proc_group p = i) \<and>
               (i \<in> proc_pid ` set (live os) \<or> exits os i \<noteq> None)))"

definition owned :: "nat \<Rightarrow> os \<Rightarrow> bool" where
  "owned i os \<longleftrightarrow>
     pids_ok os \<and> (\<forall>p\<in>set (live os). proc_group p = i) \<and>
     (i \<in> proc_pid ` set (live os) \<or> exits os i \<noteq> None)"

lemma find_pid: "find (\<lambda>p. proc_pid p = i) ps = Some p \<Longrightarrow> p \<in> set ps \<and> proc_pid p = i"
  by (induction ps) (auto split: if_splits)

lemma happens_owned:
  assumes "owned i os"
  shows "owned i (happens i ev os)"
proof (cases ev)
  case Forks
  show ?thesis
  proof (cases "find (\<lambda>p. proc_pid p = i) (live os)")
    case None
    with assms Forks show ?thesis by simp
  next
    case (Some p)
    with find_pid [OF Some] assms Forks show ?thesis
      by (auto simp: owned_def pids_ok_def less_Suc_eq)
  qed
next
  case (ProcExits r out)
  show ?thesis
  proof (cases "find (\<lambda>p. proc_pid p = i) (live os)")
    case None
    with assms ProcExits show ?thesis by simp
  next
    case (Some p)
    from find_pid [OF Some] assms have "i < next_pid os" by (auto simp: owned_def pids_ok_def)
    with Some assms ProcExits show ?thesis
      by (auto simp: owned_def pids_ok_def)
  qed
qed (use assms in \<open>auto simp: owned_def pids_ok_def\<close>)

lemma happens_files: "dom (tmp_files (happens i ev os)) = dom (tmp_files os)"
  by (cases ev) (auto split: option.splits)

lemma happens_faults [simp]: "syscall_faults (happens i ev os) = syscall_faults os"
  by (cases ev) (auto split: option.splits)

lemma owned_frame [simp]:
  "owned i (os\<lparr>coins := cs\<rparr>) = owned i os" "owned i (os\<lparr>events := es\<rparr>) = owned i os"
  "owned i (os\<lparr>root_ctx := x\<rparr>) = owned i os" "owned i (os\<lparr>syscall_faults := fs\<rparr>) = owned i os"
  "owned i (os\<lparr>tmp_files := t\<rparr>) = owned i os"
  by (simp_all add: owned_def pids_ok_def)

lemma delivered_Cmd [simp]: "Cmd (delivered os c) = Cmd c"
  by (auto simp: delivered_def split: option.splits)

lemma WaitAsync_Cmd [simp]: "Cmd (WaitAsync c) = Cmd c"
  by (simp add: WaitAsync_def)

lemma flip_coin_sel:
  assumes "flip_coin os = (b, os')"
  shows "tmp_files os' = tmp_files os" "live os' = live os" "exits os' = exits os"
    "next_pid os' = next_pid os" "syscall_faults os' = syscall_faults os" "root_ctx os' = root_ctx os"
  using assms by (auto simp: flip_coin_def split: list.splits)

text \<open>One round of the \<open>select\<close>: it returns, or an event happens and it goes on.\<close>

lemma flip_coin_eq: "\<exists>cs. snd (flip_coin os) = os\<lparr>coins := cs\<rparr>"
  by (cases "coins os") (auto simp: flip_coin_def intro: exI [of _ "coins os"])

lemma wait_select_cases:
  assumes "wait_select cx c evs os = Some (r, c', os')"
  obtains (returns) cs es where "c' = delivered os c" and "os' = os\<lparr>coins := cs, events := es\<rparr>"
      and "r = None \<Longrightarrow> resChan c' = Holds None"
  | (goes_on) ev rest where "evs = ev # rest" and "\<not> (ev = Expires \<and> can_expire cx)"
      and "ctx_err os cx = None" and "\<forall>r. resChan (delivered os c) \<noteq> Holds r"
      and "wait_select cx (delivered os c) rest
             (case Process (Cmd c) of None \<Rightarrow> os | Some i \<Rightarrow> happens i ev os) = Some (r, c', os')"
proof (cases "\<exists>r. resChan (delivered os c) = Holds r")
  case True
  then obtain q where q: "resChan (delivered os c) = Holds q" by blast
  obtain cs where cs: "snd (flip_coin os) = os\<lparr>coins := cs\<rparr>" using flip_coin_eq by blast
  show thesis
  proof (cases "ctx_err os cx")
    case None
    with q assms show thesis
      by (intro returns [where cs = "coins os" and es = evs]) (simp_all add: wait_select.simps [of cx c] Let_def)
  next
    case (Some e)
    obtain b os1 where b: "flip_coin os = (b, os1)" by fastforce
    with Some q cs assms show thesis
      by (intro returns [where cs = cs and es = evs])
        (simp_all add: wait_select.simps [of cx c] Let_def split: if_splits)
  qed
next
  case False
  then have nq: "resChan (delivered os c) = NilChan \<or> resChan (delivered os c) = EmptyChan"
    by (metis res_chan.exhaust)
  show thesis
  proof (cases "ctx_err os cx")
    case (Some e)
    with nq assms show thesis
      by (intro returns [where cs = "coins os" and es = evs]) (auto simp: wait_select.simps [of cx c] Let_def)
  next
    case None
    show thesis
    proof (cases evs)
      case Nil
      with None nq assms show thesis by (auto simp: wait_select.simps [of cx c] Let_def)
    next
      case (Cons ev rest)
      show thesis
      proof (cases "ev = Expires \<and> can_expire cx")
        case True
        with Cons None nq assms show thesis
          by (intro returns [where cs = "coins os" and es = rest]) (auto simp: wait_select.simps [of cx c] Let_def)
      next
        case no: False
        with Cons None nq assms False show thesis
          by (intro goes_on [of ev rest]) (auto simp: wait_select.simps [of cx c] Let_def)
      qed
    qed
  qed
qed

text \<open>Waiting keeps the processes owned and the files in place.\<close>

lemma wait_select_inv:
  assumes "wait_select cx c evs os = Some (r, c', os')" and "Process (Cmd c) = Some i" and "owned i os"
  shows "owned i os' \<and> dom (tmp_files os') = dom (tmp_files os) \<and> Cmd c' = Cmd c \<and>
     syscall_faults os' = syscall_faults os"
  using assms
proof (induction evs arbitrary: c os)
  case Nil
  from Nil(1) show ?case
    by (cases rule: wait_select_cases) (use Nil(3) in simp_all)
next
  case (Cons ev evs)
  from Cons.prems(1) show ?case
  proof (cases rule: wait_select_cases)
    case (returns cs es)
    with Cons.prems(3) show ?thesis by simp
  next
    case (goes_on ev' rest)
    have "owned i (happens i ev os)" by (rule happens_owned) (rule Cons.prems(3))
    moreover from goes_on Cons.prems(2)
    have "wait_select cx (delivered os c) evs (happens i ev os) = Some (r, c', os')" by simp
    ultimately show ?thesis
      using Cons.IH [of "delivered os c" "happens i ev os"] Cons.prems(2) happens_files [of i ev os] by simp
  qed
qed

lemma settle_inv:
  "owned i (settle os) = owned i os" "dom (tmp_files (settle os)) = dom (tmp_files os)"
  "syscall_faults (settle os) = syscall_faults os" "live (settle os) = live os" "exits (settle os) = exits os"
  by (simp_all add: settle_def split: list.split os_event.split)

lemma Wait_inv:
  assumes "Wait cx c os = Some (r, c', os')" and "Process (Cmd c) = Some i" and "owned i os"
  shows "owned i os'" and "dom (tmp_files os') = dom (tmp_files os)" and "Cmd c' = Cmd c"
    and "syscall_faults os' = syscall_faults os"
proof -
  have w: "wait_select cx (WaitAsync c) (events (settle os)) (settle os) = Some (r, c', os')"
    using assms(1) by (simp add: Wait_def Let_def)
  from wait_select_inv [OF w, of i] assms(2,3)
  show "owned i os'" "dom (tmp_files os') = dom (tmp_files os)" "Cmd c' = Cmd c"
    "syscall_faults os' = syscall_faults os"
    by (simp_all add: settle_inv)
qed


section \<open>Starting\<close>

lemma sys_fault_eq:
  assumes "sys_fault os = (r, os')"
  obtains fs where "os' = os\<lparr>syscall_faults := fs\<rparr>"
proof (cases "syscall_faults os")
  case Nil
  with assms show thesis by (intro that [of "syscall_faults os"]) (simp add: sys_fault_def)
next
  case (Cons f fs)
  with assms show thesis by (intro that [of fs]) (simp add: sys_fault_def)
qed

lemma createTempFile_cases:
  assumes "createTempFile sub os = (r, os')"
  obtains (failed) e fs where "r = Inl e" and "os' = os\<lparr>syscall_faults := fs\<rparr>"
      and "errors_is e ErrFailedToCreateTempFile"
  | (created) path fs where "r = Inr path"
      and "os' = os\<lparr>syscall_faults := fs, tmp_files := (tmp_files os)(path \<mapsto> ''''), next_tmp := Suc (next_tmp os)\<rparr>"
      and "path = ''/tmp/game-server-'' @ sub @ ''-'' @ Itoa (next_tmp os)"
proof -
  obtain x os1 where f: "sys_fault os = (x, os1)" by fastforce
  from sys_fault_eq [OF f] obtain fs where fs: "os1 = os\<lparr>syscall_faults := fs\<rparr>" .
  show thesis
  proof (cases x)
    case (Some e)
    with assms f fs show thesis
      by (intro failed [where fs = fs]) (auto simp: createTempFile_def create_file_def)
  next
    case None
    with assms f fs show thesis
      by (intro created [where fs = fs]) (auto simp: createTempFile_def create_file_def Let_def)
  qed
qed

lemma write_file_cases:
  assumes "write_file path str os = (r, os')"
  obtains fs t where "os' = os\<lparr>syscall_faults := fs, tmp_files := t\<rparr>"
    and "t = (if r = None then (tmp_files os)(path \<mapsto> str) else tmp_files os)"
proof -
  obtain x os1 where f: "sys_fault os = (x, os1)" by fastforce
  from sys_fault_eq [OF f] obtain fs where "os1 = os\<lparr>syscall_faults := fs\<rparr>" .
  with assms f show thesis
    by (intro that [where fs = fs and t = "if r = None then (tmp_files os)(path \<mapsto> str) else tmp_files os"])
      (auto simp: write_file_def split: option.splits)
qed

lemma start_process_cases:
  assumes "start_process out os = (r, os')"
  obtains (failed) e fs where "r = Inl e" and "os' = os\<lparr>syscall_faults := fs\<rparr>"
  | (started) fs where "r = Inr (next_pid os)"
      and "os' = os\<lparr>syscall_faults := fs, live := live os @
             [\<lparr>proc_pid = next_pid os, proc_group = next_pid os, proc_out = out\<rparr>],
             next_pid := Suc (next_pid os)\<rparr>"
proof -
  obtain x os1 where f: "sys_fault os = (x, os1)" by fastforce
  from sys_fault_eq [OF f] obtain fs where fs: "os1 = os\<lparr>syscall_faults := fs\<rparr>" .
  show thesis
  proof (cases x)
    case (Some e)
    with assms f fs show thesis by (intro failed [where fs = fs]) (auto simp: start_process_def)
  next
    case None
    with assms f fs show thesis by (intro started [where fs = fs]) (auto simp: start_process_def)
  qed
qed

text \<open>Every way \<open>Start\<close> can end.  It marks the executor active in all of them but the first.\<close>

lemma StartExecutor_cases:
  assumes "StartExecutor cfg s os = (r, s', os')"
  obtains (already) "active s" and "r = Some (Sentinel ErrExecutorAlreadyActive)" and "s' = s" and "os' = os"
  | (no_config) e fs where "\<not> active s" and "r = Some e" and "s' = s\<lparr>active := True\<rparr>"
      and "os' = os\<lparr>syscall_faults := fs\<rparr>"
  | (no_file) e cf t k fs where "\<not> active s" and "r = Some e"
      and "s' = s\<lparr>active := True, configFile := Some cf\<rparr>"
      and "os' = os\<lparr>syscall_faults := fs, tmp_files := t, next_tmp := k\<rparr>"
      and "dom t \<subseteq> insert cf (dom (tmp_files os))"
  | (no_process) e cf rf t k fs c where "\<not> active s" and "r = Some e"
      and "s' = s\<lparr>active := True, configFile := Some cf, resultFile := Some rf,
                  exec_cmd := Some c, cmdWaiter := Some (NewCmdWaiter c)\<rparr>"
      and "Process c = None"
      and "os' = os\<lparr>syscall_faults := fs, tmp_files := t, next_tmp := k\<rparr>"
      and "dom t \<subseteq> dom (tmp_files os) \<union> {cf, rf}"
  | (started) cf rf t k fs c where "\<not> active s" and "r = None"
      and "s' = s\<lparr>active := True, configFile := Some cf, resultFile := Some rf,
                  exec_cmd := Some c, cmdWaiter := Some (NewCmdWaiter c), pgid := next_pid os\<rparr>"
      and "Process c = Some (next_pid os)" and "command_line c = generateCommand (cmdArgs s) cf rf"
      and "os' = os\<lparr>syscall_faults := fs, tmp_files := t, next_tmp := k, live := live os @
             [\<lparr>proc_pid = next_pid os, proc_group = next_pid os, proc_out = rf\<rparr>],
             next_pid := Suc (next_pid os)\<rparr>"
      and "t = (tmp_files os)(cf \<mapsto> cfg, rf \<mapsto> '''')" and "cf \<noteq> rf"
proof (cases "active s")
  case True
  with assms show thesis by (intro already) (simp_all add: StartExecutor_def)
next
  case False
  obtain a os1 where a: "createTempFile ''config'' os = (a, os1)" by fastforce
  from a show thesis
  proof (cases rule: createTempFile_cases)
    case (failed e fs)
    with assms a False show thesis
      by (intro no_config [where fs = fs]) (auto simp: StartExecutor_def)
  next
    case (created cf fs)
    note cf = created
    obtain b os2 where b: "write_file cf cfg os1 = (b, os2)" by fastforce
    from write_file_cases [OF b] obtain fs2 t2 where w: "os2 = os1\<lparr>syscall_faults := fs2, tmp_files := t2\<rparr>"
      "t2 = (if b = None then (tmp_files os1)(cf \<mapsto> cfg) else tmp_files os1)" .
    show thesis
    proof (cases b)
      case (Some e)
      with assms a cf b w False show thesis
        by (intro no_file [where cf = cf and t = t2 and k = "Suc (next_tmp os)" and fs = fs2])
          (auto simp: StartExecutor_def Let_def)
    next
      case None
      obtain d os3 where d: "createTempFile ''result'' os2 = (d, os3)" by fastforce
      from d show thesis
      proof (cases rule: createTempFile_cases)
        case (failed e fs3)
        with assms a cf b w d False None show thesis
          by (intro no_file [where cf = cf and t = t2 and k = "Suc (next_tmp os)" and fs = fs3])
            (auto simp: StartExecutor_def Let_def)
      next
        case (created rf fs3)
        note rf = created
        let ?c = "\<lparr>command_line = generateCommand (cmdArgs s) cf rf, Process = None\<rparr>"
        obtain x os4 where x: "start_process rf os3 = (x, os4)" by fastforce
        from x show thesis
        proof (cases rule: start_process_cases)
          case (failed e fs4)
          with assms a cf b w d rf x False None show thesis
            by (intro no_process [where cf = cf and rf = rf and c = ?c and t = "t2(rf \<mapsto> '''')"
                  and k = "Suc (Suc (next_tmp os))" and fs = fs4])
              (auto simp: StartExecutor_def Let_def)
        next
          case (started fs4)
          with assms a cf b w d rf x False None show thesis
            by (intro that(5) [where cf = cf and rf = rf and c = "?c\<lparr>Process := Some (next_pid os)\<rparr>"
                  and t = "t2(rf \<mapsto> '''')" and k = "Suc (Suc (next_tmp os))" and fs = fs4])
              (auto simp: StartExecutor_def Let_def)
        qed
      qed
    qed
  qed
qed

lemma exec_inv_Start [inv_intros]:
  assumes "exec_inv s os" and "StartExecutor cfg s os = (r, s', os')"
  shows "exec_inv s' os' \<and> active s'"
  using assms(2)
proof (cases rule: StartExecutor_cases)
  case already
  with assms(1) show ?thesis by simp
next
  case (no_config e fs)
  with assms(1) show ?thesis by (auto simp: exec_inv_def pids_ok_def split: option.splits)
next
  case (no_file e cf t k fs)
  with assms(1) show ?thesis
    by (auto simp: exec_inv_def pids_ok_def split: option.splits)
next
  case (no_process e cf rf t k fs c)
  with assms(1) show ?thesis by (auto simp: exec_inv_def pids_ok_def NewCmdWaiter_def)
next
  case (started cf rf t k fs c)
  with assms(1) show ?thesis
    by (auto simp: exec_inv_def pids_ok_def NewCmdWaiter_def less_Suc_eq)
qed


section \<open>Waiting for a process that has ended\<close>

text \<open>The channel is filled at once, and the \<open>select\<close> returns without anything happening.\<close>

definition ended :: "CmdWaiter \<Rightarrow> os \<Rightarrow> bool" where
  "ended c os \<longleftrightarrow> (case Process (Cmd c) of None \<Rightarrow> True | Some i \<Rightarrow> exits os i \<noteq> None)"

lemma settle_eq: "\<exists>es x. settle os = os\<lparr>events := es, root_ctx := x\<rparr>"
proof (cases "\<exists>e evs. events os = Cancels e # evs")
  case True
  then obtain e evs where "events os = Cancels e # evs" by blast
  then show ?thesis
    by (intro exI [of _ evs] exI [of _ "if root_ctx os = None then Some e else root_ctx os"])
      (auto simp: settle_def)
next
  case False
  then have "settle os = os" by (auto simp: settle_def split: list.split os_event.split)
  then show ?thesis by (intro exI [of _ "events os"] exI [of _ "root_ctx os"]) simp
qed

lemma delivered_ended:
  "ended c os \<Longrightarrow> \<exists>r. resChan (delivered os (WaitAsync c)) = Holds r"
  by (cases "resChan c") (auto simp: ended_def delivered_def WaitAsync_def split: option.splits)

lemma Wait_ended:
  assumes "ended c os"
  shows "\<exists>r c' cs es x. Wait cx c os = Some (r, c', os\<lparr>coins := cs, events := es, root_ctx := x\<rparr>)"
proof -
  obtain es x where se: "settle os = os\<lparr>events := es, root_ctx := x\<rparr>" using settle_eq by blast
  have "ended c (settle os)" using assms by (simp add: ended_def se split: option.splits)
  then obtain q where q: "resChan (delivered (settle os) (WaitAsync c)) = Holds q"
    using delivered_ended by blast
  obtain p b where b: "flip_coin (settle os) = (p, (settle os)\<lparr>coins := b\<rparr>)"
    using flip_coin_eq [of "settle os"] by (metis prod.collapse)
  show ?thesis
  proof (cases "ctx_err (settle os) cx")
    case None
    with q have "Wait cx c os = Some (q, delivered (settle os) (WaitAsync c),
        os\<lparr>coins := coins os, events := es, root_ctx := x\<rparr>)"
      by (simp add: Wait_def wait_select.simps Let_def se)
    then show ?thesis by blast
  next
    case (Some e)
    with q b have "Wait cx c os = Some (if p then q else Some e, delivered (settle os) (WaitAsync c),
        os\<lparr>coins := b, events := es, root_ctx := x\<rparr>)"
      by (simp add: Wait_def wait_select.simps Let_def se)
    then show ?thesis by blast
  qed
qed

lemma Wait_unstarted:
  assumes "Wait cx c os = Some (r, c', os')" and "Process (Cmd c) = None"
  obtains cs es x where "os' = os\<lparr>coins := cs, events := es, root_ctx := x\<rparr>"
proof -
  have "ended c os" using assms(2) by (simp add: ended_def)
  from Wait_ended [OF this, of cx] assms(1) that show thesis by auto
qed

lemma Wait_Cmd:
  assumes "Wait cx c os = Some (r, c', os')"
  shows "Cmd c' = Cmd c"
proof -
  have "Cmd c' = Cmd w" if "wait_select cx w evs o1 = Some (r, c', os')" for w evs o1
    using that
  proof (induction evs arbitrary: w o1)
    case Nil
    then show ?case by (cases rule: wait_select_cases) simp_all
  next
    case (Cons ev evs)
    from Cons.prems show ?case
      by (cases rule: wait_select_cases) (auto dest: Cons.IH)
  qed
  from this [of "WaitAsync c"] assms show ?thesis by (auto simp: Wait_def Let_def)
qed

section \<open>Stopping\<close>

lemma kill_group_owned:
  assumes "owned i os" and "syscall_faults os = []"
  shows "live (kill_group i os) = []" and "exits (kill_group i os) i \<noteq> None" and "owned i (kill_group i os)"
    and "tmp_files (kill_group i os) = tmp_files os" and "syscall_faults (kill_group i os) = []"
proof -
  have f: "filter (\<lambda>p. proc_group p = i) (live os) = live os" "filter (\<lambda>p. proc_group p \<noteq> i) (live os) = []"
    using assms(1) by (auto simp: owned_def filter_id_conv filter_empty_conv)
  show "live (kill_group i os) = []" "exits (kill_group i os) i \<noteq> None" "owned i (kill_group i os)"
    "tmp_files (kill_group i os) = tmp_files os" "syscall_faults (kill_group i os) = []"
    using assms by (auto simp: kill_group_def sys_fault_none f owned_def pids_ok_def)
qed

lemma exec_inv_owned:
  assumes "exec_inv s os" and "exec_cmd s = Some c" and "Process c = Some i"
  obtains w where "cmdWaiter s = Some w" and "Process (Cmd w) = Some i" and "pgid s = i" and "owned i os"
  using assms by (auto simp: exec_inv_def owned_def)

lemma stopCommand_clean:
  assumes "exec_inv s os" and "syscall_faults os = []" and "stopCommand cx s os = Some (r, os')"
  shows "live os' = [] \<and> dom (tmp_files os') = dom (tmp_files os) \<and> syscall_faults os' = [] \<and> pids_ok os'"
proof (cases "Option.bind (exec_cmd s) Process")
  case None
  with assms show ?thesis
    by (auto simp: stopCommand_def exec_inv_def split: option.splits)
next
  case (Some i)
  then obtain c where c: "exec_cmd s = Some c" "Process c = Some i" by (cases "exec_cmd s") auto
  from exec_inv_owned [OF assms(1) c] obtain w where w: "cmdWaiter s = Some w" "Process (Cmd w) = Some i"
    "pgid s = i" "owned i os" .
  have sig: "signal_term os = (None, os)" using assms(2) by (simp add: signal_term_def sys_fault_none)
  from assms(3) Some w sig obtain q w1 os2 where q: "Wait cx (WaitAsync w) os = Some (q, w1, os2)"
    by (auto simp: stopCommand_def Let_def split: option.splits)
  note inv = Wait_inv [OF q, of i, unfolded WaitAsync_Cmd, OF w(2,4)]
  have "syscall_faults os2 = []" using inv(4) assms(2) by simp
  note kill = kill_group_owned [OF inv(1) this]
  show ?thesis
  proof (cases "error_is q Canceled")
    case False
    with assms(3) Some w sig q have "os' = kill_group i os2"
      by (auto simp: stopCommand_def Let_def)
    with kill inv(2) show ?thesis by (simp add: owned_def)
  next
    case True
    have "ended w1 (kill_group i os2)" using kill(2) inv(3) w(2) by (simp add: ended_def)
    from Wait_ended [OF this, of Background] obtain r3 w3 cs es x
      where b: "Wait Background w1 (kill_group i os2)
          = Some (r3, w3, (kill_group i os2)\<lparr>coins := cs, events := es, root_ctx := x\<rparr>)" by blast
    with assms(3) Some w sig q True have "os' = (kill_group i os2)\<lparr>coins := cs, events := es, root_ctx := x\<rparr>"
      by (auto simp: stopCommand_def Let_def)
    with kill inv(2) show ?thesis by (simp add: owned_def pids_ok_def)
  qed
qed

lemma remove_opt_clean:
  assumes "syscall_faults os = []"
  shows "remove_opt f os = os\<lparr>tmp_files := tmp_files os |` (- set_option f)\<rparr>"
proof (cases f)
  case None
  then show ?thesis by (simp add: remove_opt_def restrict_map_def)
next
  case (Some path)
  have "(tmp_files os)(path := None) = tmp_files os |` (- {path})" by (auto simp: restrict_map_def)
  with Some assms show ?thesis by (simp add: remove_opt_def remove_file_def sys_fault_none Let_def)
qed

lemma StopExecutor_clean:
  assumes "exec_inv s os" and "syscall_faults os = []" and "StopExecutor cx s os = Some (r, s', os')"
  shows "\<not> active s' \<and> live os' = [] \<and> tmp_files os' = Map.empty \<and> cmdArgs s' = cmdArgs s \<and> exec_inv s' os'"
proof (cases "active s")
  case False
  with assms have "s' = s" "os' = os" "dom (tmp_files os) \<subseteq> {}" "live os = []"
    by (auto simp: StopExecutor_def exec_inv_def)
  with False assms(1) show ?thesis by auto
next
  case True
  let ?stop = "if exec_cmd s = None then Some (None, os) else stopCommand cx s os"
  from assms(3) True obtain os1 where st: "?stop = Some (r, os1)"
    and s': "s' = s\<lparr>exec_cmd := None, pgid := 0, cmdWaiter := None, configFile := None,
                  resultFile := None, active := False\<rparr>"
    and os': "os' = remove_opt (resultFile s) (remove_opt (configFile s) os1)"
    by (auto simp: StopExecutor_def split: option.splits)
  have clean: "live os1 = [] \<and> dom (tmp_files os1) = dom (tmp_files os) \<and> syscall_faults os1 = [] \<and> pids_ok os1"
  proof (cases "exec_cmd s = None")
    case True
    with st assms(1,2) show ?thesis by (simp add: exec_inv_def)
  next
    case False
    with st have "stopCommand cx s os = Some (r, os1)" by simp
    with assms(1,2) show ?thesis by (rule stopCommand_clean)
  qed
  have "dom (tmp_files os') = {}"
    using clean assms(1) by (auto simp: os' remove_opt_clean exec_inv_def)
  then have "tmp_files os' = Map.empty" by simp
  moreover have "live os' = []" "pids_ok os'" using clean by (simp_all add: os' remove_opt_clean pids_ok_def)
  ultimately show ?thesis by (simp add: s' exec_inv_def)
qed


section \<open>Getting the result\<close>

lemma read_file_eq:
  assumes "read_file path os = (r, os')"
  obtains fs where "os' = os\<lparr>syscall_faults := fs\<rparr>"
proof -
  obtain x os1 where f: "sys_fault os = (x, os1)" by fastforce
  obtain y os2 where g: "sys_fault os1 = (y, os2)" by fastforce
  from sys_fault_eq [OF f] obtain fs where fs: "os1 = os\<lparr>syscall_faults := fs\<rparr>" .
  from sys_fault_eq [OF g] obtain gs where "os2 = os1\<lparr>syscall_faults := gs\<rparr>" .
  with fs assms f g that show thesis
    by (auto simp: read_file_def split: option.splits)
qed

lemma exec_inv_frame:
  "exec_inv s (os\<lparr>coins := cs, events := es, root_ctx := x\<rparr>) = exec_inv s os"
  "exec_inv s (os\<lparr>syscall_faults := fs\<rparr>) = exec_inv s os"
  by (simp_all add: exec_inv_def pids_ok_def split: option.splits)

lemma exec_inv_Wait:
  assumes "exec_inv s os" and "cmdWaiter s = Some w" and "Wait cx w os = Some (r, w1, os1)"
  shows "exec_inv (s\<lparr>cmdWaiter := Some w1\<rparr>) os1"
proof -
  from assms(1,2) obtain c where c: "exec_cmd s = Some c" "Cmd w = c"
    by (auto simp: exec_inv_def split: option.splits)
  note cw = Wait_Cmd [OF assms(3)]
  show ?thesis
  proof (cases "Process c")
    case None
    with c(2) Wait_unstarted [OF assms(3)] obtain cs es x
      where os1: "os1 = os\<lparr>coins := cs, events := es, root_ctx := x\<rparr>" by blast
    from assms(1) have "exec_inv s os1" by (simp add: os1 exec_inv_frame)
    with c cw None show ?thesis by (auto simp: exec_inv_def)
  next
    case (Some i)
    from exec_inv_owned [OF assms(1) c(1) Some] have o: "owned i os" "pgid s = i" by blast+
    have p: "Process (Cmd w) = Some i" using c(2) Some by simp
    note inv = Wait_inv [OF assms(3) p o(1)]
    from assms(1) inv c o(2) Some show ?thesis
      by (auto simp: exec_inv_def owned_def)
  qed
qed

lemma exec_inv_GetResult [inv_intros]:
  assumes "exec_inv s os" and "GetResult cx s os = Some (r, s', os')"
  shows "exec_inv s' os' \<and> active s' = active s \<and> cmdArgs s' = cmdArgs s"
proof (cases "active s")
  case False
  with assms show ?thesis by (simp add: GetResult_def)
next
  case True
  with assms(2) obtain w q w1 os1 where w: "cmdWaiter s = Some w" "Wait cx w os = Some (q, w1, os1)"
    by (auto simp: GetResult_def split: option.splits)
  note inv = exec_inv_Wait [OF assms(1) w]
  show ?thesis
  proof (cases q)
    case (Some e)
    with True assms(2) w inv show ?thesis by (auto simp: GetResult_def)
  next
    case None
    with True assms(2) w obtain path where p: "resultFile s = Some path"
      by (auto simp: GetResult_def split: option.splits)
    obtain y os2 where y: "read_file path os1 = (y, os2)" by fastforce
    from read_file_eq [OF y] obtain fs where "os2 = os1\<lparr>syscall_faults := fs\<rparr>" .
    with True assms(2) w inv None p y show ?thesis by (auto simp: GetResult_def exec_inv_frame)
  qed
qed

text \<open>The process forks any number of times and then exits.\<close>

lemma find_append_live:
  "find P xs = Some p \<Longrightarrow> find P (xs @ ys) = Some p"
  by (induction xs) auto

lemma wait_select_exits:
  assumes "Process (Cmd c) = Some i" and "resChan c = EmptyChan" and "exits os i = None"
    and "find (\<lambda>p. proc_pid p = i) (live os) = Some p" and "tmp_files os (proc_out p) \<noteq> None"
    and "ctx_err os cx = None" and "syscall_faults os = []"
  shows "\<exists>os'. wait_select cx c (replicate k Forks @ ProcExits st out # evs) os =
      Some (st, c\<lparr>resChan := Holds st\<rparr>, os') \<and> tmp_files os' (proc_out p) = Some out \<and>
      syscall_faults os' = []"
  using assms
proof (induction k arbitrary: os)
  case 0
  then have "delivered os c = c" by (simp add: delivered_def)
  moreover have "ctx_err (happens i (ProcExits st out) os) cx = ctx_err os cx"
    by (rule ctx_err_cong) (simp add: 0)
  ultimately show ?case using 0
    by (auto simp: wait_select.simps [of cx c] Let_def delivered_def)
next
  case (Suc k)
  then have "delivered os c = c" by (simp add: delivered_def)
  moreover have "ctx_err (happens i Forks os) cx = ctx_err os cx"
    by (rule ctx_err_cong) (simp add: Suc)
  ultimately show ?case
    using Suc.prems Suc.IH [of "happens i Forks os"]
    by (simp add: wait_select.simps [of cx c "Forks # _"] Let_def find_append_live)
qed

text \<open>
  C35. \<open>GetResult\<close> returns what the game wrote.  After a successful \<open>Start\<close>, with the context
  not done, when the game process forks any number of times and then exits with status
  \<open>st\<close> having left \<open>out\<close> in the result file: \<open>GetResult\<close> returns \<open>out\<close> if the exit code is
  zero, and the exit error if it is not.
\<close>

theorem GetResult_returns_output:
  assumes "exec_inv s os" and "StartExecutor cfg s os = (None, s1, os1)"
    and "syscall_faults os1 = []" and "root_ctx os1 = None"
    and "events os1 = replicate k Forks @ ProcExits st out # evs"
  shows "\<exists>s2 os2. GetResult Root s1 os1 =
     Some (case st of None \<Rightarrow> Inr out | Some e \<Rightarrow> Inl e, s2, os2)"
  using assms(2)
proof (cases rule: StartExecutor_cases)
  case (started cf rf t k' fs c)
  let ?w = "NewCmdWaiter c" and ?i = "next_pid os"
  have s1: "active s1" "cmdWaiter s1 = Some ?w" "resultFile s1 = Some rf" using started by simp_all
  have fresh: "exits os ?i = None" "find (\<lambda>p. proc_pid p = ?i) (live os) = None"
    using assms(1) by (auto simp: exec_inv_def pids_ok_def find_None_iff)
  have f: "find (\<lambda>p. proc_pid p = ?i) (xs @ [\<lparr>proc_pid = ?i, proc_group = ?i, proc_out = rf\<rparr>]) =
      Some \<lparr>proc_pid = ?i, proc_group = ?i, proc_out = rf\<rparr>"
    if "find (\<lambda>p. proc_pid p = ?i) xs = None" for xs
    using that by (induction xs) (auto split: if_splits)
  have "settle os1 = os1" using assms(5) by (cases k) (auto simp: settle_def)
  moreover have "\<exists>os'. wait_select Root (?w\<lparr>resChan := EmptyChan\<rparr>)
      (replicate k Forks @ ProcExits st out # evs) os1 =
      Some (st, ?w\<lparr>resChan := EmptyChan, resChan := Holds st\<rparr>, os') \<and> tmp_files os' rf = Some out \<and>
      syscall_faults os' = []"
    using wait_select_exits [of "?w\<lparr>resChan := EmptyChan\<rparr>" ?i os1
        "\<lparr>proc_pid = ?i, proc_group = ?i, proc_out = rf\<rparr>" Root k st out evs]
      started fresh f [OF fresh(2)] assms(3,4) by (simp add: NewCmdWaiter_def)
  ultimately obtain os' w' where w: "Wait Root ?w os1 = Some (st, w', os')"
    "tmp_files os' rf = Some out" "syscall_faults os' = []"
    using assms(5) by (auto simp: Wait_def WaitAsync_def NewCmdWaiter_def)
  then show ?thesis
    using s1 by (cases st) (auto simp: GetResult_def read_file_def sys_fault_none)
qed simp_all

section \<open>Stopping returns\<close>

lemma wait_select_expires:
  assumes "can_expire cx" and "Expires \<in> set evs"
  shows "\<exists>y. wait_select cx c evs os = Some y"
  using assms(2)
proof (induction evs arbitrary: c os)
  case Nil
  then show ?case by simp
next
  case (Cons ev evs)
  show ?case
  proof (cases "ev = Expires")
    case True
    then show ?thesis using assms(1)
      by (subst wait_select.simps) (auto simp: Let_def split: res_chan.splits option.splits prod.splits)
  next
    case False
    with Cons.prems have "Expires \<in> set evs" by simp
    from Cons.IH [OF this] False show ?thesis
      by (subst wait_select.simps) (auto simp: Let_def split: res_chan.splits option.splits prod.splits)
  qed
qed

lemma settle_Expires: "Expires \<in> set (events os) \<Longrightarrow> Expires \<in> set (events (settle os))"
  by (auto simp: settle_def split: list.splits os_event.splits)

text \<open>
  C34. Stopping always ends, and cleans up.  \<open>Stop\<close> under a context with a timeout returns,
  whatever the game process does, provided the timeout expires some time; afterwards the
  executor is inactive, no process of the game is left, its own children included, and
  neither temporary file exists.  (The removal of the files and the kill themselves are
  taken to succeed; the code only logs their failures.)
\<close>

theorem Stop_leaves_nothing:
  assumes "exec_inv s os" and "syscall_faults os = []" and "Expires \<in> set (events os)"
  shows "\<exists>r s' os'. StopExecutor (WithTimeout cx) s os = Some (r, s', os') \<and>
     \<not> active s' \<and> live os' = [] \<and> tmp_files os' = Map.empty"
proof -
  have "\<exists>y. stopCommand (WithTimeout cx) s os = Some y"
  proof (cases "Option.bind (exec_cmd s) Process")
    case None
    then show ?thesis by (simp add: stopCommand_def)
  next
    case (Some i)
    then obtain c where c: "exec_cmd s = Some c" "Process c = Some i" by (cases "exec_cmd s") auto
    from exec_inv_owned [OF assms(1) c] obtain w where w: "cmdWaiter s = Some w" "Process (Cmd w) = Some i"
      "pgid s = i" "owned i os" .
    have sig: "signal_term os = (None, os)" using assms(2) by (simp add: signal_term_def sys_fault_none)
    have "\<exists>y. Wait (WithTimeout cx) (WaitAsync w) os = Some y"
      unfolding Wait_def Let_def by (rule wait_select_expires) (simp_all add: settle_Expires assms(3))
    then obtain q w1 os2 where q: "Wait (WithTimeout cx) (WaitAsync w) os = Some (q, w1, os2)" by auto
    note inv = Wait_inv [OF q, of i, unfolded WaitAsync_Cmd, OF w(2,4)]
    have "syscall_faults os2 = []" using inv(4) assms(2) by simp
    note kill = kill_group_owned [OF inv(1) this]
    have "ended w1 (kill_group i os2)" using kill(2) inv(3) w(2) by (simp add: ended_def)
    from Wait_ended [OF this, of Background] obtain r3 w3 os3
      where "Wait Background w1 (kill_group i os2) = Some (r3, w3, os3)" by blast
    with Some w sig q show ?thesis by (simp add: stopCommand_def Let_def)
  qed
  then obtain r s' os' where st: "StopExecutor (WithTimeout cx) s os = Some (r, s', os')"
    by (cases "active s"; cases "exec_cmd s = None") (auto simp: StopExecutor_def)
  from StopExecutor_clean [OF assms(1,2) st] st show ?thesis by blast
qed

text \<open>
  The waiter gives the same answer every time.  Once \<open>Wait\<close> has returned the exit status
  of the process, every later \<open>Wait\<close> under a context that is not done returns it again, at
  once, whatever has happened in between.
\<close>

theorem Wait_again:
  assumes "Wait Background c os = Some (r, c', os')"
  shows "\<exists>os3. Wait Background c' os2 = Some (r, c', os3)"
proof -
  have "resChan c' = Holds r" if "wait_select Background w evs o1 = Some (r, c', os')" for w evs o1
    using that
  proof (induction evs arbitrary: w o1)
    case Nil
    then show ?case
      by (auto simp: wait_select.simps [of Background w "[]"] Let_def split: res_chan.splits)
  next
    case (Cons ev evs)
    show ?case
    proof (cases "\<exists>q. resChan (delivered o1 w) = Holds q")
      case True
      with Cons.prems show ?thesis
        by (auto simp: wait_select.simps [of Background w "ev # evs"] Let_def)
    next
      case False
      then have "resChan (delivered o1 w) = NilChan \<or> resChan (delivered o1 w) = EmptyChan"
        by (metis res_chan.exhaust)
      with Cons show ?thesis
        by (auto simp: wait_select.simps [of Background w "ev # evs"] Let_def)
    qed
  qed
  with assms have h: "resChan c' = Holds r" by (auto simp: Wait_def Let_def)
  then have "delivered o1 (WaitAsync c') = c'" for o1
    by (simp add: delivered_def WaitAsync_def)
  with h show ?thesis
    by (auto simp: Wait_def wait_select.simps Let_def)
qed


text \<open>
  \<open>Start\<close> hands the match over to the game.  When it succeeds, the command line is the
  configured one followed by \<open>--match-config\<close> and \<open>--match-result\<close> with two different
  files; the first holds the configuration, the second is empty; and exactly one process
  was started, in a group of its own, which writes its result to the second.
\<close>

theorem Start_hands_over:
  assumes "StartExecutor cfg s os = (None, s', os')"
  shows "\<exists>cf rf c. exec_cmd s' = Some c \<and>
     command_line c = cmdArgs s @ [''--match-config'', cf, ''--match-result'', rf] \<and>
     cf \<noteq> rf \<and> tmp_files os' cf = Some cfg \<and> tmp_files os' rf = Some '''' \<and>
     live os' = live os @ [\<lparr>proc_pid = pgid s', proc_group = pgid s', proc_out = rf\<rparr>]"
  using assms
  by (cases rule: StartExecutor_cases) (simp_all add: generateCommand_def)

text \<open>
  A failed \<open>Start\<close> leaves the executor unusable until it is stopped.  Whatever system call
  fails, the executor is active afterwards, and then every further \<open>Start\<close> is refused with
  \<open>ErrExecutorAlreadyActive\<close> and does nothing.
\<close>

theorem failed_Start_blocks:
  assumes "StartExecutor cfg s os = (Some e, s', os')"
  shows "active s' \<and>
     StartExecutor cfg2 s' os2 = (Some (Sentinel ErrExecutorAlreadyActive), s', os2)"
  using assms
  by (cases rule: StartExecutor_cases) (auto simp: StartExecutor_def)

end
