(* ===== verification/Server_Props.thy ===== *)
theory Server_Props
  imports Server Executor_Props
begin

text \<open>
  The server over the executor of theory \<open>Executor\<close> and an arbitrary broker: what a match
  leaves of the executor, which reports are sent for a match, and how the loop ends.
\<close>

section \<open>The executor as a port\<close>

text \<open>\<open>internal.Executor\<close> over the executor's struct and the operating system.\<close>

definition executor_ops :: "(Executor \<times> os) Executor_ops" where
  "executor_ops =
     \<lparr>exec_Start = (\<lambda>cfg (s, os). StartExecutor cfg s os),
      exec_Stop = (\<lambda>cx (s, os). StopExecutor cx s os),
      exec_GetResult = (\<lambda>cx (s, os). GetResult cx s os)\<rparr>"

lemma StopExecutor_inactive:
  assumes "StopExecutor cx s os = Some (r, s', os')"
  shows "\<not> active s'"
  using assms by (auto simp: StopExecutor_def split: if_splits option.splits)

lemma GetResult_active:
  assumes "GetResult cx s os = Some (x, s', os')"
  shows "active s' = active s"
  using assms by (auto simp: GetResult_def Let_def split: if_splits option.splits prod.splits)

lemma StartExecutor_active:
  assumes "StartExecutor cfg s os = (r, s', os')"
  shows "active s'"
  using assms by (cases rule: StartExecutor_cases) simp_all

lemma StartExecutor_busy:
  "active s \<Longrightarrow> StartExecutor cfg s os = (Some (Sentinel ErrExecutorAlreadyActive), s, os)"
  by (simp add: StartExecutor_def)

interpretation executor: game_executor executor_ops "\<lambda>(s, os). active s"
  by unfold_locales
    (auto simp: executor_ops_def StartExecutor_busy dest: StartExecutor_active GetResult_active
      StopExecutor_inactive split: prod.splits)

section \<open>A server over an executor\<close>

text \<open>The executor in a larger world whose broker side leaves it alone.\<close>

locale game_server = game_executor "executor srv" is_active
  for srv :: "'w Server" and is_active :: "'w \<Rightarrow> bool" +
  assumes config_keeps: "gb_GetMatchConfig (broker srv) cx w = Some (c, w') \<Longrightarrow> is_active w' = is_active w"
    and cancel_keeps: "gb_SendCancel (broker srv) cx m w = (q, w') \<Longrightarrow> is_active w' = is_active w"
    and send_keeps: "gb_SendResult (broker srv) cx m b w = (q, w') \<Longrightarrow> is_active w' = is_active w"
begin

lemma runServer_inactive:
  assumes "runServer srv cx cfg w = Some (x, w')"
  shows "\<not> is_active w' \<or> (\<exists>e. x = Inl (Errorf ''failed to start server: %w'' [e]))"
  using assms
  by (auto simp: runServer_def stopServer_def dest: stop_inactive split: prod.splits option.splits)

lemma runServer_busy:
  assumes "is_active w"
  shows "runServer srv cx cfg w =
     Some (Inl (Errorf ''failed to start server: %w'' [Sentinel ErrExecutorAlreadyActive]), w)"
  by (simp add: runServer_def start_busy [OF assms])

lemma sendCancel_keeps: "is_active (sendCancel srv m w) = is_active w"
proof -
  obtain q w' where "gb_SendCancel (broker srv) (WithTimeout Background) m w = (q, w')" by fastforce
  with cancel_keeps [OF this] show ?thesis by (simp add: sendCancel_def)
qed

text \<open>A match leaves the executor inactive, unless the executor could not be started.\<close>

lemma runMatch_inactive:
  assumes "runMatch srv cx w = Some (r, w')" and "\<not> is_active w"
  shows "\<not> is_active w' \<or>
    (\<exists>e. r = Some (Errorf ''server execution failed: %w'' [Errorf ''failed to start server: %w'' [e]]))"
proof -
  obtain c w1 where g: "gb_GetMatchConfig (broker srv) cx w = Some (c, w1)"
    using assms(1) by (auto simp: runMatch_def split: option.splits)
  show ?thesis
  proof (cases c)
    case (Inl e)
    with assms g config_keeps [OF g] show ?thesis by (auto simp: runMatch_def)
  next
    case (Inr cfg)
    with assms(1) g obtain x w2 where x: "runServer srv cx (Config cfg) w1 = Some (x, w2)"
      by (auto simp: runMatch_def split: option.splits)
    show ?thesis
    proof (cases x)
      case (Inl e)
      with assms(1) g Inr x have r: "r = Some (Errorf ''server execution failed: %w'' [e])"
        and w': "w' = sendCancel srv (cfg_MatchID cfg) w2" by (auto simp: runMatch_def)
      from runServer_inactive [OF x] Inl show ?thesis by (auto simp: r w' sendCancel_keeps)
    next
      case (Inr res)
      with runServer_inactive [OF x] have i: "\<not> is_active w2" by simp
      obtain q w3 where s: "sendResult srv cx (cfg_MatchID cfg) res w2 = (q, w3)" by fastforce
      then have "\<not> is_active w3" using i send_keeps by (auto simp: sendResult_def)
      moreover from assms(1) g \<open>c = Inr cfg\<close> x Inr s
      have "w' = w3 \<or> w' = sendCancel srv (cfg_MatchID cfg) w3"
        by (auto simp: runMatch_def split: option.splits)
      ultimately show ?thesis by (auto simp: sendCancel_keeps)
    qed
  qed
qed

text \<open>With the executor active, no match is run: each one is cancelled at once.\<close>

lemma runMatch_busy:
  assumes "is_active w" and "gb_GetMatchConfig (broker srv) cx w = Some (Inr cfg, w1)"
  shows "runMatch srv cx w = Some
    (Some (Errorf ''server execution failed: %w''
       [Errorf ''failed to start server: %w'' [Sentinel ErrExecutorAlreadyActive]]),
     sendCancel srv (cfg_MatchID cfg) w1)"
    and "is_active (sendCancel srv (cfg_MatchID cfg) w1)"
proof -
  have a: "is_active w1" using config_keeps [OF assms(2)] assms(1) by simp
  then show "runMatch srv cx w = Some
    (Some (Errorf ''server execution failed: %w''
       [Errorf ''failed to start server: %w'' [Sentinel ErrExecutorAlreadyActive]]),
     sendCancel srv (cfg_MatchID cfg) w1)"
    by (simp add: runMatch_def assms(2) runServer_busy)
  show "is_active (sendCancel srv (cfg_MatchID cfg) w1)" using a by (simp add: sendCancel_keeps)
qed

end

text \<open>
  The server of the deployed wrapper: its executor with the operating system, next to a
  broker with a world \<open>'b\<close> of its own.
\<close>

type_synonym 'b game_world = "(Executor \<times> os) \<times> 'b"

definition on_broker :: "'b GameBroker_ops \<Rightarrow> 'b game_world GameBroker_ops" where
  "on_broker b =
     \<lparr>gb_Open = (\<lambda>t (x, w). case gb_Open b t w of (r, w') \<Rightarrow> (r, x, w')),
      gb_Close = (\<lambda>(x, w). case gb_Close b w of (r, w') \<Rightarrow> (r, x, w')),
      gb_GetMatchConfig = (\<lambda>cx (x, w). map_option (\<lambda>(r, w'). (r, x, w')) (gb_GetMatchConfig b cx w)),
      gb_SendCancel = (\<lambda>cx m (x, w). case gb_SendCancel b cx m w of (r, w') \<Rightarrow> (r, x, w')),
      gb_SendResult = (\<lambda>cx m d (x, w). case gb_SendResult b cx m d w of (r, w') \<Rightarrow> (r, x, w'))\<rparr>"

definition on_executor :: "(Executor \<times> os) Executor_ops \<Rightarrow> 'b game_world Executor_ops" where
  "on_executor e =
     \<lparr>exec_Start = (\<lambda>cfg (x, w). case exec_Start e cfg x of (r, x') \<Rightarrow> (r, x', w)),
      exec_Stop = (\<lambda>cx (x, w). map_option (\<lambda>(r, x'). (r, x', w)) (exec_Stop e cx x)),
      exec_GetResult = (\<lambda>cx (x, w). map_option (\<lambda>(r, x'). (r, x', w)) (exec_GetResult e cx x))\<rparr>"

definition deployed_server :: "'b GameBroker_ops \<Rightarrow> string list \<Rightarrow> 'b game_world Server" where
  "deployed_server b args = NewServer (on_broker b) (on_executor executor_ops) args"

lemma deployed_sel [simp]:
  "broker (deployed_server b args) = on_broker b"
  "executor (deployed_server b args) = on_executor executor_ops"
  by (simp_all add: deployed_server_def NewServer_def)

interpretation deployed: game_server "deployed_server b args" "\<lambda>((s, os), w). active s" for b args
proof (unfold_locales, goal_cases)
  case (1 cfg w r w')
  then show ?case
    using executor.start_active [of cfg "fst w" r "fst w'"]
    by (auto simp: on_executor_def split: prod.splits)
next
  case (2 w cfg)
  then show ?case
    using executor.start_busy [of "fst w" cfg] by (auto simp: on_executor_def split: prod.splits)
next
  case (3 cx w x w')
  then show ?case
    using executor.result_keeps [of cx "fst w" x "fst w'"]
    by (auto simp: on_executor_def split: prod.splits)
next
  case (4 cx w q w')
  then show ?case
    using executor.stop_inactive [of cx "fst w" q "fst w'"]
    by (auto simp: on_executor_def split: prod.splits)
qed (auto simp: on_broker_def split: prod.splits)

section \<open>Properties of a match\<close>

lemma StartExecutor_faultless:
  assumes "syscall_faults os = []" and "\<not> active s"
  shows "\<exists>s' os'. StartExecutor cfg s os = (None, s', os') \<and> syscall_faults os' = []"
  using assms
  by (simp add: StartExecutor_def createTempFile_def create_file_def write_file_def start_process_def
      sys_fault_none Let_def)

lemma Wait_faultless:
  assumes "exec_inv s os" and "cmdWaiter s = Some w" and "Wait cx w os = Some (r, w1, os1)"
  shows "syscall_faults os1 = syscall_faults os"
proof -
  from assms(1,2) obtain c where c: "exec_cmd s = Some c" "Cmd w = c"
    by (auto simp: exec_inv_def split: option.splits)
  show ?thesis
  proof (cases "Process c")
    case None
    with c(2) have "Process (Cmd w) = None" by simp
    with Wait_unstarted [OF assms(3)] obtain cs es x
      where "os1 = os\<lparr>coins := cs, events := es, root_ctx := x\<rparr>" by blast
    then show ?thesis by simp
  next
    case (Some i)
    from exec_inv_owned [OF assms(1) c(1) Some] have o: "owned i os" by blast
    have "Process (Cmd w) = Some i" using c(2) Some by simp
    from Wait_inv(4) [OF assms(3) this o] show ?thesis .
  qed
qed

lemma GetResult_faultless:
  assumes "exec_inv s os" and "GetResult cx s os = Some (x, s', os')" and "syscall_faults os = []"
  shows "syscall_faults os' = []"
proof (cases "active s")
  case False
  with assms(2,3) show ?thesis by (simp add: GetResult_def)
next
  case True
  with assms(2) obtain w q w1 os1 where w: "cmdWaiter s = Some w" "Wait cx w os = Some (q, w1, os1)"
    by (auto simp: GetResult_def split: option.splits)
  from Wait_faultless [OF assms(1) w] assms(3) have "syscall_faults os1 = []" by simp
  with True assms(2) w show ?thesis
    by (auto simp: GetResult_def read_file_def sys_fault_none Let_def split: option.splits)
qed

lemma deployed_runServer:
  "runServer (deployed_server b args) cx cfg ((s, os), w) =
     (case StartExecutor cfg s os of
        (Some e, s1, os1) \<Rightarrow> Some (Inl (Errorf ''failed to start server: %w'' [e]), (s1, os1), w)
      | (None, s1, os1) \<Rightarrow>
     (case GetResult cx s1 os1 of
        None \<Rightarrow> None
      | Some (x, s2, os2) \<Rightarrow>
     (case StopExecutor (WithTimeout cx) s2 os2 of
        None \<Rightarrow> None
      | Some (_, s3, os3) \<Rightarrow>
          Some (case x of Inl e \<Rightarrow> Inl (Errorf ''failed to get match result: %w'' [e]) | Inr res \<Rightarrow> Inr res,
                (s3, os3), w))))"
  by (simp add: runServer_def on_executor_def executor_ops_def stopServer_def
      split: prod.splits option.splits)

text \<open>What running the game leaves of the executor and the operating system.\<close>

lemma runServer_clean:
  assumes "runServer (deployed_server b args) cx cfg ((s, os), w) = Some (x, (s', os'), w')"
    and "exec_inv s os" and "\<not> active s" and "syscall_faults os = []"
  shows "\<not> active s' \<and> live os' = [] \<and> tmp_files os' = Map.empty"
proof -
  from StartExecutor_faultless [OF assms(4,3), of cfg] obtain s1 os1
    where s1: "StartExecutor cfg s os = (None, s1, os1)" "syscall_faults os1 = []" by blast
  from exec_inv_Start [OF assms(2) s1(1)] have i1: "exec_inv s1 os1" by blast
  from assms(1) s1 obtain y s2 os2 q where s2: "GetResult cx s1 os1 = Some (y, s2, os2)"
    and s3: "StopExecutor (WithTimeout cx) s2 os2 = Some (q, s', os')"
    by (auto simp: deployed_runServer split: option.splits)
  from exec_inv_GetResult [OF i1 s2] have "exec_inv s2 os2" by blast
  from StopExecutor_clean [OF this GetResult_faultless [OF i1 s2 s1(2)] s3] show ?thesis by blast
qed

text \<open>The broker's part of a match does not touch the executor.\<close>

lemma deployed_runMatch_cases:
  assumes "runMatch (deployed_server b args) cx (x, w) = Some (r, x', w')"
  obtains (no_config) e where "gb_GetMatchConfig b cx w = Some (Inl e, w')" and "x' = x"
      and "r = Some (Errorf ''get match config failed: %w'' [e])"
  | (failed) cfg w1 e q where "gb_GetMatchConfig b cx w = Some (Inr cfg, w1)"
      and "runServer (deployed_server b args) cx (Config cfg) (x, w1) = Some (Inl e, x', w1)"
      and "gb_SendCancel b (WithTimeout Background) (cfg_MatchID cfg) w1 = (q, w')"
      and "r = Some (Errorf ''server execution failed: %w'' [e])"
  | (unsent) cfg w1 res e w2 q where "gb_GetMatchConfig b cx w = Some (Inr cfg, w1)"
      and "runServer (deployed_server b args) cx (Config cfg) (x, w1) = Some (Inr res, x', w1)"
      and "gb_SendResult b (WithTimeout cx) (cfg_MatchID cfg) res w1 = (Some e, w2)"
      and "gb_SendCancel b (WithTimeout Background) (cfg_MatchID cfg) w2 = (q, w')"
      and "r = Some (Errorf ''failed to send result: %w'' [e])"
  | (sent) cfg w1 res where "gb_GetMatchConfig b cx w = Some (Inr cfg, w1)"
      and "runServer (deployed_server b args) cx (Config cfg) (x, w1) = Some (Inr res, x', w1)"
      and "gb_SendResult b (WithTimeout cx) (cfg_MatchID cfg) res w1 = (None, w')"
      and "r = None"
proof -
  have keep: "w2 = w1" if "runServer (deployed_server b args) cx cfg (x, w1) = Some (y, x2, w2)"
    for cfg w1 y x2 w2
    using that by (cases x) (auto simp: deployed_runServer split: option.splits prod.splits)
  obtain c w1 where g: "gb_GetMatchConfig b cx w = Some (c, w1)"
    using assms by (auto simp: runMatch_def on_broker_def split: option.splits)
  show thesis
  proof (cases c)
    case (Inl e)
    with assms g show thesis by (intro no_config [of e]) (simp_all add: runMatch_def on_broker_def)
  next
    case (Inr cfg)
    note g = g [unfolded Inr]
    obtain y x2 w2 where y: "runServer (deployed_server b args) cx (Config cfg) (x, w1) = Some (y, x2, w2)"
      using assms g by (auto simp: runMatch_def on_broker_def split: option.splits)
    note y = y [unfolded keep [OF y]]
    show thesis
    proof (cases y)
      case (Inl e)
      obtain q w3 where c: "gb_SendCancel b (WithTimeout Background) (cfg_MatchID cfg) w1 = (q, w3)"
        by fastforce
      from assms g y c Inl have "r = Some (Errorf ''server execution failed: %w'' [e])" "x' = x2" "w' = w3"
        by (simp_all add: runMatch_def on_broker_def sendCancel_def)
      with g y c Inl show thesis by (intro failed [of cfg w1 e q]) simp_all
    next
      case (Inr res)
      obtain f w3 where f: "gb_SendResult b (WithTimeout cx) (cfg_MatchID cfg) res w1 = (f, w3)" by fastforce
      show thesis
      proof (cases f)
        case None
        with assms g y f Inr have "r = None" "x' = x2" "w' = w3"
          by (simp_all add: runMatch_def on_broker_def sendResult_def)
        with g y f Inr None show thesis by (intro sent [of cfg w1 res]) simp_all
      next
        case (Some e)
        obtain q w4 where c: "gb_SendCancel b (WithTimeout Background) (cfg_MatchID cfg) w3 = (q, w4)"
          by fastforce
        from assms g y f c Inr Some
        have "r = Some (Errorf ''failed to send result: %w'' [e])" "x' = x2" "w' = w4"
          by (simp_all add: runMatch_def on_broker_def sendResult_def sendCancel_def)
        with g y f c Inr Some show thesis by (intro unsent [of cfg w1 res e w3 q]) simp_all
      qed
    qed
  qed
qed



section \<open>Reports\<close>

text \<open>
  The broker's operations with a log of the reports asked for: a match's ID with its result,
  or with none for a cancel.
\<close>

definition logging :: "'b GameBroker_ops \<Rightarrow> ('b \<times> (int \<times> bytes option) list) GameBroker_ops" where
  "logging b =
     \<lparr>gb_Open = (\<lambda>t (w, log). case gb_Open b t w of (r, w') \<Rightarrow> (r, w', log)),
      gb_Close = (\<lambda>(w, log). case gb_Close b w of (r, w') \<Rightarrow> (r, w', log)),
      gb_GetMatchConfig = (\<lambda>cx (w, log). map_option (\<lambda>(r, w'). (r, w', log)) (gb_GetMatchConfig b cx w)),
      gb_SendCancel = (\<lambda>cx m (w, log). case gb_SendCancel b cx m w of (r, w') \<Rightarrow> (r, w', log @ [(m, None)])),
      gb_SendResult = (\<lambda>cx m d (w, log).
        case gb_SendResult b cx m d w of (r, w') \<Rightarrow> (r, w', log @ [(m, Some d)]))\<rparr>"


section \<open>The loop\<close>

text \<open>The last error and the world after \<open>n\<close> iterations that the loop goes on after.\<close>

fun served ::
    "('w \<Rightarrow> go_error option) \<Rightarrow> (go_error option \<Rightarrow> 'w \<Rightarrow> 'w) \<Rightarrow> 'w Server \<Rightarrow> nat \<Rightarrow> go_error option \<Rightarrow> 'w \<Rightarrow>
     (go_error option \<times> 'w) option" where
  "served ctxErr backoff srv 0 err w = Some (err, w)"
| "served ctxErr backoff srv (Suc n) err w =
     (if ctxErr w \<noteq> None then None
      else case runMatch srv Root (backoff err w) of
        None \<Rightarrow> None
      | Some (r, w1) \<Rightarrow> if error_is r Canceled then None else served ctxErr backoff srv n r w1)"

lemma Run_loop_served:
  assumes "served ctxErr backoff srv n err w = Some (e, w1)"
  shows "Run_loop ctxErr backoff srv err w = Run_loop ctxErr backoff srv e w1"
  using assms
proof (induction n arbitrary: err w)
  case 0
  then show ?case by simp
next
  case (Suc n)
  then obtain r w2 where "ctxErr w = None" "runMatch srv Root (backoff err w) = Some (r, w2)"
    "\<not> error_is r Canceled" "served ctxErr backoff srv n r w2 = Some (e, w1)"
    by (auto split: if_splits option.splits)
  with Suc.IH show ?case by (simp add: Run_loop.simps [of _ _ _ err])
qed

text \<open>How the loop ended: the context was done, or a match failed with a cancellation.\<close>

definition loop_exit ::
    "('w \<Rightarrow> go_error option) \<Rightarrow> (go_error option \<Rightarrow> 'w \<Rightarrow> 'w) \<Rightarrow> 'w Server \<Rightarrow> go_error option \<Rightarrow> 'w \<Rightarrow>
     go_error option \<times> 'w \<Rightarrow> bool" where
  "loop_exit ctxErr backoff srv e w y =
     (case ctxErr w of
        Some c \<Rightarrow> y = (Some c, w)
      | None \<Rightarrow>
     (case runMatch srv Root (backoff e w) of
        None \<Rightarrow> False
      | Some (q, w1) \<Rightarrow> error_is q Canceled \<and> y = (ctxErr w1, w1)))"

lemma Run_loop_returned:
  assumes "Run_loop ctxErr backoff srv err w = Some y"
  shows "\<exists>n e w1. served ctxErr backoff srv n err w = Some (e, w1) \<and> loop_exit ctxErr backoff srv e w1 y"
proof (rule Run_loop.raw_induct
    [where P = "\<lambda>ctxErr backoff srv err w y.
       \<exists>n e w1. served ctxErr backoff srv n err w = Some (e, w1) \<and> loop_exit ctxErr backoff srv e w1 y",
     OF _ assms], goal_cases)
  case (1 loop ctxErr backoff srv err w y)
  show ?case
  proof (cases "loop_exit ctxErr backoff srv err w y")
    case True
    then show ?thesis by (intro exI [of _ 0] exI [of _ err] exI [of _ w]) simp
  next
    case False
    with 1(2) obtain r w2 where r: "ctxErr w = None" "runMatch srv Root (backoff err w) = Some (r, w2)"
      "\<not> error_is r Canceled" and l: "loop ctxErr backoff srv r w2 = Some y"
      by (auto simp: loop_exit_def split: if_splits option.splits)
    from 1(1) [OF l] obtain n e w1 where "served ctxErr backoff srv n r w2 = Some (e, w1)"
      "loop_exit ctxErr backoff srv e w1 y" by blast
    with r show ?thesis by (intro exI [of _ "Suc n"] exI [of _ e] exI [of _ w1]) simp
  qed
qed

lemma Run_loop_exit: "loop_exit ctxErr backoff srv e w y \<Longrightarrow> Run_loop ctxErr backoff srv e w = Some y"
  by (subst Run_loop.simps) (auto simp: loop_exit_def split: option.splits prod.splits)

text \<open>
  The server goes on until its context is done.  On an open server \<open>Run\<close> returns exactly
  when, after some number of matches, successful or failed, the context is found done or a
  match ends with a cancellation; and what it returns is the context's error.  A failed
  match by itself never ends it.
\<close>

theorem Run_returns_iff:
  assumes "srv_opened srv" and "\<not> srv_closed srv"
  shows "RunServerLoop ctxErr backoff srv w = Some y \<longleftrightarrow>
    (\<exists>n e w1. served ctxErr backoff srv n None w = Some (e, w1) \<and>
      (case ctxErr w1 of
         Some c \<Rightarrow> y = (Some c, w1)
       | None \<Rightarrow>
      (case runMatch srv Root (backoff e w1) of
         None \<Rightarrow> False
       | Some (q, w2) \<Rightarrow> error_is q Canceled \<and> y = (ctxErr w2, w2))))"
  unfolding loop_exit_def [symmetric]
proof
  assume "RunServerLoop ctxErr backoff srv w = Some y"
  with assms have "Run_loop ctxErr backoff srv None w = Some y" by (simp add: RunServerLoop_def)
  from Run_loop_returned [OF this]
  show "\<exists>n e w1. served ctxErr backoff srv n None w = Some (e, w1) \<and> loop_exit ctxErr backoff srv e w1 y" .
next
  assume "\<exists>n e w1. served ctxErr backoff srv n None w = Some (e, w1) \<and> loop_exit ctxErr backoff srv e w1 y"
  then obtain n e w1 where s: "served ctxErr backoff srv n None w = Some (e, w1)"
    and x: "loop_exit ctxErr backoff srv e w1 y" by blast
  from Run_loop_served [OF s] Run_loop_exit [OF x] assms
  show "RunServerLoop ctxErr backoff srv w = Some y" by (simp add: RunServerLoop_def)
qed

text \<open>
  A closed server is finished.  Closing an open server stops a game that still runs, so
  that none of its processes and files are left, and afterwards \<open>Open\<close>, \<open>Run\<close> and \<open>Close\<close>
  all refuse with \<open>ErrServerAlreadyClosed\<close> and do nothing.
\<close>

theorem closed_for_good:
  assumes "CloseServer ((deployed_server b args)\<lparr>srv_opened := True\<rparr>) ((s, os), w) = Some (r, srv', (s', os'), w')"
    and "exec_inv s os" and "syscall_faults os = []"
  shows "\<not> active s' \<and> live os' = [] \<and> tmp_files os' = Map.empty \<and>
    OpenServer srv' v = (Some (Sentinel ErrServerAlreadyClosed), srv', v) \<and>
    RunServerLoop ctxErr backoff srv' v = Some (Some (Sentinel ErrServerAlreadyClosed), v) \<and>
    CloseServer srv' v = Some (Some (Sentinel ErrServerAlreadyClosed), srv', v)"
proof -
  have nc: "\<not> srv_closed (deployed_server b args)" by (simp add: deployed_server_def NewServer_def)
  with assms(1) obtain q where q: "StopExecutor (WithTimeout Background) s os = Some (q, s', os')"
    by (auto simp: CloseServer_def stopServer_def on_executor_def executor_ops_def on_broker_def Let_def
        split: option.splits prod.splits)
  from assms(1) nc have "srv_opened srv'" "srv_closed srv'"
    by (auto simp: CloseServer_def Let_def split: option.splits prod.splits)
  with StopExecutor_clean [OF assms(2,3) q] show ?thesis
    by (simp add: OpenServer_def RunServerLoop_def CloseServer_def)
qed

end
