(* ===== verification/Game_Instances.thy ===== *)
theory Game_Instances
  imports Server_Props
begin

text \<open>
  Concrete instances of the properties of the executor and the server: an executor on a
  machine without other processes, and a broker that hands out one match.
\<close>

section \<open>A machine\<close>

definition ex_os :: "go_error option list \<Rightarrow> os_event list \<Rightarrow> os" where
  "ex_os fs evs =
     \<lparr>tmp_files = Map.empty, next_tmp = 0, live = [], exits = Map.empty, next_pid = 1,
      syscall_faults = fs, events = evs, coins = [], root_ctx = None\<rparr>"

definition ex_exec :: Executor where
  "ex_exec = NewExecutor [''./game'']"

text \<open>The game forks once, writes its result and exits; a timeout expires later.\<close>

definition ex_evs :: "os_event list" where
  "ex_evs = [Forks, ProcExits None ''{}'', Expires]"

text \<open>The executor and the machine after a successful start.\<close>

definition ex_started :: "go_error option \<times> Executor \<times> os" where
  "ex_started = StartExecutor ''{}'' ex_exec (ex_os [] ex_evs)"

lemma ex_inv: "exec_inv ex_exec (ex_os fs evs)"
  by (simp add: exec_inv_def pids_ok_def ex_exec_def ex_os_def NewExecutor_def)

lemmas eval_exec = StartExecutor_def createTempFile_def create_file_def write_file_def start_process_def
  sys_fault_def ex_exec_def ex_os_def NewExecutor_def NewCmdWaiter_def generateCommand_def Let_def

lemma ex_start:
  obtains s os where "StartExecutor ''{}'' ex_exec (ex_os [] ex_evs) = (None, s, os)" and "active s"
    and "syscall_faults os = []" and "root_ctx os = None" and "events os = ex_evs"
  using that by (simp add: eval_exec)

lemma ex_failed_start:
  obtains s os where "StartExecutor ''{}'' ex_exec (ex_os [Some (External ''EMFILE'')] []) =
      (Some (Errorf ''%w: %w'' [Sentinel ErrFailedToCreateTempFile, External ''EMFILE'']), s, os)"
    and "active s"
  using that by (simp add: eval_exec)

section \<open>Witnesses for the executor\<close>

theorem GetResult_returns_output_witness:
  "\<exists>s os s2 os2. StartExecutor ''{}'' ex_exec (ex_os [] ex_evs) = (None, s, os) \<and>
     GetResult Root s os = Some (Inr ''{}'', s2, os2)"
proof -
  obtain s os where s: "StartExecutor ''{}'' ex_exec (ex_os [] ex_evs) = (None, s, os)" "active s"
    "syscall_faults os = []" "root_ctx os = None" "events os = ex_evs" by (rule ex_start)
  have "events os = replicate 1 Forks @ ProcExits None ''{}'' # [Expires]" by (simp add: s ex_evs_def)
  from GetResult_returns_output [OF ex_inv s(1,3,4) this]
  obtain s2 os2 where "GetResult Root s os = Some (Inr ''{}'', s2, os2)" by auto
  with s(1) show ?thesis by (intro exI [of _ s] exI [of _ os] exI [of _ s2] exI [of _ os2] conjI)
qed

theorem Stop_leaves_nothing_witness:
  "\<exists>s os r s' os'. StartExecutor ''{}'' ex_exec (ex_os [] ex_evs) = (None, s, os) \<and>
     StopExecutor (WithTimeout Root) s os = Some (r, s', os') \<and> live os' = []"
proof -
  obtain s os where s: "StartExecutor ''{}'' ex_exec (ex_os [] ex_evs) = (None, s, os)" "active s"
    "syscall_faults os = []" "root_ctx os = None" "events os = ex_evs" by (rule ex_start)
  from exec_inv_Start [OF ex_inv s(1)] have i: "exec_inv s os" by blast
  have e: "Expires \<in> set (events os)" by (simp add: s ex_evs_def)
  from Stop_leaves_nothing [OF i s(3) e, of Root] s(1) show ?thesis by blast
qed

theorem Wait_again_witness:
  "\<exists>c os3. Wait Background c (ex_os [] []) = Some (Some (External ''exec: not started''), c, os3)"
proof -
  let ?w = "NewCmdWaiter \<lparr>command_line = [''./game''], Process = None\<rparr>"
  let ?c = "?w\<lparr>resChan := Holds (Some (External ''exec: not started''))\<rparr>"
  have "\<exists>os. Wait Background ?w (ex_os [] []) = Some (Some (External ''exec: not started''), ?c, os)"
    by (simp add: Wait_def wait_select.simps WaitAsync_def delivered_def NewCmdWaiter_def ex_os_def
        settle_def Let_def)
  then obtain os where "Wait Background ?w (ex_os [] []) = Some (Some (External ''exec: not started''), ?c, os)"
    by (rule exE)
  from Wait_again [OF this, of "ex_os [] []"] show ?thesis by (rule exI)
qed

theorem Start_hands_over_witness:
  "\<exists>s os c. StartExecutor ''{}'' ex_exec (ex_os [] ex_evs) = (None, s, os) \<and> exec_cmd s = Some c \<and>
     hd (command_line c) = ''./game''"
proof -
  obtain s os where s: "StartExecutor ''{}'' ex_exec (ex_os [] ex_evs) = (None, s, os)" "active s"
    "syscall_faults os = []" "root_ctx os = None" "events os = ex_evs" by (rule ex_start)
  from Start_hands_over [OF s(1)] obtain c cf rf where "exec_cmd s = Some c"
    "command_line c = cmdArgs ex_exec @ [''--match-config'', cf, ''--match-result'', rf]" by (elim exE conjE)
  with s(1) show ?thesis
    by (intro exI [of _ s] exI [of _ os] exI [of _ c]) (simp add: ex_exec_def NewExecutor_def)
qed

theorem failed_Start_blocks_witness:
  "\<exists>s os. fst (StartExecutor ''{}'' ex_exec (ex_os [Some (External ''EMFILE'')] [])) \<noteq> None \<and>
     fst (StartExecutor ''{}'' s os) = Some (Sentinel ErrExecutorAlreadyActive)"
proof -
  obtain s os where s: "StartExecutor ''{}'' ex_exec (ex_os [Some (External ''EMFILE'')] []) =
      (Some (Errorf ''%w: %w'' [Sentinel ErrFailedToCreateTempFile, External ''EMFILE'']), s, os)" "active s"
    by (rule ex_failed_start)
  from failed_Start_blocks [OF s(1), of "''{}''" os]
  have "StartExecutor ''{}'' s os = (Some (Sentinel ErrExecutorAlreadyActive), s, os)" by blast
  with s(1) show ?thesis by (intro exI [of _ s] exI [of _ os]) simp
qed

section \<open>A broker with one match\<close>

text \<open>It hands out the configurations it holds; when there are none left it blocks.\<close>

definition ex_broker :: "MatchConfig list GameBroker_ops" where
  "ex_broker =
     \<lparr>gb_Open = (\<lambda>t w. (None, w)), gb_Close = (\<lambda>w. (None, w)),
      gb_GetMatchConfig = (\<lambda>cx w. case w of [] \<Rightarrow> None | c # cs \<Rightarrow> Some (Inr c, cs)),
      gb_SendCancel = (\<lambda>cx m w. (None, w)), gb_SendResult = (\<lambda>cx m d w. (None, w))\<rparr>"

definition ex_config :: MatchConfig where
  "ex_config = \<lparr>cfg_MatchID = 7, Config = ''{}''\<rparr>"

lemmas eval_game = eval_exec GetResult_def Wait_def wait_select.simps WaitAsync_def delivered_def settle_def
  StopExecutor_def stopCommand_def signal_term_def kill_group_def remove_opt_def remove_file_def
  read_file_def ex_evs_def

lemma ex_run:
  obtains s os where "runServer (deployed_server b args) Root ''{}'' ((ex_exec, ex_os [] ex_evs), w) =
    Some (Inr ''{}'', (s, os), w)"
  using that by (simp add: deployed_runServer eval_game)

lemma ex_config_sel [simp]: "cfg_MatchID ex_config = 7" "Config ex_config = ''{}''"
  by (simp_all add: ex_config_def)

lemma ex_match:
  obtains s os where "runMatch (deployed_server ex_broker args) Root
    ((ex_exec, ex_os [] ex_evs), [ex_config]) = Some (None, (s, os), [])"
proof -
  obtain s os where "runServer (deployed_server ex_broker args) Root ''{}''
    ((ex_exec, ex_os [] ex_evs), []) = Some (Inr ''{}'', (s, os), [])" by (rule ex_run)
  then show thesis
    by (intro that [of s os]) (simp add: runMatch_def on_broker_def ex_broker_def sendResult_def)
qed

lemma ex_logged_match:
  obtains s os where "runMatch (deployed_server (logging ex_broker) args) Root
    ((ex_exec, ex_os [] ex_evs), [ex_config], []) = Some (None, (s, os), [], [(7, Some ''{}'')])"
proof -
  obtain s os where "runServer (deployed_server (logging ex_broker) args) Root ''{}''
    ((ex_exec, ex_os [] ex_evs), [], []) = Some (Inr ''{}'', (s, os), [], [])" by (rule ex_run)
  then show thesis
    by (intro that [of s os]) (simp add: runMatch_def on_broker_def logging_def ex_broker_def sendResult_def)
qed

section \<open>Witnesses for the server\<close>




theorem Run_returns_iff_witness:
  "RunServerLoop (\<lambda>_. Some (Sentinel Canceled)) (\<lambda>_ w. w)
     ((deployed_server ex_broker [])\<lparr>srv_opened := True\<rparr>) ((ex_exec, ex_os [] []), []) =
   Some (Some (Sentinel Canceled), (ex_exec, ex_os [] []), [])"
proof -
  let ?srv = "(deployed_server ex_broker [])\<lparr>srv_opened := True\<rparr>"
  let ?w = "((ex_exec, ex_os [] []), [])"
  have "srv_opened ?srv" "\<not> srv_closed ?srv" by (simp_all add: deployed_server_def NewServer_def)
  moreover have "served (\<lambda>_. Some (Sentinel Canceled)) (\<lambda>_ w. w) ?srv 0 None ?w = Some (None, ?w)" by simp
  ultimately show ?thesis
    by (subst Run_returns_iff) (blast | (intro exI [of _ 0] exI [of _ None] exI [of _ ?w]; simp))+
qed

theorem closed_for_good_witness:
  "\<exists>r srv s os. CloseServer ((deployed_server ex_broker [])\<lparr>srv_opened := True\<rparr>) ((ex_exec, ex_os [] []), []) =
     Some (r, srv, (s, os), []) \<and> OpenServer srv ((s, os), []) = (Some (Sentinel ErrServerAlreadyClosed), srv, (s, os), [])"
proof -
  let ?srv = "(deployed_server ex_broker [])\<lparr>srv_opened := True\<rparr>"
  have c: "CloseServer ?srv ((ex_exec, ex_os [] []), []) =
    Some (None, ?srv\<lparr>srv_closed := True\<rparr>, (ex_exec, ex_os [] []), [])"
    by (simp add: CloseServer_def stopServer_def on_executor_def executor_ops_def on_broker_def ex_broker_def
        StopExecutor_def ex_exec_def NewExecutor_def deployed_server_def NewServer_def)
  have "syscall_faults (ex_os [] []) = []" by (simp add: ex_os_def)
  from closed_for_good [OF c ex_inv this] c show ?thesis by blast
qed

end
