(* ===== verification/Config.thy ===== *)
theory Config
  imports Types
begin

text \<open>
  \<open>server-manager/config/env.go\<close> and \<open>game-server/host/config/env.go\<close>: reading and validating the
  configuration.  The environment parser (\<open>caarlos0/env\<close>), the port parser of the Docker API
  package and the shell splitter are third-party functions, arguments of the definitions;
  \<open>slog.Level\<close> is the standard library's.
\<close>

section \<open>Log levels\<close>

definition LevelDebug :: log_level where "LevelDebug = - 4"
definition LevelInfo :: log_level where "LevelInfo = 0"
definition LevelWarn :: log_level where "LevelWarn = 4"
definition LevelError :: log_level where "LevelError = 8"

text \<open>The verb \<open>%+d\<close>.\<close>

definition signed_decimal :: "int \<Rightarrow> string" where
  "signed_decimal i = (if i < 0 then CHR ''-'' # Itoa (nat (- i)) else CHR ''+'' # Itoa (nat i))"

definition level_with_offset :: "string \<Rightarrow> int \<Rightarrow> string" where
  "level_with_offset base off = (if off = 0 then base else base @ signed_decimal off)"

definition level_String :: "log_level \<Rightarrow> string" where
  "level_String l =
     (if l < LevelInfo then level_with_offset ''DEBUG'' (l - LevelDebug)
      else if l < LevelWarn then level_with_offset ''INFO'' (l - LevelInfo)
      else if l < LevelError then level_with_offset ''WARN'' (l - LevelWarn)
      else level_with_offset ''ERROR'' (l - LevelError))"

text \<open>\<open>strconv.Atoi\<close>.\<close>

definition Atoi :: "string \<Rightarrow> int option" where
  "Atoi s =
     (let signed = (take 1 s = ''+'' \<or> take 1 s = ''-''); ds = (if signed then drop 1 s else s) in
      if ds \<noteq> [] \<and> list_all (\<lambda>c. 48 \<le> (of_char c :: nat) \<and> (of_char c :: nat) \<le> 57) ds
      then let n = int (digits_val ds); i = (if take 1 s = ''-'' then - n else n)
           in if - (2 ^ 63) \<le> i \<and> i < 2 ^ 63 then Some i else None
      else None)"

text \<open>
  \<open>strings.ToUpper\<close>, as far as it matters for the four names: ASCII letters, and U+0131 (a
  dotless i), whose upper case is an ASCII letter of one of them.
\<close>

fun ToUpper :: "string \<Rightarrow> string" where
  "ToUpper [] = []"
| "ToUpper (c # cs) =
     (if c = CHR 0xC4 \<and> take 1 cs = [CHR 0xB1] then CHR ''I'' # ToUpper (drop 1 cs)
      else (if 97 \<le> (of_char c :: nat) \<and> (of_char c :: nat) \<le> 122
            then char_of (of_char c - 32 :: nat) else c) # ToUpper cs)"

definition level_base :: "string \<Rightarrow> log_level option" where
  "level_base name =
     (if name = ''DEBUG'' then Some LevelDebug else if name = ''INFO'' then Some LevelInfo
      else if name = ''WARN'' then Some LevelWarn else if name = ''ERROR'' then Some LevelError else None)"

text \<open>\<open>Level.UnmarshalText\<close>: a name, case-insensitive, with an optional signed offset.\<close>

definition is_sign :: "char \<Rightarrow> bool" where
  "is_sign c = (c \<in> set ''+-'')"

definition parseLogLevel :: "string \<Rightarrow> go_error + log_level" where
  "parseLogLevel s =
     (let name = takeWhile (\<lambda>c. \<not> is_sign c) s; rest = dropWhile (\<lambda>c. \<not> is_sign c) s in
      case (if rest = [] then Some 0 else Atoi rest) of
        None \<Rightarrow> Inl (External ''slog: level string: invalid syntax'')
      | Some offset \<Rightarrow>
     (case level_base (ToUpper name) of
        None \<Rightarrow> Inl (External ''slog: level string: unknown name'')
      | Some l \<Rightarrow> Inr (wrap64 (l + offset))))"

section \<open>The server-manager\<close>

record parsedConfig =
  pc_Image :: string
  pc_WorkerCount :: int
  pc_ExposePorts :: "string list"
  pc_ClientPort :: string
  pc_BrokerURI :: string
  pc_BrokerNetworkName :: string
  pc_PublicHost :: string
  pc_PlayersPerRoom :: int
  pc_DatabaseURI :: string
  pc_LogLevel :: string
  pc_GameServerLogLevel :: string

fun parsePorts :: "(string \<Rightarrow> go_error + port) \<Rightarrow> string list \<Rightarrow> port set \<Rightarrow> go_error + port set" where
  "parsePorts ParsePort [] ports = Inr ports"
| "parsePorts ParsePort (s # ss) ports =
     (case ParsePort s of
        Inl e \<Rightarrow> Inl (Errorf ''%w: %w'' [Sentinel ErrInvalidPortString, e])
      | Inr p \<Rightarrow> parsePorts ParsePort ss (insert p ports))"

text \<open>The first argument is what \<open>env.Parse\<close> returns.\<close>

definition ReadConfig ::
    "go_error + parsedConfig \<Rightarrow> (string \<Rightarrow> go_error + port) \<Rightarrow> go_error + EnvConfig" where
  "ReadConfig parsed ParsePort =
     (case parsed of
        Inl e \<Rightarrow> Inl e
      | Inr c \<Rightarrow>
      if pc_WorkerCount c < 1 then Inl (Sentinel ErrWorkerCountNotPositive)
      else if pc_PlayersPerRoom c < 2 then Inl (Sentinel ErrTooFewPlayersPerRoom)
      else case parsePorts ParsePort (pc_ExposePorts c) {} of
        Inl e \<Rightarrow> Inl e
      | Inr exposePorts \<Rightarrow>
     (case ParsePort (pc_ClientPort c) of
        Inl e \<Rightarrow> Inl (Errorf ''%w: %w'' [Sentinel ErrInvalidPortString, e])
      | Inr clientPort \<Rightarrow>
      if clientPort \<notin> exposePorts then Inl (Sentinel ErrClientPortNotInExposed)
      else case parseLogLevel (pc_LogLevel c) of
        Inl e \<Rightarrow> Inl (Errorf ''%w: %w'' [Sentinel ErrInvalidLogLevel, e])
      | Inr logLevel \<Rightarrow>
     (case parseLogLevel (pc_GameServerLogLevel c) of
        Inl e \<Rightarrow> Inl (Errorf ''%w: %w'' [Sentinel ErrInvalidGameServerLogLevel, e])
      | Inr gameServerLogLevel \<Rightarrow>
          Inr \<lparr>Image = pc_Image c, Workercount = pc_WorkerCount c, ExposePorts = exposePorts,
               ClientPort = clientPort, BrokerURI = pc_BrokerURI c,
               BrokerNetworkName = pc_BrokerNetworkName c, PublicHost = pc_PublicHost c,
               DatabaseURI = pc_DatabaseURI c, PlayersPerRoom = pc_PlayersPerRoom c,
               LogLevel = logLevel, GameServerLogLevel = gameServerLogLevel,
               TestMakeContainerDummy = False\<rparr>)))"

section \<open>The game-server\<close>

record gameConfig =
  game_BrokerURI :: string
  game_WorkerID :: string
  game_LogLevel :: log_level
  GameServerArgs :: "string list"

record gameParsedConfig =
  gpc_BrokerURI :: string
  gpc_LogLevel :: string
  gpc_WorkerID :: string

definition parseArgs :: "(string \<Rightarrow> go_error + string list) \<Rightarrow> string list \<Rightarrow> go_error + string list" where
  "parseArgs Split args =
     (if length args \<noteq> 2 then Inl (External ''expected 1 argument'')
      else case Split (args ! 1) of
        Inl e \<Rightarrow> Inl (Errorf ''failed to parse command: %w'' [e])
      | Inr cmdArgs \<Rightarrow> Inr cmdArgs)"

definition ReadGameConfig ::
    "go_error + gameParsedConfig \<Rightarrow> (string \<Rightarrow> go_error + string list) \<Rightarrow> string list \<Rightarrow>
     go_error + gameConfig" where
  "ReadGameConfig parsed Split args =
     (case parsed of
        Inl e \<Rightarrow> Inl e
      | Inr c \<Rightarrow>
     (case parseArgs Split args of
        Inl e \<Rightarrow> Inl (Errorf ''%w, Usage'' [e])
      | Inr gameServerArgs \<Rightarrow>
     (case parseLogLevel (gpc_LogLevel c) of
        Inl e \<Rightarrow> Inl (Errorf ''%w: %w'' [Sentinel ErrInvalidLogLevel, e])
      | Inr logLevel \<Rightarrow>
          Inr \<lparr>game_BrokerURI = gpc_BrokerURI c, game_WorkerID = gpc_WorkerID c,
               game_LogLevel = logLevel, GameServerArgs = gameServerArgs\<rparr>)))"

section \<open>Properties\<close>

lemma digits_ok: "list_all (\<lambda>c. 48 \<le> (of_char c :: nat) \<and> (of_char c :: nat) \<le> 57) (Itoa n)"
proof (induction n rule: Itoa.induct)
  case (1 n)
  have d: "48 \<le> (of_char (digit_char k) :: nat) \<and> (of_char (digit_char k) :: nat) \<le> 57" if "k < 10" for k
    using that by (simp add: digit_char_def)
  show ?case
    using 1 by (subst Itoa.simps) (simp add: d)
qed

lemma Atoi_signed_decimal: "- (2 ^ 63) \<le> i \<Longrightarrow> i < 2 ^ 63 \<Longrightarrow> Atoi (signed_decimal i) = Some i"
  by (cases "i < 0") (simp_all add: Atoi_def signed_decimal_def digits_ok digits_val_Itoa Let_def)

lemma parse_level_with_offset:
  assumes "level_base name = Some l" and "ToUpper name = name" and "set name \<inter> set ''+-'' = {}"
    and "- (2 ^ 63) \<le> i" and "i < 2 ^ 63"
  shows "parseLogLevel (level_with_offset name i) = Inr (wrap64 (l + i))"
proof -
  have n: "\<And>x. x \<in> set name \<Longrightarrow> \<not> is_sign x" using assms(3) by (auto simp: is_sign_def)
  then have t: "takeWhile (\<lambda>c. \<not> is_sign c) name = name" "dropWhile (\<lambda>c. \<not> is_sign c) name = []"
    by (auto simp: takeWhile_eq_all_conv)
  have u: "takeWhile (\<lambda>c. \<not> is_sign c) (name @ signed_decimal i) = name"
    "dropWhile (\<lambda>c. \<not> is_sign c) (name @ signed_decimal i) = signed_decimal i"
    using takeWhile_append2 [of name "\<lambda>c. \<not> is_sign c", OF n]
      dropWhile_append2 [of name "\<lambda>c. \<not> is_sign c", OF n]
    by (simp_all add: signed_decimal_def is_sign_def)
  have ne: "(signed_decimal i = []) = False" by (simp add: signed_decimal_def)
  show ?thesis
  proof (cases "i = 0")
    case True
    then have "level_with_offset name i = name" by (simp add: level_with_offset_def)
    then show ?thesis
      unfolding parseLogLevel_def Let_def
      by (simp only: t refl if_True option.case assms(1,2)) (simp add: True)
  next
    case False
    then have "level_with_offset name i = name @ signed_decimal i" by (simp add: level_with_offset_def)
    then show ?thesis
      unfolding parseLogLevel_def Let_def
      by (simp only: u ne if_False option.case assms(1,2) Atoi_signed_decimal [OF assms(4,5)])
  qed
qed

text \<open>
  A log level survives the environment.  \<open>parseLogLevel\<close> reads back every level that
  \<open>Level.String\<close> writes, with or without an offset: the level the server-manager puts into a
  container's \<open>LOG_LEVEL\<close> is the one the game-server in it uses.
\<close>

lemma parse_level_String:
  assumes "- (2 ^ 63) \<le> l" and "l < 2 ^ 63"
  shows "parseLogLevel (level_String l) = Inr l"
proof -
  note p = parse_level_with_offset [OF _ _ _ _ _]
  have "parseLogLevel (level_with_offset ''DEBUG'' (l + 4)) = Inr (wrap64 l)" if "l < 0"
    using p [of "''DEBUG''" "- 4" "l + 4"] assms that by (simp add: level_base_def LevelDebug_def)
  moreover have "parseLogLevel (level_with_offset ''INFO'' l) = Inr (wrap64 l)"
    using p [of "''INFO''" 0 l] assms by (simp add: level_base_def LevelInfo_def)
  moreover have "parseLogLevel (level_with_offset ''WARN'' (l - 4)) = Inr (wrap64 l)" if "4 \<le> l"
    using p [of "''WARN''" 4 "l - 4"] assms that by (simp add: level_base_def LevelWarn_def)
  moreover have "parseLogLevel (level_with_offset ''ERROR'' (l - 8)) = Inr (wrap64 l)" if "8 \<le> l"
    using p [of "''ERROR''" 8 "l - 8"] assms that by (simp add: level_base_def LevelError_def)
  ultimately show ?thesis
    using wrap64_id [OF assms]
    by (auto simp: level_String_def LevelDebug_def LevelInfo_def LevelWarn_def LevelError_def)
qed

lemma parseLogLevel_range: "parseLogLevel s = Inr l \<Longrightarrow> - (2 ^ 63) \<le> l \<and> l < 2 ^ 63"
  using wrap64_range by (auto simp: parseLogLevel_def Let_def split: option.splits)

lemma parsePorts_eq:
  "parsePorts ParsePort ss ports = Inr qs \<longleftrightarrow>
   (\<forall>s\<in>set ss. \<exists>p. ParsePort s = Inr p) \<and> qs = ports \<union> {p. \<exists>s\<in>set ss. ParsePort s = Inr p}"
proof (induction ss arbitrary: ports)
  case Nil
  then show ?case by auto
next
  case (Cons s ss)
  show ?case
  proof (cases "ParsePort s")
    case (Inl e)
    then show ?thesis by simp
  next
    case (Inr p)
    with Cons [of "insert p ports"] show ?thesis by auto
  qed
qed

lemma ReadConfig_levels:
  "ReadConfig parsed ParsePort = Inr cfg \<Longrightarrow>
     - (2 ^ 63) \<le> GameServerLogLevel cfg \<and> GameServerLogLevel cfg < 2 ^ 63"
  by (auto simp: ReadConfig_def dest!: parseLogLevel_range split: sum.splits if_splits)

lemma parsePorts_cases:
  obtains (bad) e where "parsePorts ParsePort ss {} = Inl e" and "\<not> (\<forall>s\<in>set ss. \<exists>p. ParsePort s = Inr p)"
  | (ok) "parsePorts ParsePort ss {} = Inr {p. \<exists>s\<in>set ss. ParsePort s = Inr p}"
      and "\<forall>s\<in>set ss. \<exists>p. ParsePort s = Inr p"
  using parsePorts_eq [of ParsePort ss "{}"] by (cases "parsePorts ParsePort ss {}") auto

text \<open>
  C25. When the configuration is accepted, and what it then guarantees.  \<open>ReadConfig\<close> succeeds
  exactly when the environment could be parsed, there is at least one worker, a room has at
  least two players, all ports and both log levels parse, and the client's port is one of the
  exposed ones; then the configuration carries these values.
\<close>

theorem ReadConfig_accepts:
  "ReadConfig parsed ParsePort = Inr cfg \<longleftrightarrow>
   (\<exists>c client l gl. parsed = Inr c \<and> 1 \<le> pc_WorkerCount c \<and> 2 \<le> pc_PlayersPerRoom c \<and>
      (\<forall>s\<in>set (pc_ExposePorts c). \<exists>p. ParsePort s = Inr p) \<and>
      ParsePort (pc_ClientPort c) = Inr client \<and> (\<exists>s\<in>set (pc_ExposePorts c). ParsePort s = Inr client) \<and>
      parseLogLevel (pc_LogLevel c) = Inr l \<and> parseLogLevel (pc_GameServerLogLevel c) = Inr gl \<and>
      cfg = \<lparr>Image = pc_Image c, Workercount = pc_WorkerCount c,
             ExposePorts = {p. \<exists>s\<in>set (pc_ExposePorts c). ParsePort s = Inr p}, ClientPort = client,
             BrokerURI = pc_BrokerURI c, BrokerNetworkName = pc_BrokerNetworkName c,
             PublicHost = pc_PublicHost c, DatabaseURI = pc_DatabaseURI c,
             PlayersPerRoom = pc_PlayersPerRoom c, LogLevel = l, GameServerLogLevel = gl,
             TestMakeContainerDummy = False\<rparr>)"
proof (cases parsed)
  case (Inl e)
  then show ?thesis by (simp add: ReadConfig_def)
next
  case (Inr c)
  show ?thesis
  proof (cases rule: parsePorts_cases [of ParsePort "pc_ExposePorts c"])
    case (bad e)
    with Inr show ?thesis by (auto simp: ReadConfig_def)
  next
    case ok
    with Inr show ?thesis by (auto simp: ReadConfig_def not_less split: sum.splits)
  qed
qed

end
