(* ===== verification/Docker.thy ===== *)
theory Docker
  imports Config
begin

text \<open>
  \<open>server-manager/adapters/docker.go\<close>: the adapter to the Docker engine.  The client of the engine's
  API is third-party: its functions are a record of functions on the world \<open>'w\<close> behind them.
\<close>

section \<open>The engine's client\<close>

record PortBinding =
  HostPort :: string

type_synonym PortMap = "port \<rightharpoonup> PortBinding list"

record ContainerCreateOptions =
  co_Name :: string
  co_Image :: string
  co_ExposedPorts :: "port set"
  co_Labels :: "string \<rightharpoonup> string"
  co_Env :: "string list"
  co_Cmd :: "string list"
  co_Init :: bool
  co_PortBindings :: PortMap
  co_RestartDisabled :: bool
  co_Networks :: "string set"

text \<open>
  The deadline of the calls is an argument; \<open>ContainerRestart\<close> also takes the time given to
  the container to stop, in seconds, \<open>ContainerRemove\<close> whether to force and whether to remove
  volumes, and \<open>ContainerList\<close> the label to filter by.
\<close>

record 'w Engine =
  client_New :: "'w proc"
  client_Close :: "'w proc"
  ContainerCreate :: "duration \<Rightarrow> ContainerCreateOptions \<Rightarrow> ('w, string) call"
  ContainerStart :: "duration \<Rightarrow> string \<Rightarrow> 'w proc"
  ContainerRestart :: "duration \<Rightarrow> int \<Rightarrow> string \<Rightarrow> 'w proc"
  ContainerRemove :: "duration \<Rightarrow> bool \<Rightarrow> bool \<Rightarrow> string \<Rightarrow> 'w proc"
  ContainerList :: "duration \<Rightarrow> string \<times> string \<Rightarrow> ('w, string list) call"
  ContainerInspect :: "duration \<Rightarrow> string \<Rightarrow> ('w, PortMap) call"

section \<open>State\<close>

record DockerConnection =
  dc_config :: "EnvConfig option"
  createTimeout :: duration
  killTimeout :: duration
  restartTimeout :: duration
  inspectTimeout :: duration
  containerStopTimeout :: int
  dc_initialized :: bool
  dc_closed :: bool

definition NewDockerConnection :: DockerConnection where
  "NewDockerConnection =
     \<lparr>dc_config = None, createTimeout = seconds 5, killTimeout = seconds 5,
      restartTimeout = seconds 40, inspectTimeout = seconds 5, containerStopTimeout = 5,
      dc_initialized = False, dc_closed = False\<rparr>"

type_synonym 'w docker_world = "DockerConnection \<times> 'w"

section \<open>Open and Close\<close>

definition OpenDocker :: "'w Engine \<Rightarrow> EnvConfig \<Rightarrow> 'w docker_world proc" where
  "OpenDocker D cfg = (\<lambda>(dc, w).
     if dc_closed dc then (Some (Sentinel ErrDockerConnClosed), dc, w)
     else if dc_initialized dc then (Some (Sentinel ErrDockerConnAlreadyInit), dc, w)
     else case client_New D w of
       (Some e, w1) \<Rightarrow> (Some e, dc, w1)
     | (None, w1) \<Rightarrow> (None, dc\<lparr>dc_config := Some cfg, dc_initialized := True\<rparr>, w1))"

text \<open>
  The guards of every other method.  The configuration is a pointer, set by \<open>Open\<close> together
  with \<open>initialized\<close>, so it is never nil behind them.
\<close>

definition docker_guard :: "DockerConnection \<Rightarrow> go_error + EnvConfig" where
  "docker_guard dc =
     (case dc_config dc of
        None \<Rightarrow> Inl (Sentinel ErrDockerConnNotInit)
      | Some cfg \<Rightarrow>
          if \<not> dc_initialized dc then Inl (Sentinel ErrDockerConnNotInit)
          else if dc_closed dc then Inl (Sentinel ErrDockerConnClosed) else Inr cfg)"

definition CloseDocker :: "'w Engine \<Rightarrow> 'w docker_world proc" where
  "CloseDocker D = (\<lambda>(dc, w).
     case docker_guard dc of
       Inl e \<Rightarrow> (Some e, dc, w)
     | Inr _ \<Rightarrow> (case client_Close D w of (r, w1) \<Rightarrow> (r, dc\<lparr>dc_closed := True\<rparr>, w1)))"

section \<open>Containers\<close>

text \<open>Every port is bound to a host port of the engine's choice.\<close>

definition genPortMap :: "port set \<Rightarrow> PortMap" where
  "genPortMap ports = (\<lambda>p. if p \<in> ports then Some [\<lparr>HostPort = ''''\<rparr>] else None)"

definition service_label :: string where
  "service_label = ''com.github.Matian37.LobbyLab.service''"

definition containerCreateOptions :: "EnvConfig \<Rightarrow> PortMap \<Rightarrow> string \<Rightarrow> ContainerCreateOptions" where
  "containerCreateOptions cfg portMap workerID =
     \<lparr>co_Name = ''lobbylab-game-server-'' @ workerID, co_Image = Image cfg,
      co_ExposedPorts = ExposePorts cfg, co_Labels = [service_label \<mapsto> ''game-server''],
      co_Env = [''LOG_LEVEL='' @ level_String (GameServerLogLevel cfg),
                ''NATS_URI='' @ BrokerURI cfg, ''WORKER_ID='' @ workerID],
      co_Cmd = (if TestMakeContainerDummy cfg then [''sleep'', ''inf''] else []),
      co_Init = True, co_PortBindings = portMap, co_RestartDisabled = True,
      co_Networks = {BrokerNetworkName cfg, ''lobbylab_public-net''}\<rparr>"

definition SpawnContainer :: "'w Engine \<Rightarrow> string \<Rightarrow> ('w docker_world, string) call" where
  "SpawnContainer D workerID = (\<lambda>(dc, w).
     case docker_guard dc of
       Inl e \<Rightarrow> (Inl e, dc, w)
     | Inr cfg \<Rightarrow>
    (case ContainerCreate D (createTimeout dc)
            (containerCreateOptions cfg (genPortMap (ExposePorts cfg)) workerID) w of
       (Inl e, w1) \<Rightarrow> (Inl e, dc, w1)
     | (Inr i, w1) \<Rightarrow>
    (case ContainerStart D (createTimeout dc) i w1 of
       (Some e, w2) \<Rightarrow> (Inl e, dc, w2)
     | (None, w2) \<Rightarrow> (Inr i, dc, w2))))"

definition RestartContainer :: "'w Engine \<Rightarrow> string \<Rightarrow> 'w docker_world proc" where
  "RestartContainer D i = (\<lambda>(dc, w).
     case docker_guard dc of
       Inl e \<Rightarrow> (Some e, dc, w)
     | Inr _ \<Rightarrow>
    (case ContainerRestart D (restartTimeout dc) (containerStopTimeout dc) i w of (r, w1) \<Rightarrow> (r, dc, w1)))"

definition RemoveContainer :: "'w Engine \<Rightarrow> string \<Rightarrow> 'w docker_world proc" where
  "RemoveContainer D i = (\<lambda>(dc, w).
     case docker_guard dc of
       Inl e \<Rightarrow> (Some e, dc, w)
     | Inr _ \<Rightarrow> (case ContainerRemove D (killTimeout dc) True True i w of (r, w1) \<Rightarrow> (r, dc, w1)))"

text \<open>The loop of \<open>RemoveZombieWorkers\<close>; a failure is only logged.\<close>

fun remove_all :: "'w Engine \<Rightarrow> duration \<Rightarrow> string list \<Rightarrow> 'w \<Rightarrow> 'w" where
  "remove_all D t [] w = w"
| "remove_all D t (i # is) w = remove_all D t is (snd (ContainerRemove D t True True i w))"

definition RemoveZombieWorkers :: "'w Engine \<Rightarrow> 'w docker_world proc" where
  "RemoveZombieWorkers D = (\<lambda>(dc, w).
     case docker_guard dc of
       Inl e \<Rightarrow> (Some e, dc, w)
     | Inr _ \<Rightarrow>
    (case ContainerList D (killTimeout dc) (service_label, ''game-server'') w of
       (Inl e, w1) \<Rightarrow> (Some e, dc, w1)
     | (Inr is, w1) \<Rightarrow> (None, dc, remove_all D (killTimeout dc) is w1)))"

definition getPorts :: "'w Engine \<Rightarrow> string \<Rightarrow> ('w docker_world, PortMap) call" where
  "getPorts D i = (\<lambda>(dc, w).
     case ContainerInspect D (inspectTimeout dc) i w of
       (Inl e, w1) \<Rightarrow> (Inl e, dc, w1)
     | (Inr ports, w1) \<Rightarrow> (Inr ports, dc, w1))"

text \<open>Indexing the map with a missing port gives the nil slice.\<close>

definition GetGamePort :: "'w Engine \<Rightarrow> string \<Rightarrow> ('w docker_world, string) call" where
  "GetGamePort D i = (\<lambda>(dc, w).
     case docker_guard dc of
       Inl e \<Rightarrow> (Inl e, dc, w)
     | Inr cfg \<Rightarrow>
    (case getPorts D i (dc, w) of
       (Inl e, dc1, w1) \<Rightarrow> (Inl e, dc1, w1)
     | (Inr portMap, dc1, w1) \<Rightarrow>
    (case portMap (ClientPort cfg) of
       None \<Rightarrow> (Inl (Sentinel ErrGamePortNoBinding), dc1, w1)
     | Some [] \<Rightarrow> (Inl (Sentinel ErrGamePortNoBinding), dc1, w1)
     | Some (b # bs) \<Rightarrow> (Inr (HostPort b), dc1, w1))))"

definition docker_ops :: "'w Engine \<Rightarrow> 'w docker_world DockerConnection_ops" where
  "docker_ops D =
     \<lparr>docker_Open = OpenDocker D, docker_Close = CloseDocker D, docker_SpawnContainer = SpawnContainer D,
      docker_RestartContainer = RestartContainer D, docker_RemoveContainer = RemoveContainer D,
      docker_GetGamePort = GetGamePort D, docker_RemoveZombieWorkers = RemoveZombieWorkers D\<rparr>"

lemmas docker_defs [op_defs] =
  OpenDocker_def CloseDocker_def SpawnContainer_def RestartContainer_def RemoveContainer_def
  RemoveZombieWorkers_def getPorts_def GetGamePort_def

end
