(* ===== verification/Nats.thy ===== *)
theory Nats
  imports Types Game_OS
begin

text \<open>
  What the two services use of the NATS client library (\<open>nats.go\<close> and its \<open>jetstream\<close>
  package).  The library is not part of the repository: its functions are a record of
  functions on the world \<open>'w\<close> behind them, an argument of both adapters.
\<close>

section \<open>Messages and streams\<close>

record nats_msg =
  msg_Data :: bytes
  msg_Reply :: string

type_synonym subscription = nat

datatype retention_policy = LimitsPolicy | InterestPolicy | WorkQueuePolicy
datatype storage_type = FileStorage | MemoryStorage
datatype store_compression = NoCompression | S2Compression
datatype deliver_policy = DeliverAllPolicy | DeliverLastPolicy | DeliverNewPolicy

record StreamConfig =
  sc_Name :: string
  sc_Subjects :: "string list"
  sc_Retention :: retention_policy
  sc_Storage :: storage_type
  sc_Replicas :: int
  sc_Compression :: store_compression

section \<open>The client library\<close>

text \<open>
  A connection is a handle in the adapter's state; each adapter has at most one, so the
  functions do not take it.  \<open>nats_Received\<close> stands for the callback of a subscription
  together with the wait for a timer: the data of the messages whose callback ran before the
  timer fired, or the error of the context when that was done first.  A callback that acts
  on the world is an argument of \<open>nats_Subscribe\<close>.
\<close>

record 'w Nats =
  nats_Connect :: "string \<Rightarrow> duration \<Rightarrow> 'w proc"
  nats_Drain :: "'w proc"
  nats_Publish :: "string \<Rightarrow> bytes \<Rightarrow> 'w proc"
  nats_PublishRequest :: "string \<Rightarrow> string \<Rightarrow> bytes \<Rightarrow> 'w proc"
  nats_Request :: "duration \<Rightarrow> string \<Rightarrow> bytes \<Rightarrow> ('w, nats_msg) call"
  nats_NewInbox :: "'w \<Rightarrow> string \<times> 'w"
  nats_SubscribeInbox :: "string \<Rightarrow> ('w, subscription) call"
  nats_Received :: "subscription \<Rightarrow> duration \<Rightarrow> ('w, nats_msg list) call"
  nats_Unsubscribe :: "subscription \<Rightarrow> 'w proc"
  nats_Subscribe :: "string \<Rightarrow> (nats_msg \<Rightarrow> 'w \<Rightarrow> 'w) \<Rightarrow> ('w, subscription) call"
  nats_SubscribeSync :: "string \<Rightarrow> ('w, subscription) call"
  nats_SetPendingLimits :: "subscription \<Rightarrow> int \<Rightarrow> int \<Rightarrow> 'w proc"
  nats_NextMsg :: "subscription \<Rightarrow> ctx \<Rightarrow> 'w \<Rightarrow> ((go_error + nats_msg) \<times> 'w) option"
  js_New :: "'w proc"
  js_CreateOrUpdateStream :: "StreamConfig \<Rightarrow> 'w proc"
  js_CreateConsumer :: "deliver_policy \<Rightarrow> 'w proc"
  js_Next :: "duration \<Rightarrow> ('w, 'w Message) call"
  js_StreamNameBySubject :: "ctx \<Rightarrow> string \<Rightarrow> ('w, string) call"
  js_Publish :: "ctx \<Rightarrow> string \<Rightarrow> bytes \<Rightarrow> 'w proc"

section \<open>Subjects\<close>

text \<open>The constants of both \<open>adapters/broker.go\<close>.\<close>

definition healthSubject :: string where
  "healthSubject = ''workers.health''"

definition assignSubject :: string where
  "assignSubject = ''workers.assign''"

definition resultSubject :: string where
  "resultSubject = ''workers.results''"

definition resultStreamName :: string where
  "resultStreamName = ''RESULT''"

end
