(* ===== verification/Json.thy ===== *)
theory Json
  imports Types
begin

text \<open>
  What the two services use of Go's \<open>encoding/json\<close>: the scanner (a state machine over the
  bytes), the compaction that \<open>json.Marshal\<close> applies to a \<open>json.RawMessage\<close>, and encoding and
  decoding of the two structures that travel over the broker, \<open>MatchConfig\<close> and \<open>Result\<close>.
\<close>

section \<open>The scanner\<close>

text \<open>
  The states are the step functions of \<open>encoding/json/scanner.go\<close>, the stack its
  \<open>parseState\<close>, innermost first: in an object before a colon, after one, or in an array.
\<close>

datatype jctx = InKey | InValue | InArray

datatype jstate =
    BeginValue | BeginValueOrEmpty | BeginStringOrEmpty | BeginString | EndValue | EndTop
  | InString | InStringEsc | InStringEscU nat | Neg | Num0 | Num1 | Dot | Dot0 | Exp | ExpSign | Exp0
  | Lit string

type_synonym scanner = "jstate \<times> jctx list"

definition is_space :: "char \<Rightarrow> bool" where
  "is_space c = (c \<in> {CHR '' '', CHR 0x09, CHR 0x0D, CHR 0x0A})"

definition is_digit :: "char \<Rightarrow> bool" where
  "is_digit c = (48 \<le> (of_char c :: nat) \<and> (of_char c :: nat) \<le> 57)"

definition is_hex :: "char \<Rightarrow> bool" where
  "is_hex c = (is_digit c \<or> 65 \<le> (of_char c :: nat) \<and> (of_char c :: nat) \<le> 70 \<or>
               97 \<le> (of_char c :: nat) \<and> (of_char c :: nat) \<le> 102)"

definition push :: "nat \<Rightarrow> jctx \<Rightarrow> jstate \<Rightarrow> jctx list \<Rightarrow> scanner option" where
  "push limit x st ps = (if length ps < limit then Some (st, x # ps) else None)"

definition pop :: "jctx list \<Rightarrow> scanner" where
  "pop ps = (if ps = [] then EndTop else EndValue, ps)"

fun end_value :: "char \<Rightarrow> jctx list \<Rightarrow> scanner option" where
  "end_value c [] = (if is_space c then Some (EndTop, []) else None)"
| "end_value c (x # ps) =
     (if is_space c then Some (EndValue, x # ps)
      else case x of
        InKey \<Rightarrow> if c = CHR '':'' then Some (BeginValue, InValue # ps) else None
      | InValue \<Rightarrow>
          if c = CHR '','' then Some (BeginString, InKey # ps)
          else if c = CHR ''}'' then Some (pop ps) else None
      | InArray \<Rightarrow>
          if c = CHR '','' then Some (BeginValue, InArray # ps)
          else if c = CHR '']'' then Some (pop ps) else None)"

definition begin_value :: "nat \<Rightarrow> char \<Rightarrow> jctx list \<Rightarrow> scanner option" where
  "begin_value limit c ps =
     (if is_space c then Some (BeginValue, ps)
      else if c = CHR ''{'' then push limit InKey BeginStringOrEmpty ps
      else if c = CHR ''['' then push limit InArray BeginValueOrEmpty ps
      else if c = CHR 0x22 then Some (InString, ps)
      else if c = CHR ''-'' then Some (Neg, ps)
      else if c = CHR ''0'' then Some (Num0, ps)
      else if is_digit c then Some (Num1, ps)
      else if c = CHR ''t'' then Some (Lit ''rue'', ps)
      else if c = CHR ''f'' then Some (Lit ''alse'', ps)
      else if c = CHR ''n'' then Some (Lit ''ull'', ps)
      else None)"

definition begin_string :: "char \<Rightarrow> jctx list \<Rightarrow> scanner option" where
  "begin_string c ps =
     (if is_space c then Some (BeginString, ps)
      else if c = CHR 0x22 then Some (InString, ps) else None)"

fun jstep :: "nat \<Rightarrow> char \<Rightarrow> scanner \<Rightarrow> scanner option" where
  "jstep limit c (BeginValue, ps) = begin_value limit c ps"
| "jstep limit c (BeginValueOrEmpty, ps) =
     (if is_space c then Some (BeginValueOrEmpty, ps)
      else if c = CHR '']'' then end_value c ps else begin_value limit c ps)"
| "jstep limit c (BeginStringOrEmpty, ps) =
     (if is_space c then Some (BeginStringOrEmpty, ps)
      else if c = CHR ''}'' then end_value c (InValue # tl ps) else begin_string c ps)"
| "jstep limit c (BeginString, ps) = begin_string c ps"
| "jstep limit c (EndValue, ps) = end_value c ps"
| "jstep limit c (EndTop, ps) = (if is_space c then Some (EndTop, ps) else None)"
| "jstep limit c (InString, ps) =
     (if c = CHR 0x22 then Some (EndValue, ps)
      else if c = CHR 0x5C then Some (InStringEsc, ps)
      else if (of_char c :: nat) < 32 then None else Some (InString, ps))"
| "jstep limit c (InStringEsc, ps) =
     (if c \<in> set ''bfnrt/'' \<or> c = CHR 0x5C \<or> c = CHR 0x22 then Some (InString, ps)
      else if c = CHR ''u'' then Some (InStringEscU 3, ps) else None)"
| "jstep limit c (InStringEscU k, ps) =
     (if is_hex c then Some (case k of 0 \<Rightarrow> InString | Suc k' \<Rightarrow> InStringEscU k', ps) else None)"
| "jstep limit c (Neg, ps) =
     (if c = CHR ''0'' then Some (Num0, ps) else if is_digit c then Some (Num1, ps) else None)"
| "jstep limit c (Num0, ps) =
     (if c = CHR ''.'' then Some (Dot, ps)
      else if c \<in> set ''eE'' then Some (Exp, ps) else end_value c ps)"
| "jstep limit c (Num1, ps) =
     (if is_digit c then Some (Num1, ps)
      else if c = CHR ''.'' then Some (Dot, ps)
      else if c \<in> set ''eE'' then Some (Exp, ps) else end_value c ps)"
| "jstep limit c (Dot, ps) = (if is_digit c then Some (Dot0, ps) else None)"
| "jstep limit c (Dot0, ps) =
     (if is_digit c then Some (Dot0, ps)
      else if c \<in> set ''eE'' then Some (Exp, ps) else end_value c ps)"
| "jstep limit c (Exp, ps) =
     (if c \<in> set ''+-'' then Some (ExpSign, ps) else if is_digit c then Some (Exp0, ps) else None)"
| "jstep limit c (ExpSign, ps) = (if is_digit c then Some (Exp0, ps) else None)"
| "jstep limit c (Exp0, ps) = (if is_digit c then Some (Exp0, ps) else end_value c ps)"
| "jstep limit c (Lit xs, ps) =
     (case xs of
        [] \<Rightarrow> None
      | x # xs' \<Rightarrow> if c = x then Some (if xs' = [] then EndValue else Lit xs', ps) else None)"

fun jrun :: "nat \<Rightarrow> scanner \<Rightarrow> string \<Rightarrow> scanner option" where
  "jrun limit s [] = Some s"
| "jrun limit s (c # cs) = (case jstep limit c s of None \<Rightarrow> None | Some s' \<Rightarrow> jrun limit s' cs)"

text \<open>At the end of the input the scanner is fed one more space.\<close>

definition accepts :: "scanner \<Rightarrow> bool" where
  "accepts s = (fst s = EndTop \<or> (case jstep 0 (CHR '' '') s of Some (EndTop, _) \<Rightarrow> True | _ \<Rightarrow> False))"

definition jstart :: scanner where
  "jstart = (BeginValue, [])"

text \<open>A valid JSON text whose arrays and objects are nested at most \<open>limit\<close> deep.\<close>

definition json_text :: "nat \<Rightarrow> string \<Rightarrow> bool" where
  "json_text limit s = (case jrun limit jstart s of None \<Rightarrow> False | Some s' \<Rightarrow> accepts s')"

definition maxNestingDepth :: nat where
  "maxNestingDepth = 10000"

section \<open>Encoding\<close>

definition unicode_escape :: "char \<Rightarrow> char \<Rightarrow> char \<Rightarrow> char \<Rightarrow> string" where
  "unicode_escape a b c d = [CHR 0x5C, CHR ''u'', a, b, c, d]"

text \<open>
  \<open>appendCompact\<close> with HTML escaping: white space outside strings goes; \<open><\<close>, \<open>>\<close>, \<open>&\<close> and the
  two Unicode line separators (three bytes of UTF-8) become escapes.
\<close>

definition line_separator :: "char \<Rightarrow> string \<Rightarrow> bool" where
  "line_separator c cs =
     (c = CHR 0xE2 \<and> (take 2 cs = [CHR 0x80, CHR 0xA8] \<or> take 2 cs = [CHR 0x80, CHR 0xA9]))"

definition compact_char :: "jstate \<Rightarrow> char \<Rightarrow> string" where
  "compact_char st c =
     (if is_space c \<and> st \<noteq> InString then []
      else if c = CHR ''<'' then unicode_escape (CHR ''0'') (CHR ''0'') (CHR ''3'') (CHR ''c'')
      else if c = CHR ''>'' then unicode_escape (CHR ''0'') (CHR ''0'') (CHR ''3'') (CHR ''e'')
      else if c = CHR ''&'' then unicode_escape (CHR ''0'') (CHR ''0'') (CHR ''2'') (CHR ''6'')
      else [c])"

fun compact_from :: "nat \<Rightarrow> scanner \<Rightarrow> string \<Rightarrow> string option" where
  "compact_from limit s [] = (if accepts s then Some [] else None)"
| "compact_from limit s (c # cs) =
     (if line_separator c cs
      then (case jrun limit s (c # take 2 cs) of
              None \<Rightarrow> None
            | Some s' \<Rightarrow>
                map_option ((@) (unicode_escape (CHR ''2'') (CHR ''0'') (CHR ''2'')
                                   (if cs ! 1 = CHR 0xA8 then CHR ''8'' else CHR ''9'')))
                  (compact_from limit s' (drop 2 cs)))
      else (case jstep limit c s of
              None \<Rightarrow> None
            | Some s' \<Rightarrow> map_option ((@) (compact_char (fst s) c)) (compact_from limit s' cs)))"

definition marshal_raw :: "RawMessage \<Rightarrow> go_error + bytes" where
  "marshal_raw m =
     (case compact_from maxNestingDepth jstart m of
        None \<Rightarrow> Inl (External ''json: error calling MarshalJSON for type json.RawMessage'')
      | Some s \<Rightarrow> Inr s)"

definition marshal_int :: "int \<Rightarrow> string" where
  "marshal_int i = (if i < 0 then CHR ''-'' # Itoa (nat (- i)) else Itoa (nat i))"

definition marshal_bool :: "bool \<Rightarrow> string" where
  "marshal_bool b = (if b then ''true'' else ''false'')"

text \<open>An object with the given members, in order; a key without characters to escape.\<close>

definition member :: "string \<Rightarrow> string \<Rightarrow> string" where
  "member k v = CHR 0x22 # k @ [CHR 0x22, CHR '':''] @ v"

definition marshal_MatchConfig :: "MatchConfig \<Rightarrow> go_error + bytes" where
  "marshal_MatchConfig c =
     (case marshal_raw (Config c) of
        Inl e \<Rightarrow> Inl e
      | Inr raw \<Rightarrow>
          Inr (''{'' @ member ''matchID'' (marshal_int (cfg_MatchID c)) @ '','' @
               member ''config'' raw @ ''}''))"

definition marshal_Result :: "Result \<Rightarrow> go_error + bytes" where
  "marshal_Result r =
     (case marshal_raw (Details r) of
        Inl e \<Rightarrow> Inl e
      | Inr raw \<Rightarrow>
          Inr (''{'' @ member ''matchID'' (marshal_int (res_MatchID r)) @ '','' @
               member ''success'' (marshal_bool (Success r)) @ '','' @
               member ''details'' raw @ ''}''))"

text \<open>
  A string, as \<open>appendString\<close> writes it.  Logins and tokens come from PostgreSQL, which stores
  valid UTF-8 only, so the replacement of invalid bytes is left out.
\<close>

definition hex_digit :: "nat \<Rightarrow> char" where
  "hex_digit d = (if d < 10 then char_of (48 + d) else char_of (87 + d))"

definition quote_char :: "char \<Rightarrow> string" where
  "quote_char c =
     (if c = CHR 0x22 \<or> c = CHR 0x5C then [CHR 0x5C, c]
      else if c = CHR 0x08 then [CHR 0x5C, CHR ''b''] else if c = CHR 0x0C then [CHR 0x5C, CHR ''f'']
      else if c = CHR 0x0A then [CHR 0x5C, CHR ''n''] else if c = CHR 0x0D then [CHR 0x5C, CHR ''r'']
      else if c = CHR 0x09 then [CHR 0x5C, CHR ''t'']
      else if (of_char c :: nat) < 32 \<or> c \<in> set ''<>&''
      then unicode_escape (CHR ''0'') (CHR ''0'') (hex_digit (of_char c div 16)) (hex_digit (of_char c mod 16))
      else [c])"

fun quote_chars :: "string \<Rightarrow> string" where
  "quote_chars [] = []"
| "quote_chars (c # cs) =
     (if line_separator c cs
      then unicode_escape (CHR ''2'') (CHR ''0'') (CHR ''2'') (if cs ! 1 = CHR 0xA8 then CHR ''8'' else CHR ''9'')
           @ quote_chars (drop 2 cs)
      else quote_char c @ quote_chars cs)"

definition marshal_string :: "string \<Rightarrow> string" where
  "marshal_string s = CHR 0x22 # quote_chars s @ [CHR 0x22]"

definition marshal_User :: "User \<Rightarrow> string" where
  "marshal_User u =
     ''{'' @ member ''login'' (marshal_string (Login u)) @ '','' @
     member ''matchAuthToken'' (marshal_string (MatchAuthToken u)) @ ''}''"

text \<open>A slice; the nil slice is \<open>null\<close>, the empty one cannot occur here.\<close>

fun comma_separated :: "string list \<Rightarrow> string" where
  "comma_separated [] = []"
| "comma_separated [x] = x"
| "comma_separated (x # y # xs) = x @ '','' @ comma_separated (y # xs)"

definition marshal_players :: "User list \<Rightarrow> bytes" where
  "marshal_players us =
     ''{'' @ member ''players'' (if us = [] then ''null''
                              else ''['' @ comma_separated (map marshal_User us) @ '']'') @ ''}''"

section \<open>Decoding\<close>

definition bottom :: "scanner \<Rightarrow> jctx option" where
  "bottom s = (if snd s = [] then None else Some (last (snd s)))"

definition trim :: "string \<Rightarrow> string" where
  "trim s = rev (dropWhile is_space (rev (dropWhile is_space s)))"

text \<open>
  The members of a top-level object: what is read while the outermost entry of the stack is
  \<open>InKey\<close> is the key, what is read while it is \<open>InValue\<close> the value.
\<close>

fun members_from :: "nat \<Rightarrow> scanner \<Rightarrow> string \<Rightarrow> string \<Rightarrow> string \<Rightarrow> (string \<times> string) list" where
  "members_from limit s k v [] = []"
| "members_from limit s k v (c # cs) =
     (case jstep limit c s of
        None \<Rightarrow> []
      | Some s' \<Rightarrow>
          (case (bottom s, bottom s') of
             (Some InKey, Some InKey) \<Rightarrow> members_from limit s' (k @ [c]) v cs
           | (Some InKey, Some InValue) \<Rightarrow> members_from limit s' k [] cs
           | (Some InValue, Some InValue) \<Rightarrow> members_from limit s' k (v @ [c]) cs
           | (Some InValue, Some InKey) \<Rightarrow> (trim k, trim v) # members_from limit s' [] [] cs
           | (Some InValue, None) \<Rightarrow> (trim k, trim v) # members_from limit s' [] [] cs
           | _ \<Rightarrow> members_from limit s' k v cs))"

definition hex_val :: "char \<Rightarrow> nat" where
  "hex_val c =
     (let n = (of_char c :: nat) in if n \<le> 57 then n - 48 else if n \<le> 70 then n - 55 else n - 87)"

definition hex4 :: "char \<Rightarrow> char \<Rightarrow> char \<Rightarrow> char \<Rightarrow> nat" where
  "hex4 a b c d = 4096 * hex_val a + 256 * hex_val b + 16 * hex_val c + hex_val d"

text \<open>The UTF-8 encoding of a code point.\<close>

definition utf8 :: "nat \<Rightarrow> string" where
  "utf8 n =
     (if n < 128 then [char_of n]
      else if n < 2048 then [char_of (192 + n div 64), char_of (128 + n mod 64)]
      else if n < 65536
      then [char_of (224 + n div 4096), char_of (128 + n div 64 mod 64), char_of (128 + n mod 64)]
      else [char_of (240 + n div 262144), char_of (128 + n div 4096 mod 64),
            char_of (128 + n div 64 mod 64), char_of (128 + n mod 64)])"

definition escaped :: "char \<Rightarrow> char" where
  "escaped c =
     (if c = CHR ''b'' then CHR 0x08 else if c = CHR ''f'' then CHR 0x0C
      else if c = CHR ''n'' then CHR 0x0A else if c = CHR ''r'' then CHR 0x0D
      else if c = CHR ''t'' then CHR 0x09 else c)"

text \<open>
  \<open>unquote\<close> on the inside of a valid string; a surrogate without its partner becomes U+FFFD.
  (Bytes that are not UTF-8 are kept here, where Go puts U+FFFD; neither is part of a
  field's name.)
\<close>

fun unescape :: "string \<Rightarrow> string" where
  "unescape [] = []"
| "unescape (x # xs) =
     (if x \<noteq> CHR 0x5C then x # unescape xs
      else case xs of
        [] \<Rightarrow> []
      | y # ys \<Rightarrow>
          if y \<noteq> CHR ''u'' then escaped y # unescape ys
          else case ys of
            a # b # c # d # rest \<Rightarrow>
              (let r = hex4 a b c d in
               if r < 0xD800 \<or> 0xE000 \<le> r then utf8 r @ unescape rest
               else case rest of
                 p # q # e # f # g # h # rest' \<Rightarrow>
                   (let r' = hex4 e f g h in
                    if p = CHR 0x5C \<and> q = CHR ''u'' \<and> r < 0xDC00 \<and> 0xDC00 \<le> r' \<and> r' < 0xE000
                    then utf8 (0x10000 + 1024 * (r - 0xD800) + (r' - 0xDC00)) @ unescape rest'
                    else utf8 0xFFFD @ unescape rest)
               | _ \<Rightarrow> utf8 0xFFFD @ unescape rest)
          | _ \<Rightarrow> [])"

text \<open>
  Field names are compared up to Unicode case folding: of the code points outside ASCII only
  U+017F (a long s) and U+212A (the Kelvin sign) fold to an ASCII letter.
\<close>

fun fold_name :: "string \<Rightarrow> string" where
  "fold_name [] = []"
| "fold_name (c # cs) =
     (if c = CHR 0xC5 \<and> take 1 cs = [CHR 0xBF] then CHR ''s'' # fold_name (drop 1 cs)
      else if c = CHR 0xE2 \<and> take 2 cs = [CHR 0x84, CHR 0xAA] then CHR ''k'' # fold_name (drop 2 cs)
      else (if 65 \<le> (of_char c :: nat) \<and> (of_char c :: nat) \<le> 90 then char_of (of_char c + 32 :: nat) else c)
             # fold_name cs)"

definition key_name :: "string \<Rightarrow> string" where
  "key_name k = fold_name (unescape (butlast (tl k)))"

text \<open>\<open>strconv.ParseInt\<close> in base 10 with 64 bits, on the text of a JSON number.\<close>

definition parse_int :: "string \<Rightarrow> int option" where
  "parse_int s =
     (let neg = (take 1 s = ''-''); ds = (if neg then drop 1 s else s) in
      if ds \<noteq> [] \<and> list_all is_digit ds
      then let n = int (digits_val ds); i = (if neg then - n else n)
           in if - (2 ^ 63) \<le> i \<and> i < 2 ^ 63 then Some i else None
      else None)"

text \<open>
  Storing a value in a field: \<open>None\<close> is an \<open>UnmarshalTypeError\<close>, which is reported at the end
  and keeps the field; \<open>null\<close> keeps an integer or a boolean.
\<close>

definition store_int :: "string \<Rightarrow> int option \<Rightarrow> int option" where
  "store_int v old = (if v = ''null'' then old else parse_int v)"

definition store_bool :: "string \<Rightarrow> bool option \<Rightarrow> bool option" where
  "store_bool v old =
     (if v = ''null'' then old else if v = ''true'' then Some True
      else if v = ''false'' then Some False else None)"

definition store_MatchConfig :: "string \<Rightarrow> string \<Rightarrow> MatchConfig \<Rightarrow> MatchConfig option" where
  "store_MatchConfig name v c =
     (if name = fold_name ''matchID''
      then map_option (\<lambda>i. c\<lparr>cfg_MatchID := i\<rparr>) (store_int v (Some (cfg_MatchID c)))
      else if name = fold_name ''config'' then Some (c\<lparr>Config := v\<rparr>)
      else Some c)"

definition store_Result :: "string \<Rightarrow> string \<Rightarrow> Result \<Rightarrow> Result option" where
  "store_Result name v r =
     (if name = fold_name ''matchID''
      then map_option (\<lambda>i. r\<lparr>res_MatchID := i\<rparr>) (store_int v (Some (res_MatchID r)))
      else if name = fold_name ''success''
      then map_option (\<lambda>b. r\<lparr>Success := b\<rparr>) (store_bool v (Some (Success r)))
      else if name = fold_name ''details'' then Some (r\<lparr>Details := v\<rparr>)
      else Some r)"

fun store_members :: "(string \<Rightarrow> string \<Rightarrow> 'r \<Rightarrow> 'r option) \<Rightarrow> (string \<times> string) list \<Rightarrow> 'r \<Rightarrow> 'r option" where
  "store_members store [] r = Some r"
| "store_members store ((k, v) # ms) r =
     (case store (key_name k) v r of None \<Rightarrow> None | Some r' \<Rightarrow> store_members store ms r')"

text \<open>
  \<open>json.Unmarshal\<close> into a struct: an object stores its members, \<open>null\<close> does nothing, and any
  other value is an error.  (After a type error Go goes on with the other members; the
  callers drop the structure then.)
\<close>

definition unmarshal_struct :: "(string \<Rightarrow> string \<Rightarrow> 'r \<Rightarrow> 'r option) \<Rightarrow> 'r \<Rightarrow> bytes \<Rightarrow> go_error + 'r" where
  "unmarshal_struct store r0 s =
     (if \<not> json_text maxNestingDepth s then Inl (External ''json: syntax error'')
      else if trim s = ''null'' then Inr r0
      else if take 1 (trim s) \<noteq> ''{'' then Inl (External ''json: cannot unmarshal'')
      else case store_members store (members_from maxNestingDepth jstart [] [] s) r0 of
        None \<Rightarrow> Inl (External ''json: cannot unmarshal'')
      | Some r \<Rightarrow> Inr r)"

definition unmarshal_MatchConfig :: "bytes \<Rightarrow> go_error + MatchConfig" where
  "unmarshal_MatchConfig = unmarshal_struct store_MatchConfig \<lparr>cfg_MatchID = 0, Config = []\<rparr>"

definition unmarshal_Result :: "bytes \<Rightarrow> go_error + Result" where
  "unmarshal_Result = unmarshal_struct store_Result \<lparr>Success = False, res_MatchID = 0, Details = []\<rparr>"

end
