(* ===== verification/Manager_Broker.thy ===== *)
theory Manager_Broker
  imports Nats Json
begin

text \<open>
  \<open>server-manager/adapters/broker.go\<close>: the broker adapter of the server-manager, over the NATS
  client library.
\<close>

section \<open>State\<close>

text \<open>The three pointers are nil until \<open>Open\<close> has set them.\<close>

record NATSConnection =
  nc_conn :: bool
  nc_js :: bool
  nc_resultConsumer :: bool
  nc_openTimeout :: duration
  nc_assignJobTimeout :: duration
  nc_opened :: bool
  nc_closed :: bool

definition NewNATSConnection :: NATSConnection where
  "NewNATSConnection =
     \<lparr>nc_conn = False, nc_js = False, nc_resultConsumer = False, nc_openTimeout = seconds 5,
      nc_assignJobTimeout = seconds 5, nc_opened = False, nc_closed = False\<rparr>"

type_synonym 'w nats_world = "NATSConnection \<times> 'w"

section \<open>Open and Close\<close>

definition result_stream_config :: StreamConfig where
  "result_stream_config =
     \<lparr>sc_Name = resultStreamName, sc_Subjects = [resultSubject], sc_Retention = LimitsPolicy,
      sc_Storage = FileStorage, sc_Replicas = 1, sc_Compression = S2Compression\<rparr>"

definition OpenNATS :: "'w Nats \<Rightarrow> EnvConfig \<Rightarrow> 'w nats_world proc" where
  "OpenNATS N cfg = (\<lambda>(nc, w).
     if nc_closed nc then (Some (Sentinel ErrNATSConnCannotBeReopened), nc, w)
     else if nc_opened nc then (Some (Sentinel ErrNATSConnAlreadyOpen), nc, w)
     else case nats_Connect N (BrokerURI cfg) (nc_openTimeout nc) w of
       (Some e, w1) \<Rightarrow> (Some e, nc, w1)
     | (None, w1) \<Rightarrow>
    (let nc1 = nc\<lparr>nc_conn := True\<rparr> in
     case js_New N w1 of
       (Some e, w2) \<Rightarrow> (Some e, nc1, w2)
     | (None, w2) \<Rightarrow>
    (let nc2 = nc1\<lparr>nc_js := True\<rparr> in
     case js_CreateOrUpdateStream N result_stream_config w2 of
       (Some e, w3) \<Rightarrow> (Some e, nc2, w3)
     | (None, w3) \<Rightarrow>
    (case js_CreateConsumer N DeliverAllPolicy w3 of
       (Some e, w4) \<Rightarrow> (Some e, nc2, w4)
     | (None, w4) \<Rightarrow> (None, nc2\<lparr>nc_resultConsumer := True, nc_opened := True\<rparr>, w4)))))"

text \<open>A partially opened connection can be closed.\<close>

definition CloseNATS :: "'w Nats \<Rightarrow> 'w nats_world proc" where
  "CloseNATS N = (\<lambda>(nc, w).
     if \<not> nc_opened nc \<and> \<not> nc_conn nc then (Some (Sentinel ErrNATSConnNotOpen), nc, w)
     else if nc_closed nc then (Some (Sentinel ErrNATSConnAlreadyClosed), nc, w)
     else case nats_Drain N w of (r, w1) \<Rightarrow> (r, nc\<lparr>nc_closed := True\<rparr>, w1))"

section \<open>Jobs, pings and results\<close>

definition nats_guard :: "NATSConnection \<Rightarrow> go_error option" where
  "nats_guard nc =
     (if \<not> nc_opened nc then Some (Sentinel ErrNATSConnNotOpen)
      else if nc_closed nc then Some (Sentinel ErrNATSConnClosed) else None)"

definition AssignJob :: "'w Nats \<Rightarrow> string \<Rightarrow> MatchConfig \<Rightarrow> 'w nats_world proc" where
  "AssignJob N workerID cfg = (\<lambda>(nc, w).
     case nats_guard nc of
       Some e \<Rightarrow> (Some e, nc, w)
     | None \<Rightarrow>
    (case marshal_MatchConfig cfg of
       Inl e \<Rightarrow> (Some e, nc, w)
     | Inr payload \<Rightarrow>
    (case nats_Request N (nc_assignJobTimeout nc) (assignSubject @ ''.'' @ workerID) payload w of
       (Inl e, w1) \<Rightarrow> (Some e, nc, w1)
     | (Inr _, w1) \<Rightarrow> (None, nc, w1))))"

text \<open>The deferred \<open>Unsubscribe\<close> runs on every path after the subscription.\<close>

definition GetWorkersPong :: "'w Nats \<Rightarrow> duration \<Rightarrow> ('w nats_world, Responders) call" where
  "GetWorkersPong N pongTimeout = (\<lambda>(nc, w).
     case nats_guard nc of
       Some e \<Rightarrow> (Inl e, nc, w)
     | None \<Rightarrow>
    (let (inbox, w1) = nats_NewInbox N w in
     case nats_SubscribeInbox N inbox w1 of
       (Inl e, w2) \<Rightarrow> (Inl e, nc, w2)
     | (Inr sub, w2) \<Rightarrow>
    (case nats_PublishRequest N healthSubject inbox [] w2 of
       (Some e, w3) \<Rightarrow> (Inl e, nc, snd (nats_Unsubscribe N sub w3))
     | (None, w3) \<Rightarrow>
    (case nats_Received N sub pongTimeout w3 of
       (Inl e, w4) \<Rightarrow> (Inl e, nc, snd (nats_Unsubscribe N sub w4))
     | (Inr msgs, w4) \<Rightarrow>
         (Inr (msg_Data ` set msgs), nc, snd (nats_Unsubscribe N sub w4))))))"

text \<open>\<open>math.MaxInt64\<close> nanoseconds; the message's \<open>Ack\<close> acts on the library's world.\<close>

definition MaxInt64 :: duration where
  "MaxInt64 = 2 ^ 63 - 1"

definition lift_message :: "'w Message \<Rightarrow> 'w nats_world Message" where
  "lift_message m = \<lparr>Data = Data m, Ack = (\<lambda>(nc, w). case Ack m w of (r, w1) \<Rightarrow> (r, nc, w1))\<rparr>"

definition GetResultNATS :: "'w Nats \<Rightarrow> ('w nats_world, 'w nats_world Message) call" where
  "GetResultNATS N = (\<lambda>(nc, w).
     case nats_guard nc of
       Some e \<Rightarrow> (Inl e, nc, w)
     | None \<Rightarrow>
    (case js_Next N MaxInt64 w of
       (Inl e, w1) \<Rightarrow> (Inl e, nc, w1)
     | (Inr m, w1) \<Rightarrow> (Inr (lift_message m), nc, w1)))"

definition manager_broker :: "'w Nats \<Rightarrow> 'w nats_world BrokerConnection_ops" where
  "manager_broker N =
     \<lparr>broker_Open = OpenNATS N, broker_Close = CloseNATS N, broker_AssignJob = AssignJob N,
      broker_GetResult = GetResultNATS N, broker_GetWorkersPong = GetWorkersPong N\<rparr>"

lemmas manager_broker_defs [op_defs] =
  OpenNATS_def CloseNATS_def AssignJob_def GetWorkersPong_def GetResultNATS_def

end
