(* ===== verification/Game_Broker.thy ===== *)
theory Game_Broker
  imports Nats Json Game_Ports
begin

text \<open>
  \<open>game-server/host/adapters/broker.go\<close>: the broker adapter of the game-server wrapper, over the
  NATS client library.
\<close>

section \<open>State\<close>

record GameConnection =
  gc_brokerURI :: string
  gc_workerID :: string
  gc_conn :: bool
  gc_js :: bool
  gc_requestSub :: "subscription option"
  gc_opened :: bool
  gc_closed :: bool

definition NewConnection :: "string \<Rightarrow> string \<Rightarrow> GameConnection" where
  "NewConnection uri workerID =
     \<lparr>gc_brokerURI = uri, gc_workerID = workerID, gc_conn = False, gc_js = False,
      gc_requestSub = None, gc_opened = False, gc_closed = False\<rparr>"

type_synonym 'w game_nats_world = "GameConnection \<times> 'w"

section \<open>Subscriptions\<close>

text \<open>\<open>subscribeAssign\<close>: at most one pending message, of any size.\<close>

definition subscribeAssign :: "'w Nats \<Rightarrow> 'w game_nats_world proc" where
  "subscribeAssign N = (\<lambda>(gc, w).
     case nats_SubscribeSync N (assignSubject @ ''.'' @ gc_workerID gc) w of
       (Inl e, w1) \<Rightarrow> (Some e, gc, w1)
     | (Inr sub, w1) \<Rightarrow>
    (case nats_SetPendingLimits N sub 1 (- 1) w1 of
       (Some e, w2) \<Rightarrow> (Some e, gc, w2)
     | (None, w2) \<Rightarrow> (None, gc\<lparr>gc_requestSub := Some sub\<rparr>, w2)))"

text \<open>The callback of \<open>subscribeHealth\<close>; a failure to answer is only logged.\<close>

definition pong_handler :: "'w Nats \<Rightarrow> GameConnection \<Rightarrow> nats_msg \<Rightarrow> 'w \<Rightarrow> 'w" where
  "pong_handler N gc msg w = snd (nats_Publish N (msg_Reply msg) (gc_workerID gc) w)"

definition subscribeHealth :: "'w Nats \<Rightarrow> 'w game_nats_world proc" where
  "subscribeHealth N = (\<lambda>(gc, w).
     case nats_Subscribe N healthSubject (pong_handler N gc) w of
       (Inl e, w1) \<Rightarrow> (Some e, gc, w1)
     | (Inr sub, w1) \<Rightarrow>
    (case nats_SetPendingLimits N sub 1 (- 1) w1 of (r, w2) \<Rightarrow> (r, gc, w2)))"

section \<open>Open and Close\<close>

definition OpenGame :: "'w Nats \<Rightarrow> duration \<Rightarrow> 'w game_nats_world proc" where
  "OpenGame N timeout = (\<lambda>(gc, w).
     if gc_closed gc then (Some (Sentinel ErrConnectionAlreadyClosed), gc, w)
     else if gc_opened gc then (Some (Sentinel ErrConnectionAlreadyOpen), gc, w)
     else case nats_Connect N (gc_brokerURI gc) timeout w of
       (Some e, w1) \<Rightarrow> (Some e, gc, w1)
     | (None, w1) \<Rightarrow>
    (let gc1 = gc\<lparr>gc_conn := True\<rparr> in
     case js_New N w1 of
       (Some e, w2) \<Rightarrow> (Some e, gc1, w2)
     | (None, w2) \<Rightarrow>
    (let gc2 = gc1\<lparr>gc_js := True\<rparr> in
     case js_StreamNameBySubject N (WithTimeout Background) resultSubject w2 of
       (Inl e, w3) \<Rightarrow> (Some e, gc2, w3)
     | (Inr _, w3) \<Rightarrow>
    (case subscribeAssign N (gc2, w3) of
       (Some e, gc3, w4) \<Rightarrow> (Some e, gc3, w4)
     | (None, gc3, w4) \<Rightarrow>
    (case subscribeHealth N (gc3, w4) of
       (Some e, gc4, w5) \<Rightarrow> (Some e, gc4, w5)
     | (None, gc4, w5) \<Rightarrow> (None, gc4\<lparr>gc_opened := True\<rparr>, w5))))))"

definition CloseGame :: "'w Nats \<Rightarrow> 'w game_nats_world proc" where
  "CloseGame N = (\<lambda>(gc, w).
     if \<not> gc_opened gc \<and> \<not> gc_conn gc then (Some (Sentinel ErrConnectionNotOpen), gc, w)
     else if gc_closed gc then (Some (Sentinel ErrConnectionAlreadyClosed), gc, w)
     else case nats_Drain N w of (r, w1) \<Rightarrow> (r, gc\<lparr>gc_closed := True\<rparr>, w1))"

section \<open>Assignments and reports\<close>

definition game_guard :: "GameConnection \<Rightarrow> go_error option" where
  "game_guard gc =
     (if \<not> gc_opened gc then Some (Sentinel ErrConnectionNotOpen)
      else if gc_closed gc then Some (Sentinel ErrConnectionAlreadyClosed) else None)"

text \<open>\<open>None\<close>: it blocks for good (or, without a subscription, panics).\<close>

definition GetMatchConfig :: "'w Nats \<Rightarrow> ctx \<Rightarrow> ('w game_nats_world, MatchConfig) blocking" where
  "GetMatchConfig N cx = (\<lambda>(gc, w).
     case game_guard gc of
       Some e \<Rightarrow> Some (Inl e, gc, w)
     | None \<Rightarrow>
    (case gc_requestSub gc of
       None \<Rightarrow> None
     | Some sub \<Rightarrow>
    (case nats_NextMsg N sub cx w of
       None \<Rightarrow> None
     | Some (Inl e, w1) \<Rightarrow> Some (Inl e, gc, w1)
     | Some (Inr msg, w1) \<Rightarrow>
    (case unmarshal_MatchConfig (msg_Data msg) of
       Inl e \<Rightarrow> Some (Inl e, gc, w1)
     | Inr cfg \<Rightarrow>
    (case nats_Publish N (msg_Reply msg) [] w1 of
       (Some e, w2) \<Rightarrow> Some (Inl e, gc, w2)
     | (None, w2) \<Rightarrow> Some (Inr cfg, gc, w2))))))"

definition SendCancel :: "'w Nats \<Rightarrow> ctx \<Rightarrow> int \<Rightarrow> 'w game_nats_world proc" where
  "SendCancel N cx matchID = (\<lambda>(gc, w).
     case game_guard gc of
       Some e \<Rightarrow> (Some e, gc, w)
     | None \<Rightarrow>
    (case marshal_Result \<lparr>Success = False, res_MatchID = matchID, Details = ''{}''\<rparr> of
       Inl e \<Rightarrow> (Some (External ''failed to marshal cancel result''), gc, w)
     | Inr payload \<Rightarrow>
    (case js_Publish N cx resultSubject payload w of (r, w1) \<Rightarrow> (r, gc, w1))))"

definition SendResult :: "'w Nats \<Rightarrow> ctx \<Rightarrow> int \<Rightarrow> bytes \<Rightarrow> 'w game_nats_world proc" where
  "SendResult N cx matchID res = (\<lambda>(gc, w).
     case game_guard gc of
       Some e \<Rightarrow> (Some e, gc, w)
     | None \<Rightarrow>
    (case marshal_Result \<lparr>Success = True, res_MatchID = matchID, Details = res\<rparr> of
       Inl e \<Rightarrow> (Some (Errorf ''the result is not valid JSON: %w'' [e]), gc, w)
     | Inr payload \<Rightarrow>
    (case js_Publish N cx resultSubject payload w of (r, w1) \<Rightarrow> (r, gc, w1))))"

definition game_broker :: "'w Nats \<Rightarrow> 'w game_nats_world GameBroker_ops" where
  "game_broker N =
     \<lparr>gb_Open = OpenGame N, gb_Close = CloseGame N, gb_GetMatchConfig = GetMatchConfig N,
      gb_SendCancel = SendCancel N, gb_SendResult = SendResult N\<rparr>"

lemmas game_broker_defs [op_defs] =
  subscribeAssign_def subscribeHealth_def OpenGame_def CloseGame_def GetMatchConfig_def
  SendCancel_def SendResult_def

end
