(* ===== verification/Json_Props.thy ===== *)
theory Json_Props
  imports Json
begin

text \<open>
  Facts about the JSON codec: a JSON text can be put as a member's value into an object, the
  compaction keeps a text valid, and what one service encodes the other decodes.
\<close>

section \<open>A text inside an object\<close>

text \<open>A value inside an object is scanned like one at the top, over a longer stack.\<close>

definition emb :: "jstate \<Rightarrow> jstate" where
  "emb st = (if st = EndTop then EndValue else st)"

definition emb_scanner :: "scanner \<Rightarrow> scanner" where
  "emb_scanner s = (emb (fst s), snd s @ [InValue])"

definition scanner_ok :: "scanner \<Rightarrow> bool" where
  "scanner_ok s \<longleftrightarrow> (fst s = BeginStringOrEmpty \<longrightarrow> snd s \<noteq> []) \<and> (fst s = EndTop \<longrightarrow> snd s = [])"

lemma end_value_emb:
  "end_value c ps = Some s' \<Longrightarrow> end_value c (ps @ [InValue]) = Some (emb_scanner s')"
  by (cases ps) (auto simp: emb_scanner_def emb_def pop_def split: if_splits jctx.splits)

lemma begin_value_emb:
  "begin_value (Suc limit) c (ps @ [InValue]) = map_option emb_scanner (begin_value limit c ps)"
  by (simp add: begin_value_def push_def emb_scanner_def emb_def)

lemma begin_string_emb:
  "begin_string c (ps @ [InValue]) = map_option emb_scanner (begin_string c ps)"
  by (simp add: begin_string_def emb_scanner_def emb_def)

lemma jstep_emb:
  assumes "jstep limit c s = Some s'" and "scanner_ok s"
  shows "jstep (Suc limit) c (emb_scanner s) = Some (emb_scanner s')"
proof -
  obtain st ps where s: "s = (st, ps)" by fastforce
  have en: "end_value c ps = Some s' \<Longrightarrow> end_value c (ps @ [InValue]) = Some (emb_scanner s')" for c
    by (rule end_value_emb)
  have same: "emb_scanner (st', ps) = (st', ps @ [InValue])" if "st' \<noteq> EndTop" for st'
    using that by (simp add: emb_scanner_def emb_def)
  note [simp] = s same begin_value_emb begin_string_emb and [simp del] = end_value.simps
  show ?thesis
  proof (cases st)
    case EndTop
    with assms show ?thesis
      by (auto simp: emb_scanner_def emb_def scanner_ok_def end_value.simps split: if_split_asm)
  next
    case BeginStringOrEmpty
    with assms(2) obtain x qs where ps: "ps = x # qs" by (cases ps) (auto simp: scanner_ok_def)
    have e: "emb_scanner (BeginStringOrEmpty, x # qs) = (BeginStringOrEmpty, x # qs @ [InValue])"
      by (simp add: emb_scanner_def emb_def)
    have p: "pop (qs @ [InValue]) = emb_scanner (pop qs)" by (simp add: emb_scanner_def emb_def pop_def)
    from BeginStringOrEmpty assms(1) show ?thesis
      using begin_string_emb [of c "x # qs"] by (cases s') (auto simp: ps e p end_value.simps split: if_split_asm)
  next
    case InStringEscU
    with assms(1) show ?thesis by (auto split: if_split_asm nat.split)
  next
    case Lit
    with assms(1) show ?thesis by (auto split: if_split_asm list.split_asm)
  next
    case BeginValueOrEmpty
    with assms(1) show ?thesis by (cases s') (auto simp: en split: if_split_asm)
  qed (use assms(1) en in \<open>cases "end_value c ps = Some s'"; auto split: if_split_asm\<close>)+
qed

lemma pop_ok: "scanner_ok (pop ps)"
  by (simp add: scanner_ok_def pop_def)

lemma end_value_ok: "end_value c ps = Some s' \<Longrightarrow> scanner_ok s'"
  by (cases ps) (auto simp: pop_ok split: if_splits jctx.splits, auto simp: scanner_ok_def)

lemma begin_ok:
  "begin_value limit c ps = Some s' \<Longrightarrow> scanner_ok s'"
  "begin_string c ps = Some s' \<Longrightarrow> scanner_ok s'"
  unfolding begin_value_def begin_string_def push_def scanner_ok_def
  by (simp_all split: if_split_asm) auto

lemma jstep_ok:
  assumes "jstep limit c s = Some s'" and "scanner_ok s"
  shows "scanner_ok s'"
proof -
  obtain st ps where s: "s = (st, ps)" by fastforce
  have plain: "scanner_ok (st', ps)" if "st' \<noteq> EndTop" "st' \<noteq> BeginStringOrEmpty" for st'
    using that by (simp add: scanner_ok_def)
  show ?thesis
    using assms unfolding s
    by (cases st) (auto simp: plain simp del: end_value.simps
        split: if_split_asm nat.splits list.splits intro: end_value_ok begin_ok)
qed

lemma jrun_emb:
  "jrun limit s d = Some s' \<Longrightarrow> scanner_ok s \<Longrightarrow>
   jrun (Suc limit) (emb_scanner s) d = Some (emb_scanner s') \<and> scanner_ok s'"
proof (induction d arbitrary: s)
  case Nil
  then show ?case by simp
next
  case (Cons c d)
  then obtain s1 where s1: "jstep limit c s = Some s1" "jrun limit s1 d = Some s'"
    by (auto split: option.splits)
  with Cons.IH [OF s1(2) jstep_ok [OF s1(1) Cons.prems(2)]] jstep_emb [OF s1(1) Cons.prems(2)]
  show ?case by simp
qed

lemma jrun_append:
  "jrun limit s (xs @ ys) = (case jrun limit s xs of None \<Rightarrow> None | Some s' \<Rightarrow> jrun limit s' ys)"
  by (induction xs arbitrary: s) (auto split: option.splits)

lemma bottom_emb [simp]: "bottom (emb_scanner s) = Some InValue"
  by (simp add: bottom_def emb_scanner_def)

text \<open>Its bytes are collected as the value of the member.\<close>

lemma members_from_value:
  "jrun limit s d = Some s' \<Longrightarrow> scanner_ok s \<Longrightarrow>
   members_from (Suc limit) (emb_scanner s) k v (d @ rest) =
   members_from (Suc limit) (emb_scanner s') k (v @ d) rest"
proof (induction d arbitrary: s v)
  case Nil
  then show ?case by simp
next
  case (Cons c d)
  then obtain s1 where s1: "jstep limit c s = Some s1" "jrun limit s1 d = Some s'"
    by (auto split: option.splits)
  with Cons.IH [OF s1(2) jstep_ok [OF s1(1) Cons.prems(2)], of "v @ [c]"] jstep_emb [OF s1(1) Cons.prems(2)]
  show ?case by simp
qed

text \<open>After a complete text, a comma or a brace ends the member.\<close>

lemma accepts_cases:
  assumes "accepts s" and "scanner_ok s"
  shows "snd s = [] \<and> fst s \<in> {EndTop, EndValue, Num0, Num1, Dot0, Exp0}"
proof -
  obtain st ps where s: "s = (st, ps)" by fastforce
  have e: "ps = []" if "end_value (CHR '' '') ps = Some (EndTop, q)" for q
    using that by (cases ps) (auto simp: is_space_def)
  have sp: "is_space (CHR '' '')" "\<not> is_digit (CHR '' '')" "\<not> is_hex (CHR '' '')"
    by (simp_all add: is_space_def is_digit_def is_hex_def)
  from assms show ?thesis
    by (cases st) (auto simp: s accepts_def scanner_ok_def sp begin_value_def begin_string_def
        split: option.splits jstate.splits if_splits list.splits nat.splits dest: e)
qed

lemma accepts_ends:
  assumes "accepts s" and "scanner_ok s"
  shows "jstep limit (CHR '','') (emb_scanner s) = Some (BeginString, [InKey])"
    and "jstep limit (CHR ''}'') (emb_scanner s) = Some (EndTop, [])"
  using accepts_cases [OF assms]
  by (cases s; auto simp: emb_scanner_def emb_def is_space_def is_digit_def pop_def)+

section \<open>Compaction\<close>

text \<open>The rest of a literal that is being read consists of small letters.\<close>

definition lit_ok :: "scanner \<Rightarrow> bool" where
  "lit_ok s \<longleftrightarrow> (\<forall>xs. fst s = Lit xs \<longrightarrow> set xs \<subseteq> set ''ruealsl'')"

lemma end_value_lit: "end_value c ps = Some s' \<Longrightarrow> lit_ok s'"
  by (cases ps) (auto simp: lit_ok_def pop_def split: if_splits jctx.splits)

lemma begin_lit:
  "begin_value limit c ps = Some s' \<Longrightarrow> lit_ok s'"
  "begin_string c ps = Some s' \<Longrightarrow> lit_ok s'"
  unfolding begin_value_def begin_string_def push_def
  by (simp_all split: if_split_asm) (auto simp: lit_ok_def)

lemma jstep_lit:
  assumes "jstep limit c s = Some s'" and "lit_ok s"
  shows "lit_ok s'"
proof -
  obtain st ps where s: "s = (st, ps)" by fastforce
  have plain: "lit_ok (st', ps)" if "\<And>xs. st' \<noteq> Lit xs" for st'
    using that by (simp add: lit_ok_def)
  show ?thesis
  proof (cases st)
    case (Lit xs)
    with assms s show ?thesis by (auto simp: lit_ok_def split: if_split_asm list.splits)
  qed (use assms s in \<open>auto simp: plain simp del: end_value.simps
        split: if_split_asm nat.splits intro: end_value_lit begin_lit\<close>)+
qed

text \<open>
  The scanner on the original text, and on the compacted one, where the white space that ends
  a number or leads to the end of the text is missing.
\<close>

definition value_ends :: "jstate set" where
  "value_ends = {EndValue, Num0, Num1, Dot0, Exp0}"

definition compacted :: "scanner \<Rightarrow> scanner \<Rightarrow> bool" where
  "compacted s t \<longleftrightarrow> t = s \<or> snd t = snd s \<and> fst s \<in> {EndValue, EndTop} \<and> fst t \<in> value_ends"

lemma compacted_refl [simp]: "compacted s s"
  by (simp add: compacted_def)

lemma end_value_space: "is_space c \<Longrightarrow> end_value c ps = Some (if ps = [] then EndTop else EndValue, ps)"
  by (cases ps) auto

lemma is_space_facts:
  assumes "is_space c"
  shows "\<not> is_digit c" "\<not> is_hex c" "c \<notin> set ''bfnrt/+-.eE0u''" "c \<noteq> CHR 0x5C" "c \<noteq> CHR 0x22"
    "c \<notin> set ''ruealsl''"
  using assms by (auto simp: is_space_def is_digit_def is_hex_def)

lemma jstep_space:
  assumes "jstep limit c s = Some s'" and "is_space c" and "fst s \<noteq> InString" and "lit_ok s"
  shows "s' = s \<or> snd s' = snd s \<and> fst s \<in> value_ends \<and> fst s' \<in> {EndValue, EndTop}"
proof -
  obtain st ps where s: "s = (st, ps)" by fastforce
  note [simp] = s is_space_facts [OF assms(2), simplified] assms(2) end_value_space value_ends_def
    begin_value_def begin_string_def
  show ?thesis
  proof (cases st)
    case (Lit xs)
    with assms show ?thesis
      using is_space_facts(6) [OF assms(2)] by (auto simp: lit_ok_def split: list.splits if_split_asm)
  qed (use assms(1,3) in \<open>auto simp del: end_value.simps split: if_split_asm\<close>)
qed

lemma compacted_space:
  assumes "jstep limit c s = Some s'" and "is_space c" and "fst s \<noteq> InString" and "lit_ok s" and "compacted s t"
  shows "compacted s' t"
  using jstep_space [OF assms(1-4)] assms(5) by (auto simp: compacted_def value_ends_def)

lemma compacted_step:
  assumes "jstep limit c s = Some s'" and "\<not> is_space c \<or> fst s = InString" and "compacted s t"
  shows "jstep limit c t = Some s'"
proof (cases "t = s")
  case True
  with assms(1) show ?thesis by simp
next
  case False
  obtain st ps where s: "s = (st, ps)" by fastforce
  from False assms(3) obtain st' where t: "t = (st', ps)" "st \<in> {EndValue, EndTop}" "st' \<in> value_ends"
    by (cases t) (auto simp: compacted_def s)
  with assms(1,2) have c: "end_value c ps = Some s'" "\<not> is_space c" by (auto simp: s split: if_splits)
  then have "c \<in> set '':,}]''"
    by (cases ps) (auto split: if_splits jctx.splits)
  then have "\<not> is_digit c" "c \<notin> set ''.eE''" by (auto simp: is_digit_def)
  with c t show ?thesis by (auto simp: value_ends_def simp del: end_value.simps)
qed

lemma in_string_only:
  assumes "jstep limit c s = Some s'" and "lit_ok s"
    and "c \<in> {CHR ''<'', CHR ''>'', CHR ''&''} \<or> 128 \<le> (of_char c :: nat)"
  shows "fst s = InString \<and> s' = s"
proof -
  obtain st ps where s: "s = (st, ps)" by fastforce
  have n: "\<not> is_space c" "\<not> is_digit c" "\<not> is_hex c" "c \<notin> set ''bfnrt/+-.eE0u:,{}[]ruealsl''"
    "c \<noteq> CHR 0x5C" "c \<noteq> CHR 0x22" "\<not> (of_char c :: nat) < 32"
    using assms(3) by (auto simp: is_space_def is_digit_def is_hex_def)
  have e: "end_value c qs = None" for qs using n by (cases qs) (auto split: jctx.splits)
  note [simp] = s n [simplified] e begin_value_def begin_string_def
  show ?thesis
  proof (cases st)
    case (Lit xs)
    with assms(1,2) n(4) show ?thesis by (auto simp: lit_ok_def split: list.splits if_split_asm)
  qed (use assms(1) in \<open>auto simp del: end_value.simps split: if_split_asm\<close>)
qed

lemma jrun_escape:
  assumes "is_hex a" and "is_hex b" and "is_hex c" and "is_hex d"
  shows "jrun limit (InString, ps) (unicode_escape a b c d) = Some (InString, ps)"
  using assms by (simp add: unicode_escape_def numeral_3_eq_3)

lemma is_hex_simps [simp]:
  "is_hex (CHR ''0'')" "is_hex (CHR ''2'')" "is_hex (CHR ''3'')" "is_hex (CHR ''6'')"
  "is_hex (CHR ''8'')" "is_hex (CHR ''9'')" "is_hex (CHR ''c'')" "is_hex (CHR ''e'')"
  by (simp_all add: is_hex_def is_digit_def)

lemma jrun_lit: "jrun limit s d = Some s' \<Longrightarrow> lit_ok s \<Longrightarrow> lit_ok s'"
  by (induction d arbitrary: s) (auto split: option.splits dest: jstep_lit)

text \<open>One step of the compaction.\<close>

lemma compact_from_cases:
  assumes "compact_from limit s (c # cs) = Some e"
  obtains (separator) s' e' x where "line_separator c cs" and "jrun limit s (c # take 2 cs) = Some s'"
      and "compact_from limit s' (drop 2 cs) = Some e'" and "x \<in> set ''89''"
      and "e = unicode_escape (CHR ''2'') (CHR ''0'') (CHR ''2'') x @ e'"
  | (single) s' e' where "\<not> line_separator c cs" and "jstep limit c s = Some s'"
      and "compact_from limit s' cs = Some e'" and "e = compact_char (fst s) c @ e'"
proof (cases "line_separator c cs")
  case True
  with assms obtain s' e' where s': "jrun limit s (c # take 2 cs) = Some s'"
    "compact_from limit s' (drop 2 cs) = Some e'"
    "e = unicode_escape (CHR ''2'') (CHR ''0'') (CHR ''2'') (if cs ! 1 = CHR 0xA8 then CHR ''8'' else CHR ''9'') @ e'"
    by (auto simp del: jrun.simps split: option.splits)
  show thesis by (rule separator [OF True s'(1,2) _ s'(3)]) simp
next
  case False
  with assms show thesis by (auto intro!: single split: option.splits)
qed

lemma compact_char_cases:
  obtains (space) "is_space c" and "st \<noteq> InString" and "compact_char st c = []"
  | (html) x y where "c \<in> {CHR ''<'', CHR ''>'', CHR ''&''}" and "x \<in> set ''23''" and "y \<in> set ''ce6''"
      and "compact_char st c = unicode_escape (CHR ''0'') (CHR ''0'') x y"
  | (plain) "\<not> is_space c \<or> st = InString" and "compact_char st c = [c]"
proof (cases "is_space c \<and> st \<noteq> InString")
  case True
  then show thesis by (intro space) (simp_all add: compact_char_def)
next
  case False
  then have e: "compact_char st c =
     (if c = CHR ''<'' then unicode_escape (CHR ''0'') (CHR ''0'') (CHR ''3'') (CHR ''c'')
      else if c = CHR ''>'' then unicode_escape (CHR ''0'') (CHR ''0'') (CHR ''3'') (CHR ''e'')
      else if c = CHR ''&'' then unicode_escape (CHR ''0'') (CHR ''0'') (CHR ''2'') (CHR ''6'') else [c])"
    by (auto simp: compact_char_def)
  consider "c = CHR ''<''" | "c = CHR ''>''" | "c = CHR ''&''" | "c \<notin> set ''<>&''" by auto
  then show thesis
  proof cases
    case 1
    show thesis by (rule html [of "CHR ''3''" "CHR ''c''"]) (use 1 in \<open>simp_all add: e [unfolded 1]\<close>)
  next
    case 2
    show thesis by (rule html [of "CHR ''3''" "CHR ''e''"]) (use 2 in \<open>simp_all add: e [unfolded 2]\<close>)
  next
    case 3
    show thesis by (rule html [of "CHR ''2''" "CHR ''6''"]) (use 3 in \<open>simp_all add: e [unfolded 3]\<close>)
  next
    case 4
    with False show thesis by (intro plain) (auto simp: e)
  qed
qed

lemma line_separatorD:
  assumes "line_separator c cs" and "jrun limit s (c # take 2 cs) = Some s'" and "lit_ok s"
  shows "fst s = InString \<and> s' = s"
proof -
  from assms(2) obtain s1 where s1: "jstep limit c s = Some s1" by (auto split: option.splits)
  from in_string_only [OF s1 assms(3)] assms(1) have st: "fst s = InString" "s1 = s"
    by (auto simp: line_separator_def)
  then obtain ps where "s = (InString, ps)" by (cases s) auto
  with assms(1,2) show ?thesis by (auto simp: line_separator_def)
qed

text \<open>The compacted text is accepted where the original is.\<close>

lemma compacted_char:
  assumes "jstep limit c s = Some s'" and "lit_ok s" and "compacted s t"
  shows "\<exists>t'. compacted s' t' \<and> jrun limit t (compact_char (fst s) c) = Some t'"
proof (cases rule: compact_char_cases [of c "fst s"])
  case space
  with compacted_space [OF assms(1) space(1,2) assms(2,3)] show ?thesis by (intro exI [of _ t]) simp
next
  case (html x y)
  with in_string_only [OF assms(1,2)] obtain ps where s: "s = (InString, ps)" "s' = s" by (cases s) auto
  then have "t = s" using assms(3) by (auto simp: compacted_def)
  moreover have "is_hex x" "is_hex y" using html by auto
  ultimately show ?thesis using s html(4) by (auto simp: jrun_escape)
next
  case plain
  with compacted_step [OF assms(1) _ assms(3)] show ?thesis by (intro exI [of _ s']) simp
qed

lemma compact_from_run:
  assumes "compact_from limit s d = Some e" and "lit_ok s" and "compacted s t"
  shows "\<exists>u u'. jrun limit s d = Some u \<and> accepts u \<and> jrun limit t e = Some u' \<and> compacted u u'"
  using assms
proof (induction limit s d arbitrary: t e rule: compact_from.induct)
  case (1 limit s)
  then show ?case by (cases t) (auto split: if_splits)
next
  case (2 limit s c cs)
  from 2(3) show ?case
  proof (cases rule: compact_from_cases)
    case (separator s' e' x)
    with line_separatorD [OF separator(1,2) 2(4)] obtain ps where s: "s' = s" "s = (InString, ps)"
      by (cases s) auto
    with 2(5) have "t = s" by (auto simp: compacted_def)
    with 2(1) [OF separator(1-3), of s] 2(4) s obtain u u' where "jrun limit s (drop 2 cs) = Some u"
      "accepts u" "jrun limit s e' = Some u'" "compacted u u'" by auto
    moreover have "jrun limit s (c # cs) = jrun limit s (drop 2 cs)"
      using separator(2) s(1) jrun_append [of limit s "c # take 2 cs" "drop 2 cs"] by simp
    moreover have "is_hex x" using separator(4) by auto
    then have "jrun limit t e = jrun limit s e'"
      using separator(5) s \<open>t = s\<close> by (simp add: jrun_append jrun_escape)
    ultimately show ?thesis by auto
  next
    case (single s' e')
    from compacted_char [OF single(2) 2(4,5)] obtain t'
      where t': "compacted s' t'" "jrun limit t (compact_char (fst s) c) = Some t'" by blast
    from 2(2) [OF single(1-3) jstep_lit [OF single(2) 2(4)] t'(1)] single t'(2) show ?thesis
      by (simp add: jrun_append)
  qed
qed

lemma accepts_end_states: "st \<in> insert EndTop value_ends \<Longrightarrow> accepts (st, [])"
  by (auto simp: value_ends_def accepts_def is_space_def is_digit_def)

lemma jrun_ok: "jrun limit s d = Some s' \<Longrightarrow> scanner_ok s \<Longrightarrow> scanner_ok s'"
  by (induction d arbitrary: s) (auto split: option.splits dest: jstep_ok)

lemma jstart_ok [simp]: "scanner_ok jstart" "lit_ok jstart"
  by (simp_all add: jstart_def scanner_ok_def lit_ok_def)

lemma json_textD:
  assumes "json_text limit d"
  obtains s where "jrun limit jstart d = Some s" and "accepts s" and "scanner_ok s"
  using assms jrun_ok [OF _ jstart_ok(1), of limit d] by (auto simp: json_text_def split: option.splits)

theorem compact_json:
  assumes "compact_from limit jstart d = Some e"
  shows "json_text limit d \<and> json_text limit e"
proof -
  from compact_from_run [OF assms jstart_ok(2) compacted_refl] obtain u u'
    where u: "jrun limit jstart d = Some u" "accepts u" "jrun limit jstart e = Some u'" "compacted u u'"
    by blast
  from accepts_cases [OF u(2) jrun_ok [OF u(1) jstart_ok(1)]] u(2,4) have "accepts u'"
    using accepts_end_states [of "fst u'"] by (cases u'; cases u) (auto simp: compacted_def)
  with u show ?thesis by (simp add: json_text_def)
qed

lemma compact_from_total:
  "jrun limit s d = Some u \<Longrightarrow> accepts u \<Longrightarrow> \<exists>e. compact_from limit s d = Some e"
proof (induction limit s d rule: compact_from.induct)
  case (1 limit s)
  then show ?case by simp
next
  case (2 limit s c cs)
  show ?case
  proof (cases "line_separator c cs")
    case True
    have "jrun limit s ((c # take 2 cs) @ drop 2 cs) = Some u" using 2(3) by simp
    then obtain s' where "jrun limit s (c # take 2 cs) = Some s'" "jrun limit s' (drop 2 cs) = Some u"
      unfolding jrun_append by (auto simp del: jrun.simps split: option.splits)
    with 2(1) [OF True, of s'] 2(4) True show ?thesis by (auto simp del: jrun.simps)
  next
    case False
    from 2(3) obtain s' where "jstep limit c s = Some s'" "jrun limit s' cs = Some u"
      by (auto split: option.splits)
    with 2(2) [OF False, of s'] 2(4) False show ?thesis by auto
  qed
qed

section \<open>Nesting\<close>

lemma jstep_Suc: "jstep limit c s = Some s' \<Longrightarrow> jstep (Suc limit) c s = Some s'"
  by (cases "(limit, c, s)" rule: jstep.cases)
    (auto simp: begin_value_def push_def simp del: end_value.simps split: if_split_asm)

lemma jrun_Suc: "jrun limit s d = Some s' \<Longrightarrow> jrun (Suc limit) s d = Some s'"
  by (induction d arbitrary: s) (auto split: option.splits dest: jstep_Suc)

lemma compact_from_Suc: "compact_from limit s d = Some e \<Longrightarrow> compact_from (Suc limit) s d = Some e"
proof (induction limit s d arbitrary: e rule: compact_from.induct)
  case (1 limit s)
  then show ?case by simp
next
  case (2 limit s c cs)
  show ?case
  proof (cases "line_separator c cs")
    case True
    with 2(3) obtain s' e' where s': "jrun limit s (c # take 2 cs) = Some s'"
      "compact_from limit s' (drop 2 cs) = Some e'"
      by (auto simp del: jrun.simps split: option.splits)
    from 2(1) [OF True s'] jrun_Suc [OF s'(1)] s' 2(3) True show ?thesis by (simp del: jrun.simps)
  next
    case False
    with 2(3) obtain s' e' where s': "jstep limit c s = Some s'" "compact_from limit s' cs = Some e'"
      by (auto split: option.splits)
    from 2(2) [OF False s'] jstep_Suc [OF s'(1)] s' 2(3) False show ?thesis by auto
  qed
qed

section \<open>No white space around a compacted text\<close>

lemma compact_char_nonempty: "st = InString \<Longrightarrow> compact_char st c \<noteq> []"
  by (simp add: compact_char_def unicode_escape_def)

lemma compact_in_string:
  assumes "compact_from limit s d = Some e" and "fst s = InString"
  shows "e \<noteq> []"
proof (cases d)
  case Nil
  with assms show ?thesis by (cases s) (auto simp: accepts_def is_space_def split: if_splits)
next
  case (Cons c cs)
  from assms(1) [unfolded Cons] show ?thesis
    by (cases rule: compact_from_cases)
      (simp_all add: unicode_escape_def compact_char_nonempty [OF assms(2)])
qed

lemma not_space_simps [simp]: "\<not> is_space (CHR 0x5C)" "\<not> is_space (CHR ''c'')" "\<not> is_space (CHR ''e'')"
  "\<not> is_space (CHR ''6'')" "\<not> is_space (CHR ''8'')" "\<not> is_space (CHR ''9'')"
  by (simp_all add: is_space_def)

lemma compact_hd:
  "compact_from limit jstart d = Some e \<Longrightarrow> e \<noteq> [] \<and> \<not> is_space (hd e)"
proof (induction d arbitrary: e)
  case Nil
  then show ?case by (simp add: jstart_def accepts_def begin_value_def is_space_def)
next
  case (Cons c d)
  from Cons.prems show ?case
  proof (cases rule: compact_from_cases)
    case (single s' e')
    show ?thesis
    proof (cases rule: compact_char_cases [of c "fst jstart"])
      case space
      then have "s' = jstart" using single(2) by (simp add: jstart_def begin_value_def)
      with Cons.IH single space show ?thesis by simp
    qed (use single in \<open>auto simp: unicode_escape_def jstart_def\<close>)
  qed (simp add: unicode_escape_def)
qed

lemma compact_last:
  "compact_from limit s d = Some e \<Longrightarrow> e \<noteq> [] \<Longrightarrow> \<not> is_space (last e)"
proof (induction limit s d arbitrary: e rule: compact_from.induct)
  case (1 limit s)
  then show ?case by (auto split: if_splits)
next
  case (2 limit s c cs)
  from 2(3) show ?case
  proof (cases rule: compact_from_cases)
    case (separator s' e' x)
    with 2(1) [OF separator(1-3)] show ?thesis
      by (cases "e' = []") (auto simp: unicode_escape_def)
  next
    case (single s' e')
    show ?thesis
    proof (cases "e' = []")
      case False
      with 2(2) [OF single(1-3)] single(4) show ?thesis by simp
    next
      case True
      have "fst s' \<noteq> InString" using compact_in_string [OF single(3)] True by blast
      then have "\<not> (is_space c \<and> fst s = InString)"
        using single(2) by (cases s) (auto simp: is_space_def)
      with True single(4) 2(4) show ?thesis
        by (cases rule: compact_char_cases [of c "fst s"]) (auto simp: unicode_escape_def)
    qed
  qed
qed

lemma trim_id: "e \<noteq> [] \<Longrightarrow> \<not> is_space (hd e) \<Longrightarrow> \<not> is_space (last e) \<Longrightarrow> trim e = e"
  by (cases e) (auto simp: trim_def dropWhile_eq_self_iff hd_append hd_rev split: if_splits)

lemma compact_trim: "compact_from limit jstart d = Some e \<Longrightarrow> trim e = e"
  using compact_hd compact_last trim_id by metis

section \<open>Members\<close>

definition plain_key :: "string \<Rightarrow> bool" where
  "plain_key k = list_all (\<lambda>c. c \<noteq> CHR 0x22 \<and> c \<noteq> CHR 0x5C \<and> 32 \<le> (of_char c :: nat)) k"

lemma jrun_plain: "plain_key k \<Longrightarrow> jrun limit (InString, ps) k = Some (InString, ps)"
  by (induction k) (auto simp: plain_key_def)

lemma members_plain:
  "plain_key k \<Longrightarrow> members_from limit (InString, [InKey]) q v (k @ rest) =
   members_from limit (InString, [InKey]) (q @ k) v rest"
  by (induction k arbitrary: q) (auto simp: plain_key_def bottom_def)

definition expects_key :: "scanner \<Rightarrow> bool" where
  "expects_key s \<longleftrightarrow> s = (BeginStringOrEmpty, [InKey]) \<or> s = (BeginString, [InKey])"

definition quoted :: "string \<Rightarrow> string" where
  "quoted k = CHR 0x22 # k @ [CHR 0x22]"

lemma member_key:
  assumes "expects_key s" and "plain_key k"
  shows "members_from limit s [] v (member k x @ rest) =
      members_from limit (BeginValue, [InValue]) (quoted k) [] (x @ rest)"
    and "jrun limit s (member k x @ rest) = jrun limit (BeginValue, [InValue]) (x @ rest)"
proof -
  have q: "jstep limit (CHR 0x22) s = Some (InString, [InKey])"
    using assms(1) by (auto simp: expects_key_def begin_string_def is_space_def)
  have b: "bottom s = Some InKey" using assms(1) by (auto simp: expects_key_def bottom_def)
  show "members_from limit s [] v (member k x @ rest) =
      members_from limit (BeginValue, [InValue]) (quoted k) [] (x @ rest)"
    using q b by (simp add: member_def quoted_def members_plain [OF assms(2)] bottom_def is_space_def)
  show "jrun limit s (member k x @ rest) = jrun limit (BeginValue, [InValue]) (x @ rest)"
    using q by (simp add: member_def jrun_append jrun_plain [OF assms(2)] is_space_def)
qed

lemma member_value:
  assumes "json_text limit x"
  shows "members_from (Suc limit) (BeginValue, [InValue]) k [] (x @ CHR '','' # rest) =
      (trim k, trim x) # members_from (Suc limit) (BeginString, [InKey]) [] [] rest"
    and "members_from (Suc limit) (BeginValue, [InValue]) k [] (x @ ''}'') = [(trim k, trim x)]"
    and "jrun (Suc limit) (BeginValue, [InValue]) (x @ CHR '','' # rest) = jrun (Suc limit) (BeginString, [InKey]) rest"
    and "jrun (Suc limit) (BeginValue, [InValue]) (x @ ''}'') = Some (EndTop, [])"
proof -
  from json_textD [OF assms] obtain s where s: "jrun limit jstart x = Some s" "accepts s" "scanner_ok s" .
  have e: "emb_scanner jstart = (BeginValue, [InValue])" by (simp add: emb_scanner_def jstart_def emb_def)
  note m = members_from_value [OF s(1) jstart_ok(1), unfolded e]
  note r = jrun_emb [OF s(1) jstart_ok(1), unfolded e, THEN conjunct1]
  note ends = accepts_ends [OF s(2,3), of "Suc limit"]
  show "members_from (Suc limit) (BeginValue, [InValue]) k [] (x @ CHR '','' # rest) =
      (trim k, trim x) # members_from (Suc limit) (BeginString, [InKey]) [] [] rest"
    using ends(1) by (simp add: m) (simp add: bottom_def)
  show "members_from (Suc limit) (BeginValue, [InValue]) k [] (x @ ''}'') = [(trim k, trim x)]"
    using ends(2) by (simp add: m) (simp add: bottom_def)
  show "jrun (Suc limit) (BeginValue, [InValue]) (x @ CHR '','' # rest) = jrun (Suc limit) (BeginString, [InKey]) rest"
    using ends(1) by (simp add: jrun_append r)
  show "jrun (Suc limit) (BeginValue, [InValue]) (x @ ''}'') = Some (EndTop, [])"
    using ends(2) by (simp add: jrun_append r)
qed

lemma trim_quoted [simp]: "trim (quoted k) = quoted k"
  by (rule trim_id) (simp_all add: quoted_def is_space_def)

lemma unescape_plain: "plain_key k \<Longrightarrow> unescape k = k"
  by (induction k) (simp_all add: plain_key_def)

lemma key_name_quoted: "plain_key k \<Longrightarrow> key_name (quoted k) = fold_name k"
  by (simp add: key_name_def quoted_def butlast_append unescape_plain)

section \<open>Integers and booleans\<close>

lemma Itoa_digits: "list_all is_digit (Itoa n)"
proof (induction n rule: Itoa.induct)
  case (1 n)
  have d: "is_digit (digit_char k)" if "k < 10" for k
    using that by (simp add: is_digit_def digit_char_def)
  show ?case
    using 1 by (subst Itoa.simps) (simp add: d)
qed

lemma Itoa_hd: "0 < n \<Longrightarrow> hd (Itoa n) \<noteq> CHR ''0''"
proof (induction n rule: Itoa.induct)
  case (1 n)
  have d: "digit_char k \<noteq> CHR ''0''" if "0 < k" "k < 10" for k
    using that digit_val_digit_char [of k] by (auto simp: digit_val_def)
  show ?case
    using 1 by (subst Itoa.simps) (simp add: d)
qed

lemma Itoa_0: "Itoa 0 = ''0''"
  by code_simp

lemma digit_not: "is_digit c \<Longrightarrow> \<not> is_space c \<and> c \<notin> set ''{[-tfn'' \<and> c \<noteq> CHR 0x22"
  by (auto simp: is_digit_def is_space_def)

lemma jrun_digits: "list_all is_digit ds \<Longrightarrow> jrun limit (Num1, ps) ds = Some (Num1, ps)"
  by (induction ds) simp_all

lemma jrun_Itoa:
  assumes "st = BeginValue \<or> st = Neg"
  shows "\<exists>st'. st' \<in> value_ends \<and> jrun limit (st, ps) (Itoa n) = Some (st', ps)"
proof (cases "n = 0")
  case True
  have "jstep limit (CHR ''0'') (st, ps) = Some (Num0, ps)"
    using assms by (elim disjE) (simp_all add: begin_value_def is_space_def)
  then show ?thesis by (intro exI [of _ Num0]) (simp add: True Itoa_0 value_ends_def)
next
  case False
  obtain d ds where i: "Itoa n = d # ds" using Itoa_nonempty by (cases "Itoa n") auto
  with Itoa_digits [of n] Itoa_hd [of n] False have "is_digit d" "list_all is_digit ds" "d \<noteq> CHR ''0''"
    by simp_all
  moreover from this assms digit_not [of d] have "jstep limit d (st, ps) = Some (Num1, ps)"
    by (elim disjE) (auto simp: begin_value_def)
  ultimately show ?thesis by (intro exI [of _ Num1]) (simp add: i jrun_digits value_ends_def)
qed

lemma json_text_int: "json_text limit (marshal_int i)"
proof (cases "i < 0")
  case True
  have n: "jstep limit (CHR ''-'') jstart = Some (Neg, [])"
    by (simp add: jstart_def begin_value_def is_space_def)
  from jrun_Itoa [of Neg limit "[]" "nat (- i)"] n accepts_end_states True show ?thesis
    by (auto simp: json_text_def marshal_int_def)
next
  case False
  with jrun_Itoa [of BeginValue limit "[]" "nat i"] accepts_end_states show ?thesis
    by (auto simp: json_text_def marshal_int_def jstart_def)
qed

lemma json_text_bool: "json_text limit (marshal_bool b)"
  by (simp add: json_text_def marshal_bool_def jstart_def begin_value_def is_space_def is_digit_def accepts_def)

lemma trim_digits: "list_all is_digit ds \<Longrightarrow> ds \<noteq> [] \<Longrightarrow> \<not> is_space c \<Longrightarrow> trim (c # ds) = c # ds \<and> trim ds = ds"
  using digit_not by (intro conjI trim_id) (auto simp: list_all_iff)

lemma trim_int [simp]: "trim (marshal_int i) = marshal_int i"
  using trim_digits [OF Itoa_digits Itoa_nonempty, of "CHR ''-''"]
  by (simp add: marshal_int_def is_space_def)

lemma trim_bool [simp]: "trim (marshal_bool b) = marshal_bool b"
  by (rule trim_id) (simp_all add: marshal_bool_def is_space_def)

lemma Itoa_not_minus: "take 1 (Itoa n) \<noteq> ''-''"
  using Itoa_digits [of n] by (cases "Itoa n") (auto simp: is_digit_def)

lemma parse_marshal_int:
  assumes "- (2 ^ 63) \<le> i" and "i < 2 ^ 63"
  shows "parse_int (marshal_int i) = Some i"
  using assms Itoa_digits Itoa_not_minus
  by (cases "i < 0") (simp_all add: parse_int_def marshal_int_def digits_val_Itoa Let_def)

lemma marshal_int_not_null: "marshal_int i \<noteq> ''null''"
  using Itoa_digits [of "nat i"] by (auto simp: marshal_int_def is_digit_def)

section \<open>Round trips\<close>

lemma marshal_rawD:
  assumes "marshal_raw d = Inr e" and "json_text limit d" and "limit \<le> maxNestingDepth"
  shows "json_text limit e" and "trim e = e"
proof -
  from json_textD [OF assms(2)] obtain s where s: "jrun limit jstart d = Some s" "accepts s" .
  from compact_from_total [OF s] obtain e' where e': "compact_from limit jstart d = Some e'" by blast
  have "compact_from (limit + k) jstart d = Some e'" for k
    by (induction k) (simp_all add: e' compact_from_Suc)
  from this [of "maxNestingDepth - limit"] assms(1,3) have "e' = e"
    by (simp add: marshal_raw_def)
  with compact_json [OF e'] compact_trim [OF e'] show "json_text limit e" "trim e = e" by simp_all
qed

lemma marshal_raw_total:
  assumes "json_text maxNestingDepth d"
  obtains e where "marshal_raw d = Inr e"
proof -
  from json_textD [OF assms] obtain s where "jrun maxNestingDepth jstart d = Some s" "accepts s" .
  from compact_from_total [OF this] obtain e where "compact_from maxNestingDepth jstart d = Some e" by blast
  then show thesis by (intro that [of e]) (simp add: marshal_raw_def)
qed

lemma plain_keys [simp]: "plain_key ''matchID''" "plain_key ''config''" "plain_key ''success''" "plain_key ''details''"
  by (simp_all add: plain_key_def)

lemma open_object:
  "jstep (Suc limit) (CHR ''{'') jstart = Some (BeginStringOrEmpty, [InKey])"
  "bottom jstart = None"
  by (simp_all add: jstart_def begin_value_def push_def is_space_def bottom_def)

lemma expects_key_simps [simp]:
  "expects_key (BeginStringOrEmpty, [InKey])" "expects_key (BeginString, [InKey])"
  by (simp_all add: expects_key_def)

text \<open>An object of two or three members that are JSON texts without white space around them.\<close>

lemma object2:
  assumes "plain_key k1" and "plain_key k2" and "json_text limit x1" and "json_text limit x2"
    and "trim x1 = x1" and "trim x2 = x2"
  defines "p \<equiv> ''{'' @ member k1 x1 @ '','' @ member k2 x2 @ ''}''"
  shows "members_from (Suc limit) jstart [] [] p = [(quoted k1, x1), (quoted k2, x2)]"
    and "json_text (Suc limit) p"
proof -
  show "members_from (Suc limit) jstart [] [] p = [(quoted k1, x1), (quoted k2, x2)]"
    using assms(1-6) by (simp add: p_def open_object member_key member_value del: jstep.simps)
  show "json_text (Suc limit) p"
    using assms(1-4)
    by (simp add: p_def json_text_def open_object member_key member_value accepts_def del: jstep.simps)
qed

lemma object3:
  assumes "plain_key k1" and "plain_key k2" and "plain_key k3" and "json_text limit x1"
    and "json_text limit x2" and "json_text limit x3"
    and "trim x1 = x1" and "trim x2 = x2" and "trim x3 = x3"
  defines "p \<equiv> ''{'' @ member k1 x1 @ '','' @ member k2 x2 @ '','' @ member k3 x3 @ ''}''"
  shows "members_from (Suc limit) jstart [] [] p = [(quoted k1, x1), (quoted k2, x2), (quoted k3, x3)]"
    and "json_text (Suc limit) p"
proof -
  show "members_from (Suc limit) jstart [] [] p = [(quoted k1, x1), (quoted k2, x2), (quoted k3, x3)]"
    using assms(1-9) by (simp add: p_def open_object member_key member_value del: jstep.simps)
  show "json_text (Suc limit) p"
    using assms(1-6)
    by (simp add: p_def json_text_def open_object member_key member_value accepts_def del: jstep.simps)
qed

lemma trim_object [simp]: "trim (CHR ''{'' # x @ ''}'') = CHR ''{'' # x @ ''}''"
  by (rule trim_id) (simp_all add: is_space_def)

lemma depth_Suc: "maxNestingDepth = Suc 9999"
  by (simp add: maxNestingDepth_def)

lemma json_text_Suc: "json_text limit d \<Longrightarrow> json_text (Suc limit) d"
  by (erule json_textD) (simp add: json_text_def jrun_Suc)

lemma marshal_raw_fails: "(\<exists>e. marshal_raw d = Inl e) \<longleftrightarrow> \<not> json_text maxNestingDepth d"
proof (cases "compact_from maxNestingDepth jstart d")
  case None
  then have "\<not> json_text maxNestingDepth d" by (metis compact_from_total json_textD option.distinct(1))
  with None show ?thesis by (simp add: marshal_raw_def)
next
  case (Some e)
  with compact_json [OF Some] show ?thesis by (simp add: marshal_raw_def)
qed

lemma unmarshal_object:
  assumes "json_text maxNestingDepth (CHR ''{'' # x @ ''}'')"
    and "members_from maxNestingDepth jstart [] [] (CHR ''{'' # x @ ''}'') = ms"
    and "store_members store ms r0 = Some r"
  shows "unmarshal_struct store r0 (CHR ''{'' # x @ ''}'') = Inr r"
  using assms by (simp add: unmarshal_struct_def)

lemmas store_defs = store_MatchConfig_def store_Result_def store_int_def store_bool_def key_name_quoted

text \<open>
  A match configuration arrives as it was sent.  If the configuration's payload is JSON
  nested less than ten thousand deep and the match ID fits 64 bits, \<open>json.Marshal\<close> succeeds
  at the manager, and \<open>json.Unmarshal\<close> at the worker gives back the same match ID and the
  payload with its insignificant white space removed.
\<close>

theorem MatchConfig_roundtrip:
  assumes "json_text 9999 (Config c)" and "- (2 ^ 63) \<le> cfg_MatchID c" and "cfg_MatchID c < 2 ^ 63"
  shows "\<exists>raw p. marshal_raw (Config c) = Inr raw \<and> marshal_MatchConfig c = Inr p \<and>
     unmarshal_MatchConfig p = Inr (c\<lparr>Config := raw\<rparr>)"
proof -
  have "json_text maxNestingDepth (Config c)" unfolding depth_Suc by (rule json_text_Suc [OF assms(1)])
  then obtain raw where raw: "marshal_raw (Config c) = Inr raw" by (rule marshal_raw_total)
  from marshal_rawD [OF raw assms(1)] have r: "json_text 9999 raw" "trim raw = raw"
    by (simp_all add: maxNestingDepth_def)
  let ?x = "member ''matchID'' (marshal_int (cfg_MatchID c)) @ '','' @ member ''config'' raw"
  note o = object2 [of "''matchID''" "''config''" 9999, folded depth_Suc,
    OF _ _ json_text_int r(1) trim_int r(2), of "cfg_MatchID c", simplified]
  have "store_members store_MatchConfig
      [(quoted ''matchID'', marshal_int (cfg_MatchID c)), (quoted ''config'', raw)] \<lparr>cfg_MatchID = 0, Config = []\<rparr>
      = Some (c\<lparr>Config := raw\<rparr>)"
    by (simp add: store_defs parse_marshal_int [OF assms(2,3)] marshal_int_not_null)
  with unmarshal_object [of ?x _ store_MatchConfig] o
  have "unmarshal_MatchConfig (CHR ''{'' # ?x @ ''}'') = Inr (c\<lparr>Config := raw\<rparr>)"
    by (simp add: unmarshal_MatchConfig_def)
  with raw show ?thesis by (simp add: marshal_MatchConfig_def)
qed

text \<open>
  A result arrives as it was reported.  Whatever order the two services give the fields
  of the structure, a result whose details are JSON nested less than ten thousand deep is
  decoded by the manager to the same match ID, the same outcome and the same details without
  insignificant white space.
\<close>

theorem Result_roundtrip:
  assumes "json_text 9999 (Details r)" and "- (2 ^ 63) \<le> res_MatchID r" and "res_MatchID r < 2 ^ 63"
  shows "\<exists>raw p. marshal_raw (Details r) = Inr raw \<and> marshal_Result r = Inr p \<and>
     unmarshal_Result p = Inr (r\<lparr>Details := raw\<rparr>)"
proof -
  have "json_text maxNestingDepth (Details r)" unfolding depth_Suc by (rule json_text_Suc [OF assms(1)])
  then obtain raw where raw: "marshal_raw (Details r) = Inr raw" by (rule marshal_raw_total)
  from marshal_rawD [OF raw assms(1)] have q: "json_text 9999 raw" "trim raw = raw"
    by (simp_all add: maxNestingDepth_def)
  let ?x = "member ''matchID'' (marshal_int (res_MatchID r)) @ '','' @
    member ''success'' (marshal_bool (Success r)) @ '','' @ member ''details'' raw"
  note o = object3 [of "''matchID''" "''success''" "''details''" 9999, folded depth_Suc,
    OF _ _ _ json_text_int json_text_bool q(1) trim_int trim_bool q(2), of "res_MatchID r" "Success r", simplified]
  have "store_members store_Result
      [(quoted ''matchID'', marshal_int (res_MatchID r)), (quoted ''success'', marshal_bool (Success r)),
       (quoted ''details'', raw)] \<lparr>Success = False, res_MatchID = 0, Details = []\<rparr>
      = Some (r\<lparr>Details := raw\<rparr>)"
    by (simp add: store_defs parse_marshal_int [OF assms(2,3)] marshal_int_not_null marshal_bool_def)
  with unmarshal_object [of ?x _ store_Result] o
  have "unmarshal_Result (CHR ''{'' # ?x @ ''}'') = Inr (r\<lparr>Details := raw\<rparr>)"
    by (simp add: unmarshal_Result_def)
  with raw show ?thesis by (simp add: marshal_Result_def)
qed

section \<open>The players' configuration\<close>

lemma jrun_quote_char: "jrun limit (InString, ps) (quote_char c) = Some (InString, ps)"
proof -
  have h: "is_hex (hex_digit (n div 16))" "is_hex (hex_digit (n mod 16))" if "n < 64" for n :: nat
    using that by (auto simp: hex_digit_def is_hex_def is_digit_def)
  have "of_char c < (64 :: nat)" if "(of_char c :: nat) < 32 \<or> c \<in> set ''<>&''"
    using that by auto
  with h [of "of_char c"] show ?thesis
    by (auto simp: quote_char_def jrun_escape)
qed

lemma jrun_quote_chars: "jrun limit (InString, ps) (quote_chars s) = Some (InString, ps)"
proof (induction s rule: quote_chars.induct)
  case (2 c cs)
  then show ?case by (simp add: jrun_append jrun_quote_char jrun_escape)
qed simp

text \<open>A complete JSON text, from any place where a value may start.\<close>

lemma jrun_string:
  "jrun limit (BeginValue, ps) (marshal_string s) = Some (EndValue, ps)"
  by (simp add: marshal_string_def begin_value_def is_space_def jrun_append jrun_quote_chars)

lemma jrun_member_in:
  assumes "plain_key k" and "st = BeginStringOrEmpty \<or> st = BeginString"
  shows "jrun limit (st, InKey # ps) (member k x) = jrun limit (BeginValue, InValue # ps) x"
proof -
  have "jstep limit (CHR 0x22) (st, InKey # ps) = Some (InString, InKey # ps)"
    using assms(2) by (auto simp: begin_string_def is_space_def)
  then show ?thesis by (simp add: member_def jrun_append jrun_plain [OF assms(1)] is_space_def)
qed

lemma jrun_User:
  assumes "length ps < limit" and "ps \<noteq> []"
  shows "jrun limit (BeginValue, ps) (marshal_User u) = Some (EndValue, ps)"
proof -
  have o: "jstep limit (CHR ''{'') (BeginValue, ps) = Some (BeginStringOrEmpty, InKey # ps)"
    using assms(1) by (simp add: begin_value_def push_def is_space_def)
  have k: "plain_key ''login''" "plain_key ''matchAuthToken''" by (simp_all add: plain_key_def)
  show ?thesis
    using o assms(2)
    by (simp add: marshal_User_def jrun_member_in k jrun_append jrun_string pop_def is_space_def
        del: jstep.simps(1))
qed

lemma jrun_comma_separated:
  assumes "\<And>x. x \<in> set xs \<Longrightarrow> jrun limit (BeginValue, InArray # ps) x = Some (EndValue, InArray # ps)"
    and "xs \<noteq> []"
  shows "jrun limit (BeginValue, InArray # ps) (comma_separated xs) = Some (EndValue, InArray # ps)"
  using assms
proof (induction xs rule: comma_separated.induct)
  case (3 x y xs)
  then have "jrun limit (BeginValue, InArray # ps) (comma_separated (y # xs)) = Some (EndValue, InArray # ps)"
    by simp
  with 3(2) [of x] show ?case by (simp add: jrun_append is_space_def del: jstep.simps(1))
qed simp_all

lemma comma_separated_hd:
  "xs \<noteq> [] \<Longrightarrow> \<forall>x\<in>set xs. \<exists>y. x = CHR ''{'' # y \<Longrightarrow> \<exists>y. comma_separated xs = CHR ''{'' # y"
  by (induction xs rule: comma_separated.induct) auto

lemma players_json: "json_text 3 (marshal_players us)"
proof -
  have k: "plain_key ''players''" by (simp add: plain_key_def)
  have o: "jstep 3 (CHR ''{'') jstart = Some (BeginStringOrEmpty, [InKey])"
    by (simp add: jstart_def begin_value_def push_def is_space_def)
  let ?v = "if us = [] then ''null'' else ''['' @ comma_separated (map marshal_User us) @ '']''"
  have "jrun 3 (BeginValue, [InValue]) ?v = Some (EndValue, [InValue])"
  proof (cases "us = []")
    case True
    then show ?thesis by (simp add: begin_value_def is_space_def is_digit_def)
  next
    case False
    have e: "jrun 3 (BeginValue, [InArray, InValue]) (comma_separated (map marshal_User us)) =
        Some (EndValue, [InArray, InValue])"
      using False by (intro jrun_comma_separated) (auto intro!: jrun_User)
    have "\<exists>y. comma_separated (map marshal_User us) = CHR ''{'' # y"
      using False by (intro comma_separated_hd) (simp_all add: marshal_User_def)
    then obtain y where y: "comma_separated (map marshal_User us) = CHR ''{'' # y" by blast
    have "jrun 3 (BeginValueOrEmpty, [InArray, InValue]) (comma_separated (map marshal_User us)) =
        Some (EndValue, [InArray, InValue])"
      using e by (simp add: y is_space_def)
    with False show ?thesis
      by (simp add: jrun_append begin_value_def push_def pop_def is_space_def)
  qed
  then show ?thesis
    by (simp add: json_text_def marshal_players_def o jrun_member_in k jrun_append pop_def is_space_def
        accepts_def del: jstep.simps(1) split del: if_split)
qed

lemma json_text_mono: "json_text limit d \<Longrightarrow> json_text (limit + k) d"
  by (induction k) (simp_all add: json_text_Suc)

end
