(* ===== verification/Payloads.thy ===== *)
theory Payloads
  imports Json_Props
begin

text \<open>
  The interface of the two payloads that the services exchange, a match's configuration and its
  result: what a sender and a receiver may rely on, whichever of the two it is.  Both carry
  one raw JSON text that the services do not look into.
\<close>

section \<open>The contract of a payload\<close>

text \<open>
  \<open>raw x\<close> is the text a value carries, \<open>put c x\<close> the value carrying \<open>c\<close> instead; \<open>representable\<close>
  values have integers of 64 bits.  A representable value whose text may be nested into an
  object is encoded, and decoded with its text compacted; a value whose text is not JSON is
  refused with the compactor's error.
\<close>

locale payload =
  fixes encode :: "'a \<Rightarrow> go_error + bytes" and decode :: "bytes \<Rightarrow> go_error + 'a"
    and raw :: "'a \<Rightarrow> bytes" and put :: "bytes \<Rightarrow> 'a \<Rightarrow> 'a" and representable :: "'a \<Rightarrow> bool"
  assumes carried: "representable x \<Longrightarrow> json_text 9999 (raw x) \<Longrightarrow>
      \<exists>c p. marshal_raw (raw x) = Inr c \<and> encode x = Inr p \<and> decode p = Inr (put c x)"
    and refused: "marshal_raw (raw x) = Inl e \<Longrightarrow> encode x = Inl e"
    and raw_put: "raw (put c x) = c" and put_raw: "put (raw x) x = x"
begin

text \<open>What is decoded is determined by what was encoded, also when several values encode alike.\<close>

lemma decoded:
  assumes "encode x = Inr p" and "representable x" and "json_text 9999 (raw x)"
  obtains c where "marshal_raw (raw x) = Inr c" and "decode p = Inr (put c x)"
  using carried [OF assms(2,3)] assms(1) by auto

lemma compact_decoded:
  assumes "marshal_raw (raw x) = Inr (raw x)" and "representable x" and "json_text 9999 (raw x)"
  obtains p where "encode x = Inr p" and "decode p = Inr x"
  using carried [OF assms(2,3)] assms(1) put_raw [of x] by auto

lemma encode_inj:
  assumes "encode x = Inr p" and "encode y = Inr p" and "representable x" and "representable y"
    and "marshal_raw (raw x) = Inr (raw x)" and "marshal_raw (raw y) = Inr (raw y)"
    and "json_text 9999 (raw x)" and "json_text 9999 (raw y)"
  shows "x = y"
proof -
  from compact_decoded [OF assms(5,3,7)] obtain p1 where 1: "encode x = Inr p1" "decode p1 = Inr x" .
  from compact_decoded [OF assms(6,4,8)] obtain p2 where 2: "encode y = Inr p2" "decode p2 = Inr y" .
  from 1 2 assms(1,2) show ?thesis by simp
qed

text \<open>It is the text, and only the text, on which the encoding fails.\<close>

lemma encode_fails_not_json:
  assumes "\<not> json_text maxNestingDepth (raw x)"
  obtains e where "marshal_raw (raw x) = Inl e" and "encode x = Inl e"
  using marshal_raw_fails [of "raw x"] assms refused by blast

text \<open>A received value can be sent on unchanged: what was decoded is compact.\<close>

lemma resent:
  assumes "encode x = Inr p" and "representable x" and "json_text 9999 (raw x)"
    and "decode p = Inr y"
  shows "json_text 9999 (raw y) \<and> trim (raw y) = raw y"
proof -
  from decoded [OF assms(1-3)] obtain c where c: "marshal_raw (raw x) = Inr c" "decode p = Inr (put c x)" .
  with assms(4) have y: "y = put c x" by simp
  have "raw y = c" unfolding y by (rule raw_put)
  with marshal_rawD [OF c(1) assms(3)] show ?thesis by (simp add: maxNestingDepth_def)
qed

end

section \<open>The empty object\<close>

lemma braces_json: "json_text 9999 ''{}''"
  by (simp add: json_text_def jstart_def begin_value_def push_def pop_def is_space_def accepts_def)

lemma braces_compact: "marshal_raw ''{}'' = Inr ''{}''"
  by (simp add: marshal_raw_def jstart_def begin_value_def push_def pop_def is_space_def
      line_separator_def compact_char_def accepts_def maxNestingDepth_def)

section \<open>The two payloads\<close>

interpretation job: payload marshal_MatchConfig unmarshal_MatchConfig Config "\<lambda>c x. x\<lparr>Config := c\<rparr>"
  "\<lambda>x. - (2 ^ 63) \<le> cfg_MatchID x \<and> cfg_MatchID x < 2 ^ 63"
  by unfold_locales (rule MatchConfig_roundtrip, simp_all add: marshal_MatchConfig_def)

interpretation report: payload marshal_Result unmarshal_Result Details "\<lambda>c x. x\<lparr>Details := c\<rparr>"
  "\<lambda>x. - (2 ^ 63) \<le> res_MatchID x \<and> res_MatchID x < 2 ^ 63"
  by unfold_locales (rule Result_roundtrip, simp_all add: marshal_Result_def)

end
