(* ===== verification/Broker_Props.thy ===== *)
theory Broker_Props
  imports Manager_Broker Game_Broker Payloads Manager Server_Props
begin

text \<open>
  The two broker adapters together: a job assigned by the manager is the one the worker
  runs, a report published by a worker is the one the manager reads, and a game whose output
  is not JSON ends as a cancelled match.  What JetStream does with the result stream is a
  hypothesis on the library's functions.
\<close>

section \<open>Guards\<close>

lemma game_guard_open: "gc_opened gc \<Longrightarrow> \<not> gc_closed gc \<Longrightarrow> game_guard gc = None"
  by (simp add: game_guard_def)

lemma nats_guard_open: "nc_opened nc \<Longrightarrow> \<not> nc_closed nc \<Longrightarrow> nats_guard nc = None"
  by (simp add: nats_guard_def)

section \<open>Assignments\<close>

text \<open>
  C16. The worker runs the match it was given.  For every list of players and every match ID
  the database can draw, \<open>AssignJob\<close> over an open connection sends one request, on the
  subject to which the worker with that ID subscribes; and a worker that receives the payload
  takes exactly this match ID, with the players' JSON as its configuration, once it has
  acknowledged the request.
\<close>

theorem assignment_arrives:
  assumes "nats_guard nc = None" and "game_guard gc = None" and "gc_requestSub gc = Some sub"
    and "- (2 ^ 63) \<le> m" and "m < 2 ^ 63"
  shows "\<exists>payload raw.
     AssignJob N workerID \<lparr>cfg_MatchID = m, Config = marshal_players us\<rparr> (nc, w) =
       (case nats_Request N (nc_assignJobTimeout nc) (assignSubject @ ''.'' @ workerID) payload w of
          (Inl e, w1) \<Rightarrow> (Some e, nc, w1) | (Inr _, w1) \<Rightarrow> (None, nc, w1)) \<and>
     marshal_raw (marshal_players us) = Inr raw \<and>
     (\<forall>v msg v1. nats_NextMsg N sub cx v = Some (Inr msg, v1) \<and> msg_Data msg = payload \<longrightarrow>
        GetMatchConfig N cx (gc, v) =
          (case nats_Publish N (msg_Reply msg) [] v1 of
             (Some e, v2) \<Rightarrow> Some (Inl e, gc, v2)
           | (None, v2) \<Rightarrow> Some (Inr \<lparr>cfg_MatchID = m, Config = raw\<rparr>, gc, v2)))"
proof -
  let ?cfg = "\<lparr>cfg_MatchID = m, Config = marshal_players us\<rparr>"
  have "json_text 9999 (Config ?cfg)"
    using json_text_mono [OF players_json, of 9996 us] by simp
  from job.carried [OF _ this] assms(4,5) obtain raw p
    where p: "marshal_raw (marshal_players us) = Inr raw" "marshal_MatchConfig ?cfg = Inr p"
      "unmarshal_MatchConfig p = Inr \<lparr>cfg_MatchID = m, Config = raw\<rparr>"
    by auto
  show ?thesis
    by (rule exI [of _ p], rule exI [of _ raw])
      (auto simp: AssignJob_def GetMatchConfig_def assms(1-3) p split: prod.splits)
qed

section \<open>Reports\<close>

text \<open>
  JetStream as the two services rely on it, with \<open>pending w\<close> the messages of the result stream
  that the consumer has not been given: a publication that succeeds appends the message, one
  that fails may have; the consumer is given the oldest message.
\<close>

definition jetstream :: "'w Nats \<Rightarrow> ('w \<Rightarrow> bytes list) \<Rightarrow> bool" where
  "jetstream N pending \<longleftrightarrow>
     (\<forall>cx p w r w'. js_Publish N cx resultSubject p w = (r, w') \<longrightarrow>
        pending w' = pending w @ [p] \<or> r \<noteq> None \<and> pending w' = pending w) \<and>
     (\<forall>t w m w'. js_Next N t w = (Inr m, w') \<longrightarrow> pending w = Data m # pending w') \<and>
     (\<forall>t w e w'. js_Next N t w = (Inl e, w') \<longrightarrow> pending w' = pending w)"

lemma jetstreamD:
  assumes "jetstream N pending"
  shows "js_Publish N cx resultSubject p w = (r, w') \<Longrightarrow>
      pending w' = pending w @ [p] \<or> r \<noteq> None \<and> pending w' = pending w"
    and "js_Next N t w = (Inr m, w') \<Longrightarrow> pending w = Data m # pending w'"
  using assms unfolding jetstream_def by blast+

text \<open>The result a report stands for: with details, or cancelled.\<close>

definition report_of :: "int \<Rightarrow> bytes option \<Rightarrow> Result" where
  "report_of m d =
     (case d of
        None \<Rightarrow> \<lparr>Success = False, res_MatchID = m, Details = ''{}''\<rparr>
      | Some raw \<Rightarrow> \<lparr>Success = True, res_MatchID = m, Details = raw\<rparr>)"

definition send_report :: "'w Nats \<Rightarrow> ctx \<Rightarrow> int \<Rightarrow> bytes option \<Rightarrow> 'w game_nats_world proc" where
  "send_report N cx m d = (case d of None \<Rightarrow> SendCancel N cx m | Some out \<Rightarrow> SendResult N cx m out)"

text \<open>What the adapter publishes, and that the manager's decoder reads it back.\<close>

lemma send_report_publishes:
  assumes "game_guard gc = None" and "- (2 ^ 63) \<le> m" and "m < 2 ^ 63"
    and "\<forall>out. d = Some out \<longrightarrow> json_text 9999 out"
  obtains raw p where "unmarshal_Result p = Inr (report_of m (map_option (\<lambda>_. raw) d))"
    and "\<forall>out. d = Some out \<longrightarrow> marshal_raw out = Inr raw" and "d = None \<Longrightarrow> raw = ''{}''"
    and "send_report N cx m d (gc, w) = (case js_Publish N cx resultSubject p w of (r, w1) \<Rightarrow> (r, gc, w1))"
proof (cases d)
  case None
  from report.compact_decoded [of "\<lparr>Success = False, res_MatchID = m, Details = ''{}''\<rparr>"] assms(2,3)
    braces_json braces_compact obtain p where "marshal_Result \<lparr>Success = False, res_MatchID = m, Details = ''{}''\<rparr> = Inr p"
    "unmarshal_Result p = Inr \<lparr>Success = False, res_MatchID = m, Details = ''{}''\<rparr>"
    by auto
  with None assms(1) show thesis
    by (intro that [of p "''{}''"]) (simp_all add: report_of_def send_report_def SendCancel_def)
next
  case (Some out)
  from report.carried [of "\<lparr>Success = True, res_MatchID = m, Details = out\<rparr>"] assms(2-4) Some
  obtain raw p where "marshal_raw out = Inr raw"
    "marshal_Result \<lparr>Success = True, res_MatchID = m, Details = out\<rparr> = Inr p"
    "unmarshal_Result p = Inr \<lparr>Success = True, res_MatchID = m, Details = raw\<rparr>"
    by auto
  with Some assms(1) show thesis
    by (intro that [of p raw]) (simp_all add: report_of_def send_report_def SendResult_def)
qed

text \<open>
  A report that was published is the one the manager reads.  When a worker's report, a
  result or a cancel, was published, the stream has exactly one more message; and whenever the
  manager comes to it, it reads that outcome for that match, with the same details up to
  white space, unless the fetch or the acknowledgement fails: it is never undecodable.
\<close>

theorem report_read_back:
  assumes "jetstream N pending" and "game_guard gc = None" and "- (2 ^ 63) \<le> m" and "m < 2 ^ 63"
    and "\<forall>out. d = Some out \<longrightarrow> json_text 9999 out"
    and "send_report N cx m d (gc, w) = (None, gc', w1)"
  shows "\<exists>p raw. pending w1 = pending w @ [p] \<and> (\<forall>out. d = Some out \<longrightarrow> marshal_raw out = Inr raw) \<and>
     (\<forall>wm nc v rest r nc' v'. brokerConn wm = manager_broker N \<and> nats_guard nc = None \<and> pending v = p # rest \<and>
        handleResults_fetch unmarshal_Result wm (nc, v) = (r, nc', v') \<longrightarrow>
        (case r of
           Inr res \<Rightarrow> res_MatchID res = m \<and> Success res = (d \<noteq> None) \<and>
             Details res = (if d = None then ''{}'' else raw)
         | Inl e \<Rightarrow> \<exists>e'. e = Errorf ''%w: %w'' [Sentinel ErrFailedToGetResult, e'] \<or>
             e = Errorf ''%w: %w'' [Sentinel ErrFailedToAckResult, e']))"
proof -
  from send_report_publishes [OF assms(2-5), of N cx w] obtain raw p
    where p: "unmarshal_Result p = Inr (report_of m (map_option (\<lambda>_. raw) d))"
      "\<forall>out. d = Some out \<longrightarrow> marshal_raw out = Inr raw" "d = None \<Longrightarrow> raw = ''{}''"
      "send_report N cx m d (gc, w) = (case js_Publish N cx resultSubject p w of (r, w1) \<Rightarrow> (r, gc, w1))"
    by blast
  from p(4) assms(6) have pub: "js_Publish N cx resultSubject p w = (None, w1)"
    by (auto split: prod.splits)
  have "case r of
           Inr res \<Rightarrow> res_MatchID res = m \<and> Success res = (d \<noteq> None) \<and>
             Details res = (if d = None then ''{}'' else raw)
         | Inl e \<Rightarrow> \<exists>e'. e = Errorf ''%w: %w'' [Sentinel ErrFailedToGetResult, e'] \<or>
             e = Errorf ''%w: %w'' [Sentinel ErrFailedToAckResult, e']"
    if b: "brokerConn wm = manager_broker N" "nats_guard nc = None" "pending v = p # rest"
      and h: "handleResults_fetch unmarshal_Result wm (nc, v) = (r, nc', v')" for wm nc v rest r nc' v'
  proof -
    obtain x v1 where x: "js_Next N MaxInt64 v = (x, v1)" by fastforce
    show ?thesis
    proof (cases x)
      case (Inl e)
      with h x b show ?thesis
        by (auto simp: handleResults_fetch_def manager_broker_def GetResultNATS_def)
    next
      case (Inr msg)
      from jetstreamD(2) [OF assms(1) x [unfolded Inr]] b(3) p(1)
      have u: "unmarshal_Result (Data msg) = Inr (report_of m (map_option (\<lambda>_. raw) d))" by simp
      have bg: "broker_GetResult (brokerConn wm) (nc, v) = (Inr (lift_message msg), nc, v1)"
        using b x Inr by (simp add: manager_broker_def GetResultNATS_def)
      show ?thesis
        using h p(3)
        by (cases d) (auto simp: handleResults_fetch_def bg lift_message_def u report_of_def
            split: prod.splits option.splits)
    qed
  qed
  with jetstreamD(1) [OF assms(1) pub] p(2) show ?thesis by blast
qed

text \<open>
  C24. A game whose output is not JSON ends as a cancelled match.  When the process ends well
  but what it left in the result file is not a JSON text, nothing is published for the result:
  \<open>runMatch\<close> reports the failure and its only publication is the cancel of that match.
\<close>

theorem invalid_output_cancelled:
  assumes "GetMatchConfig N cx (gc, w) = Some (Inr cfg, gc, w1)" and "game_guard gc = None"
    and "runServer (deployed_server (game_broker N) args) cx (Config cfg) (x, gc, w1) =
           Some (Inr out, x', gc, w1)"
    and "\<not> json_text maxNestingDepth out"
  shows "\<exists>e. runMatch (deployed_server (game_broker N) args) cx (x, gc, w) =
     Some (Some (Errorf ''failed to send result: %w'' [Errorf ''the result is not valid JSON: %w'' [e]]),
           x', snd (send_report N (WithTimeout Background) (cfg_MatchID cfg) None (gc, w1)))"
proof -
  from report.encode_fails_not_json [of "\<lparr>Success = True, res_MatchID = cfg_MatchID cfg, Details = out\<rparr>"] assms(4)
  obtain e where "marshal_Result \<lparr>Success = True, res_MatchID = cfg_MatchID cfg, Details = out\<rparr> = Inl e" by auto
  then have s: "SendResult N c (cfg_MatchID cfg) out (gc, w1) =
      (Some (Errorf ''the result is not valid JSON: %w'' [e]), gc, w1)" for c
    by (simp add: SendResult_def assms(2))
  have g: "gb_GetMatchConfig (on_broker (game_broker N)) cx (x, gc, w) =
      Some (Inr cfg, x, gc, w1)"
    using assms(1) by (simp add: on_broker_def game_broker_def)
  have r: "sendResult (deployed_server (game_broker N) args) cx (cfg_MatchID cfg) out (x', gc, w1) =
      (Some (Errorf ''the result is not valid JSON: %w'' [e]), x', gc, w1)"
    by (simp add: sendResult_def on_broker_def game_broker_def s)
  have c: "sendCancel (deployed_server (game_broker N) args) (cfg_MatchID cfg) (x', gc, w1) =
      (x', snd (send_report N (WithTimeout Background) (cfg_MatchID cfg) None (gc, w1)))"
    by (simp add: sendCancel_def on_broker_def game_broker_def send_report_def split: prod.splits)
  show ?thesis by (rule exI [of _ e]) (simp add: runMatch_def g assms(3) r c)
qed

end
