(* ===== verification/Docker_Props.thy ===== *)
theory Docker_Props
  imports Docker Manager_Props Broker_Props
begin

text \<open>
  The Docker adapter under the worker manager: which worker containers exist over the life of
  a manager, and the port a client is told to connect to.  What the engine does with containers is a hypothesis on its
  client's functions.
\<close>

section \<open>The engine\<close>

text \<open>
  With \<open>cs w\<close> the IDs of the containers that carry the worker label: creating one adds a new
  ID, removing takes it away when it succeeds, the list with the label's filter is exactly
  these, and nothing else changes them.
\<close>

definition engine :: "'w Engine \<Rightarrow> ('w \<Rightarrow> string set) \<Rightarrow> bool" where
  "engine D cs \<longleftrightarrow>
     (\<forall>t o' w i w'. ContainerCreate D t o' w = (Inr i, w') \<longrightarrow>
        co_Labels o' service_label = Some ''game-server'' \<longrightarrow> cs w' = insert i (cs w)) \<and>
     (\<forall>t i w. cs (snd (ContainerStart D t i w)) = cs w) \<and>
     (\<forall>t i w. fst (ContainerRemove D t True True i w) = None \<longrightarrow>
        cs (snd (ContainerRemove D t True True i w)) = cs w - {i}) \<and>
     (\<forall>t w is w'. ContainerList D t (service_label, ''game-server'') w = (Inr is, w') \<longrightarrow>
        set is = cs w \<and> cs w' = cs w) \<and>
     (\<forall>w. cs (snd (client_New D w)) = cs w) \<and> (\<forall>w. cs (snd (client_Close D w)) = cs w)"

definition removals_succeed :: "'w Engine \<Rightarrow> bool" where
  "removals_succeed D \<longleftrightarrow> (\<forall>t i w. fst (ContainerRemove D t True True i w) = None)"

lemma engineD:
  assumes "engine D cs"
  shows "ContainerCreate D t opts w = (Inr i, w') \<Longrightarrow> co_Labels opts service_label = Some ''game-server'' \<Longrightarrow>
      cs w' = insert i (cs w)"
    and "cs (snd (ContainerStart D t i w)) = cs w"
    and "removals_succeed D \<Longrightarrow> cs (snd (ContainerRemove D t True True i w)) = cs w - {i}"
    and "ContainerList D t (service_label, ''game-server'') w = (Inr is, w') \<Longrightarrow> set is = cs w \<and> cs w' = cs w"
    and "cs (snd (client_New D w)) = cs w" and "cs (snd (client_Close D w)) = cs w"
proof -
  note e = assms [unfolded engine_def]
  show "ContainerCreate D t opts w = (Inr i, w') \<Longrightarrow> co_Labels opts service_label = Some ''game-server'' \<Longrightarrow>
      cs w' = insert i (cs w)"
    using e [THEN conjunct1] by blast
  show "cs (snd (ContainerStart D t i w)) = cs w"
    using e [THEN conjunct2, THEN conjunct1] by blast
  show "removals_succeed D \<Longrightarrow> cs (snd (ContainerRemove D t True True i w)) = cs w - {i}"
    using e [THEN conjunct2, THEN conjunct2, THEN conjunct1] by (simp add: removals_succeed_def)
  show "ContainerList D t (service_label, ''game-server'') w = (Inr is, w') \<Longrightarrow> set is = cs w \<and> cs w' = cs w"
    using e [THEN conjunct2, THEN conjunct2, THEN conjunct2, THEN conjunct1] by blast
  show "cs (snd (client_New D w)) = cs w" "cs (snd (client_Close D w)) = cs w"
    using e [THEN conjunct2, THEN conjunct2, THEN conjunct2, THEN conjunct2] by blast+
qed

lemma remove_all_cs:
  "engine D cs \<Longrightarrow> removals_succeed D \<Longrightarrow> cs (remove_all D t is w) = cs w - set is"
  by (induction "is" arbitrary: w) (auto simp: engineD(3))

lemma zombies_removed:
  assumes "engine D cs" and "removals_succeed D" and "RemoveZombieWorkers D (dc, w) = (None, dc', w')"
  shows "dc' = dc \<and> cs w' = {}"
proof -
  from assms(3) obtain cfg "is" w1 where "docker_guard dc = Inr cfg"
    "ContainerList D (killTimeout dc) (service_label, ''game-server'') w = (Inr is, w1)"
    "dc' = dc" "w' = remove_all D (killTimeout dc) is w1"
    by (auto simp: RemoveZombieWorkers_def split: sum.splits prod.splits)
  with remove_all_cs [OF assms(1,2)] engineD(4) [OF assms(1)] show ?thesis by simp
qed

lemma spawned:
  assumes "engine D cs" and "SpawnContainer D workerID (dc, w) = (Inr i, dc', w')"
  shows "dc' = dc \<and> cs w' = insert i (cs w) \<and> (\<exists>cfg. docker_guard dc = Inr cfg)"
proof -
  from assms(2) obtain cfg w1 where c: "docker_guard dc = Inr cfg" "dc' = dc"
    "ContainerCreate D (createTimeout dc)
       (containerCreateOptions cfg (genPortMap (ExposePorts cfg)) workerID) w = (Inr i, w1)"
    "ContainerStart D (createTimeout dc) i w1 = (None, w')"
    by (auto simp: SpawnContainer_def split: sum.splits prod.splits option.splits)
  have "co_Labels (containerCreateOptions cfg (genPortMap (ExposePorts cfg)) workerID) service_label
      = Some ''game-server''" by (simp add: containerCreateOptions_def)
  from engineD(1) [OF assms(1) c(3) this] have "cs w1 = insert i (cs w)" .
  moreover have "cs (snd (ContainerStart D (createTimeout dc) i w1)) = cs w1"
    by (rule engineD(2) [OF assms(1)])
  ultimately show ?thesis using c by simp
qed

lemma docker_ops_sel [simp]:
  "docker_Open (docker_ops D) = OpenDocker D" "docker_Close (docker_ops D) = CloseDocker D"
  "docker_SpawnContainer (docker_ops D) = SpawnContainer D"
  "docker_RestartContainer (docker_ops D) = RestartContainer D"
  "docker_RemoveContainer (docker_ops D) = RemoveContainer D"
  "docker_GetGamePort (docker_ops D) = GetGamePort D"
  "docker_RemoveZombieWorkers (docker_ops D) = RemoveZombieWorkers D"
  by (simp_all add: docker_ops_def)

text \<open>The spawn loop keeps the manager's list and the engine's containers the same.\<close>

lemma spawn_workers_cs:
  assumes "engine D cs" and "dockerConn wm = docker_ops D"
    and "spawn_workers is wm (dc, w) = (None, wm', dc', w')"
    and "cs w = set (map ContainerID (workers wm))"
  shows "dc' = dc \<and> cs w' = set (map ContainerID (workers wm'))"
  using assms(2-4)
proof (induction "is" arbitrary: wm w)
  case Nil
  then show ?case by simp
next
  case (Cons i "is")
  obtain x dc1 w1 where x: "SpawnContainer D (Itoa i) (dc, w) = (x, dc1, w1)" by (metis surj_pair)
  with Cons.prems(1,2) obtain c where c: "x = Inr c"
    by (cases x) (auto simp: Let_def)
  let ?wm = "wm\<lparr>workers := workers wm @ [NewWorker (Itoa i) c (workerMaxPingRetries wm) (workerRestartTimeout wm)]\<rparr>"
  from spawned [OF assms(1) x [unfolded c]] have s: "dc1 = dc" "cs w1 = insert c (cs w)" by simp_all
  have "spawn_workers is ?wm (dc, w1) = (None, wm', dc', w')"
    using Cons.prems(1,2) x c s(1) by (simp add: Let_def)
  moreover have "cs w1 = set (map ContainerID (workers ?wm))"
    using s(2) Cons.prems(3) by (simp add: NewWorker_def)
  ultimately show ?case using Cons.IH [of ?wm w1] Cons.prems(1) by simp
qed

text \<open>The steps of a successful \<open>Start\<close>.\<close>

lemma Start_success:
  assumes "Start wm w = (None, wm', w')"
  obtains w1 w2 w3 w4 wm5 where "docker_Open (dockerConn wm) (config wm) w = (None, w1)"
    and "broker_Open (brokerConn wm) (config wm) w1 = (None, w2)" and "db_Open (dbConn wm) w2 = (None, w3)"
    and "docker_RemoveZombieWorkers (dockerConn wm) w3 = (None, w4)"
    and "spawn_workers [0..<nat (workerCount wm)] wm w4 = (None, wm5, w')"
    and "workers wm' = workers wm5" and "dockerConn wm' = dockerConn wm"
    and "brokerConn wm' = brokerConn wm" and "dbConn wm' = dbConn wm"
proof -
  have frame: "dockerConn wm5 = dockerConn wm \<and> brokerConn wm5 = brokerConn wm \<and> dbConn wm5 = dbConn wm"
    if sp: "spawn_workers is wm w4 = (r, wm5, w5)" for "is" r w4 wm5 w5
  proof -
    obtain ws where "wm5 = wm\<lparr>workers := ws\<rparr>" using spawn_workers_frame [OF sp] by blast
    then show ?thesis by simp
  qed
  from assms show thesis
    by (auto simp: Start_def split: if_splits prod.splits option.splits intro!: that dest: frame)
qed

text \<open>What a method of the broker or the database leaves alone.\<close>

definition leaves_docker :: "('w \<Rightarrow> string set) \<Rightarrow> 'w docker_world proc \<Rightarrow> bool" where
  "leaves_docker cs f \<longleftrightarrow> (\<forall>x r y. f x = (r, y) \<longrightarrow> fst y = fst x \<and> cs (snd y) = cs (snd x))"

lemma leaves_dockerD: "leaves_docker cs f \<Longrightarrow> f (dc, w) = (r, dc', w') \<Longrightarrow> dc' = dc \<and> cs w' = cs w"
  unfolding leaves_docker_def by fastforce

lemma remove_containers_cs:
  assumes "engine D cs" and "removals_succeed D" and "docker_guard dc = Inr cfg"
  shows "fst (remove_containers (docker_ops D) wks (dc, w)) = dc \<and>
    cs (snd (remove_containers (docker_ops D) wks (dc, w))) = cs w - set (map ContainerID wks)"
proof (induction wks arbitrary: w)
  case Nil
  then show ?case by simp
next
  case (Cons wk wks)
  obtain r w1 where r: "ContainerRemove D (killTimeout dc) True True (ContainerID wk) w = (r, w1)" by fastforce
  then have "cs w1 = cs w - {ContainerID wk}"
    using engineD(3) [OF assms(1,2), of "killTimeout dc" "ContainerID wk" w] by simp
  with Cons [of w1] r assms(3) show ?case by (auto simp: RemoveContainer_def)
qed

text \<open>
  C6. The manager accounts for every worker container.  When \<open>Start\<close> succeeds, the containers
  with the worker label are exactly those of the workers in the pool, whatever a previous run
  left behind; and when \<open>Shutdown\<close> then releases them, in any later state in which no other
  worker container exists, none is left.  (Provided the engine carries out the removals; the
  adapter only logs when it does not.)
\<close>

theorem containers_accounted:
  assumes "engine D cs" and "removals_succeed D"
    and "leaves_docker cs (broker_Open br cfg)" and "leaves_docker cs (db_Open db)"
    and "leaves_docker cs (broker_Close br)" and "leaves_docker cs (db_Close db)"
    and "Start (NewWorkerManager (docker_ops D) br db cfg) (NewDockerConnection, w) = (None, wm, dc, w1)"
  shows "cs w1 = set (map ContainerID (workers wm)) \<and>
     (\<forall>v. cs v \<subseteq> set (map ContainerID (workers wm)) \<longrightarrow> cs (snd (Shutdown_release wm (dc, v))) = {})"
proof -
  let ?wm = "NewWorkerManager (docker_ops D) br db cfg"
  have sel: "dockerConn ?wm = docker_ops D" "brokerConn ?wm = br" "dbConn ?wm = db" "config ?wm = cfg"
    "workers ?wm = []" by (simp_all add: NewWorkerManager_def)
  obtain y1 y2 y3 y4 wm5
    where steps: "OpenDocker D cfg (NewDockerConnection, w) = (None, y1)" "broker_Open br cfg y1 = (None, y2)"
      "db_Open db y2 = (None, y3)" "RemoveZombieWorkers D y3 = (None, y4)"
      "spawn_workers [0..<nat (workerCount ?wm)] ?wm y4 = (None, wm5, dc, w1)"
      and wk: "workers wm = workers wm5"
      and cn: "dockerConn wm = docker_ops D" "brokerConn wm = br" "dbConn wm = db"
    by (rule Start_success [OF assms(7), unfolded sel docker_ops_sel])
  obtain dc1 v1 dc2 v2 dc3 v3 dc4 v4 where y: "y1 = (dc1, v1)" "y2 = (dc2, v2)" "y3 = (dc3, v3)" "y4 = (dc4, v4)"
    by (metis surj_pair)
  note steps = steps [unfolded y]
  from steps(1) have o: "docker_guard dc1 = Inr cfg"
    by (auto simp: OpenDocker_def NewDockerConnection_def docker_guard_def split: prod.splits option.splits)
  from leaves_dockerD [OF assms(3) steps(2)] leaves_dockerD [OF assms(4) steps(3)]
    zombies_removed [OF assms(1,2) steps(4)]
  have d: "dc4 = dc1" "cs v4 = {}" by simp_all
  from spawn_workers_cs [OF assms(1) sel(1) steps(5)] d sel(5) wk
  have sp: "dc = dc1" "cs w1 = set (map ContainerID (workers wm))" by simp_all
  have "cs (snd (Shutdown_release wm (dc, v))) = {}" if v: "cs v \<subseteq> set (map ContainerID (workers wm))" for v
  proof -
    obtain dc1' v1' where q1: "remove_containers (docker_ops D) (workers wm) (dc, v) = (dc1', v1')" by fastforce
    with remove_containers_cs [OF assms(1,2) o, of "workers wm" v] sp(1) v
    have "dc1' = dc" "cs v1' = {}" by auto
    moreover obtain r2' dc2' v2' where q2: "CloseDocker D (dc1', v1') = (r2', dc2', v2')" by (metis surj_pair)
    ultimately have "cs v2' = {}"
      using engineD(6) [OF assms(1), of v1'] o sp(1)
      by (auto simp: CloseDocker_def split: prod.splits)
    moreover obtain r3' dc3' v3' where q3: "broker_Close br (dc2', v2') = (r3', dc3', v3')" by (metis surj_pair)
    moreover obtain r4' dc4' v4' where q4: "db_Close db (dc3', v3') = (r4', dc4', v4')" by (metis surj_pair)
    ultimately show ?thesis
      using leaves_dockerD [OF assms(5) q3] leaves_dockerD [OF assms(6) q4] q1 q2
      by (simp add: Shutdown_release_def cn Let_def)
  qed
  with sp(2) show ?thesis by blast
qed

section \<open>The client's port\<close>

text \<open>
  What the engine says of a container's ports: with \<open>running w i\<close> the options with which the
  container \<open>i\<close> was created while it runs, an inspection of a running container lists, for
  every port the options bind, at least one binding with a host port that is not empty (the
  engine chooses one where the options leave it open), and does not change what is running.
\<close>

definition publishes :: "'w Engine \<Rightarrow> ('w \<Rightarrow> string \<Rightarrow> ContainerCreateOptions option) \<Rightarrow> bool" where
  "publishes D running \<longleftrightarrow>
     (\<forall>t opts i w w1 w2. ContainerCreate D t opts w = (Inr i, w1) \<longrightarrow> ContainerStart D t i w1 = (None, w2) \<longrightarrow>
        running w2 i = Some opts) \<and>
     (\<forall>t i w opts pm w'. running w i = Some opts \<longrightarrow> ContainerInspect D t i w = (Inr pm, w') \<longrightarrow>
        (\<forall>p b bs. co_PortBindings opts p = Some (b # bs) \<longrightarrow>
           (\<exists>h hs. pm p = Some (h # hs) \<and> HostPort h \<noteq> [])))"

text \<open>What an accepted configuration says of the client's port.\<close>

lemma ReadConfig_client_port: "ReadConfig parsed ParsePort = Inr cfg \<Longrightarrow> ClientPort cfg \<in> ExposePorts cfg"
  by (auto simp: ReadConfig_def split: sum.splits if_splits)

text \<open>
  C23. The client's port of a spawned container is always published.  With a configuration that
  \<open>ReadConfig\<close> accepted, once \<open>SpawnContainer\<close> has returned a container, \<open>GetGamePort\<close> for it, in
  any later state in which it runs, gives the host port the engine has bound to the client's
  port, and fails only when the engine cannot be asked: there is always a binding.
\<close>

theorem client_port_published:
  assumes "ReadConfig parsed ParsePort = Inr cfg" and "docker_guard dc = Inr cfg" and "publishes D running"
    and "SpawnContainer D workerID (dc, w) = (Inr i, dc1, w1)"
    and "running v i = running w1 i" and "GetGamePort D i (dc, v) = (r, dc2, v2)"
  shows "case r of
      Inl e \<Rightarrow> ContainerInspect D (inspectTimeout dc) i v = (Inl e, v2)
    | Inr hp \<Rightarrow> hp \<noteq> [] \<and> (\<exists>pm h hs. ContainerInspect D (inspectTimeout dc) i v = (Inr pm, v2) \<and>
        pm (ClientPort cfg) = Some (h # hs) \<and> HostPort h = hp)"
proof -
  let ?opts = "containerCreateOptions cfg (genPortMap (ExposePorts cfg)) workerID"
  from assms(2,4) obtain w' where "ContainerCreate D (createTimeout dc) ?opts w = (Inr i, w')"
    "ContainerStart D (createTimeout dc) i w' = (None, w1)"
    by (auto simp: SpawnContainer_def split: sum.splits prod.splits option.splits)
  with assms(3,5) have run: "running v i = Some ?opts" unfolding publishes_def by metis
  have b: "co_PortBindings ?opts (ClientPort cfg) = Some [\<lparr>HostPort = ''''\<rparr>]"
    using ReadConfig_client_port [OF assms(1)] by (simp add: containerCreateOptions_def genPortMap_def)
  obtain x v1 where x: "ContainerInspect D (inspectTimeout dc) i v = (x, v1)" by fastforce
  show ?thesis
  proof (cases x)
    case (Inl e)
    with x assms(2,6) show ?thesis by (auto simp: GetGamePort_def getPorts_def)
  next
    case (Inr pm)
    with assms(3) run x b obtain h hs where h: "pm (ClientPort cfg) = Some (h # hs)" "HostPort h \<noteq> []"
      unfolding publishes_def by blast
    with x Inr assms(2,6) show ?thesis by (auto simp: GetGamePort_def getPorts_def)
  qed
qed

end
