(* ===== verification/Game_App.thy ===== *)
theory Game_App
  imports Docker_Props
begin

text \<open>
  \<open>Run\<close> of \<open>game-server/host/app/app.go\<close>: the whole wrapper, from its environment and command
  line to the server's loop, over the executor and the NATS adapter; that it cleans up
  however it ends; and that a wrapper in a container of the manager's goes by the ID under
  which the manager knows it.
\<close>

section \<open>The wrapper\<close>

text \<open>
  The error of the service's context is read from the operating system's state, where signals
  arrive; \<open>parsed\<close> is what the environment parser returns, \<open>os.Args\<close> the last argument of
  \<open>ReadGameConfig\<close>.  The result is the error that \<open>Run\<close> returns and the world.
\<close>

definition service_ctx :: "'b game_world \<Rightarrow> go_error option" where
  "service_ctx = (\<lambda>((s, os), w). root_ctx os)"

definition RunGame ::
    "go_error + gameParsedConfig \<Rightarrow> (string \<Rightarrow> go_error + string list) \<Rightarrow> string list \<Rightarrow> 'w Nats \<Rightarrow>
     (go_error option \<Rightarrow> 'w game_nats_world game_world \<Rightarrow> 'w game_nats_world game_world) \<Rightarrow> os \<Rightarrow> 'w \<Rightarrow>
     (go_error option \<times> os \<times> 'w) option" where
  "RunGame parsed Split args N backoff os w =
     (case ReadGameConfig parsed Split args of
        Inl e \<Rightarrow> Some (Some (Errorf ''failed to load config: %w'' [e]), os, w)
      | Inr cfg \<Rightarrow>
          map_option (\<lambda>(r, srv, (s, os1), gc, w1). (r, os1, w1))
            (runServerApp service_ctx backoff
               (deployed_server (game_broker N) (GameServerArgs cfg))
               ((NewExecutor (GameServerArgs cfg), os), NewConnection (game_BrokerURI cfg) (game_WorkerID cfg), w)))"

section \<open>It cleans up\<close>

definition sound :: "Executor \<times> os \<Rightarrow> bool" where
  "sound = (\<lambda>(s, os). exec_inv s os \<and> syscall_faults os = [])"

lemma StopExecutor_faultless:
  assumes "exec_inv s os" and "syscall_faults os = []" and "StopExecutor cx s os = Some (r, s', os')"
  shows "syscall_faults os' = []"
proof (cases "active s")
  case False
  with assms show ?thesis by (simp add: StopExecutor_def)
next
  case True
  let ?stop = "if exec_cmd s = None then Some (None, os) else stopCommand cx s os"
  from assms(3) True obtain os1 where st: "?stop = Some (r, os1)"
    and os': "os' = remove_opt (resultFile s) (remove_opt (configFile s) os1)"
    by (auto simp: StopExecutor_def split: option.splits)
  from st assms(2) stopCommand_clean [OF assms(1,2), of cx r os1] have "syscall_faults os1 = []"
    by (auto split: if_split_asm)
  then show ?thesis by (simp add: os' remove_opt_clean)
qed

lemma runServer_sound:
  assumes "runServer (deployed_server b args) cx cfg (x, w) = Some (y, x', w')" and "sound x"
  shows "sound x'"
proof -
  obtain s os where x: "x = (s, os)" by fastforce
  obtain s' os' where x': "x' = (s', os')" by fastforce
  from assms(2) have i: "exec_inv s os" "syscall_faults os = []" by (simp_all add: sound_def x)
  show ?thesis
  proof (cases "active s")
    case True
    with assms i show ?thesis by (simp add: deployed_runServer x StartExecutor_busy sound_def split: prod.splits)
  next
    case False
    from StartExecutor_faultless [OF i(2) False, of cfg] obtain s1 os1
      where s1: "StartExecutor cfg s os = (None, s1, os1)" "syscall_faults os1 = []" by blast
    from exec_inv_Start [OF i(1) s1(1)] have i1: "exec_inv s1 os1" by blast
    from assms(1) s1 obtain z s2 os2 q where s2: "GetResult cx s1 os1 = Some (z, s2, os2)"
      and s3: "StopExecutor (WithTimeout cx) s2 os2 = Some (q, s', os')"
      by (auto simp: deployed_runServer x x' split: option.splits)
    from exec_inv_GetResult [OF i1 s2] have i2: "exec_inv s2 os2" by blast
    note f2 = GetResult_faultless [OF i1 s2 s1(2)]
    from StopExecutor_clean [OF i2 f2 s3] StopExecutor_faultless [OF i2 f2 s3]
    show ?thesis by (simp add: sound_def x')
  qed
qed

lemma runMatch_sound:
  assumes "runMatch (deployed_server b args) cx (x, w) = Some (r, x', w')" and "sound x"
  shows "sound x'"
  using assms(1)
proof (cases rule: deployed_runMatch_cases)
  case (failed cfg w1 e q)
  from runServer_sound [OF failed(2) assms(2)] show ?thesis .
next
  case (unsent cfg w1 res e w2 q)
  from runServer_sound [OF unsent(2) assms(2)] show ?thesis .
next
  case (sent cfg w1 res)
  from runServer_sound [OF sent(2) assms(2)] show ?thesis .
qed (use assms(2) in simp)

text \<open>While it waits, only signals arrive.\<close>

definition backoff_waits :: "(go_error option \<Rightarrow> 'b game_world \<Rightarrow> 'b game_world) \<Rightarrow> bool" where
  "backoff_waits backoff \<longleftrightarrow>
     (\<forall>e s os w. \<exists>evs x. fst (backoff e ((s, os), w)) = (s, os\<lparr>events := evs, root_ctx := x\<rparr>))"

lemma backoff_sound: "backoff_waits backoff \<Longrightarrow> sound x \<Longrightarrow> sound (fst (backoff e (x, w)))"
proof -
  assume b: "backoff_waits backoff" and s: "sound x"
  obtain s os where x: "x = (s, os)" by fastforce
  from b obtain evs y where f: "fst (backoff e ((s, os), w)) = (s, os\<lparr>events := evs, root_ctx := y\<rparr>)"
    unfolding backoff_waits_def by blast
  have "exec_inv s (os\<lparr>events := evs, root_ctx := y\<rparr>)"
    using s exec_inv_frame(1) [where s = s and os = os and cs = "coins os" and es = evs and x = y] by (simp add: sound_def x)
  with s show ?thesis by (simp add: f x sound_def)
qed

text \<open>Being open or not makes no difference to a match.\<close>

lemma runMatch_opened [simp]: "runMatch (srv\<lparr>srv_opened := q\<rparr>) = runMatch srv"
  by (intro ext)
    (simp add: runMatch_def runServer_def stopServer_def sendCancel_def sendResult_def
      cong: option.case_cong sum.case_cong)

lemma served_sound:
  assumes "served ctxErr backoff ((deployed_server b args)\<lparr>srv_opened := q\<rparr>) n e0 (x, w) = Some (e, x', w')"
    and "backoff_waits backoff" and "sound x"
  shows "sound x'"
  using assms(1,3)
proof (induction n arbitrary: e0 x w)
  case 0
  then show ?case by simp
next
  case (Suc n)
  obtain x1 w1 where b: "backoff e0 (x, w) = (x1, w1)" by fastforce
  with backoff_sound [OF assms(2) Suc.prems(2), of e0 w] have s1: "sound x1" by simp
  from Suc.prems(1) b obtain r x2 w2 where r: "runMatch (deployed_server b args) Root (x1, w1) = Some (r, x2, w2)"
    and n: "served ctxErr backoff ((deployed_server b args)\<lparr>srv_opened := q\<rparr>) n r (x2, w2) = Some (e, x', w')"
    by (auto split: if_splits option.splits)
  from Suc.IH [OF n runMatch_sound [OF r s1]] show ?case .
qed

lemma Run_loop_sound:
  assumes "Run_loop ctxErr backoff ((deployed_server b args)\<lparr>srv_opened := q\<rparr>) None (x, w) = Some (r, x', w')"
    and "backoff_waits backoff" and "sound x"
  shows "sound x'"
proof -
  from Run_loop_returned [OF assms(1)] obtain n e x1 w1
    where n: "served ctxErr backoff ((deployed_server b args)\<lparr>srv_opened := q\<rparr>) n None (x, w) = Some (e, x1, w1)"
      and l: "loop_exit ctxErr backoff ((deployed_server b args)\<lparr>srv_opened := q\<rparr>) e (x1, w1) (r, x', w')" by auto
  from served_sound [OF n assms(2,3)] have s1: "sound x1" .
  show ?thesis
  proof (cases "ctxErr (x1, w1)")
    case (Some c)
    with l s1 show ?thesis by (simp add: loop_exit_def)
  next
    case None
    obtain x2 w2 where b: "backoff e (x1, w1) = (x2, w2)" by fastforce
    with backoff_sound [OF assms(2) s1, of e w1] have s2: "sound x2" by simp
    from l None b obtain p where "runMatch (deployed_server b args) Root (x2, w2) = Some (p, x', w')"
      by (auto simp: loop_exit_def split: option.splits prod.splits)
    from runMatch_sound [OF this s2] show ?thesis .
  qed
qed
text \<open>Closing stops what still runs.\<close>

lemma CloseServer_clean:
  assumes "CloseServer ((deployed_server b args)\<lparr>srv_opened := True\<rparr>) (x, w) = Some (r, srv', (s', os'), w')"
    and "sound x"
  shows "live os' = [] \<and> tmp_files os' = Map.empty"
proof -
  obtain s os where x: "x = (s, os)" by fastforce
  have "\<not> srv_closed (deployed_server b args)" by (simp add: deployed_server_def NewServer_def)
  with assms(1) x obtain q where q: "StopExecutor (WithTimeout Background) s os = Some (q, s', os')"
    by (auto simp: CloseServer_def stopServer_def on_executor_def executor_ops_def on_broker_def Let_def
        split: option.splits prod.splits)
  from assms(2) x have "exec_inv s os" "syscall_faults os = []" by (simp_all add: sound_def)
  from StopExecutor_clean [OF this q] show ?thesis by simp
qed


section \<open>One identity\<close>

text \<open>
  The environment parser on the environment of a container: the image's own variables, then
  those of the create options; and NATS's routing, with \<open>subs w\<close> the subjects someone
  subscribes to: subscribing adds the subject, connecting and the rest add none, and a request
  on a subject without a subscriber fails (\<open>no responders\<close>).
\<close>

definition parses_env :: "(string list \<Rightarrow> go_error + gameParsedConfig) \<Rightarrow> bool" where
  "parses_env Parse \<longleftrightarrow>
     (\<forall>base l u i. l \<noteq> [] \<and> u \<noteq> [] \<and> i \<noteq> [] \<longrightarrow>
        Parse (base @ [''LOG_LEVEL='' @ l, ''NATS_URI='' @ u, ''WORKER_ID='' @ i]) =
          Inr \<lparr>gpc_BrokerURI = u, gpc_LogLevel = l, gpc_WorkerID = i\<rparr>)"

definition routes :: "'w Nats \<Rightarrow> ('w \<Rightarrow> string set) \<Rightarrow> bool" where
  "routes N subs \<longleftrightarrow>
     (\<forall>u t w. subs (snd (nats_Connect N u t w)) = subs w) \<and> (\<forall>w. subs (snd (js_New N w)) = subs w) \<and>
     (\<forall>cx s w. subs (snd (js_StreamNameBySubject N cx s w)) = subs w) \<and>
     (\<forall>s w. subs (snd (nats_SubscribeSync N s w)) \<subseteq> insert s (subs w)) \<and>
     (\<forall>s h w. subs (snd (nats_Subscribe N s h w)) \<subseteq> insert s (subs w)) \<and>
     (\<forall>sub a b w. subs (snd (nats_SetPendingLimits N sub a b w)) = subs w) \<and>
     (\<forall>t s p w m w'. nats_Request N t s p w = (Inr m, w') \<longrightarrow> s \<in> subs w)"

lemma routesD:
  assumes "routes N subs"
  shows "nats_Connect N u t w = (r, w') \<Longrightarrow> subs w' = subs w"
    and "js_New N w = (r, w') \<Longrightarrow> subs w' = subs w"
    and "js_StreamNameBySubject N cx s w = (x, w') \<Longrightarrow> subs w' = subs w"
    and "nats_SubscribeSync N s w = (y, w') \<Longrightarrow> subs w' \<subseteq> insert s (subs w)"
    and "nats_Subscribe N s h w = (y, w') \<Longrightarrow> subs w' \<subseteq> insert s (subs w)"
    and "nats_SetPendingLimits N sub a b w = (r, w') \<Longrightarrow> subs w' = subs w"
    and "nats_Request N t s p w = (Inr m, w') \<Longrightarrow> s \<in> subs w"
  using assms unfolding routes_def by (metis snd_conv)+

lemma OpenGame_subs:
  assumes "routes N subs" and "OpenGame N t (gc, w) = (r, gc', w')"
  shows "subs w' \<subseteq> {assignSubject @ ''.'' @ gc_workerID gc, healthSubject} \<union> subs w \<and>
    gc_workerID gc' = gc_workerID gc"
proof -
  note d = routesD [OF assms(1)]
  have assign: "subs w2 \<subseteq> insert (assignSubject @ ''.'' @ gc_workerID g) (subs w1) \<and> gc_workerID g2 = gc_workerID g"
    if "subscribeAssign N (g, w1) = (q, g2, w2)" for g w1 q g2 w2
    using that by (auto simp: subscribeAssign_def dest: d(4,6) split: prod.splits sum.splits option.splits)
  have health: "subs w2 \<subseteq> insert healthSubject (subs w1) \<and> gc_workerID g2 = gc_workerID g"
    if "subscribeHealth N (g, w1) = (q, g2, w2)" for g w1 q g2 w2
    using that by (auto simp: subscribeHealth_def dest: d(5,6) split: prod.splits sum.splits option.splits)
  show ?thesis
    using assms(2)
    by (auto simp: OpenGame_def Let_def dest!: d(1-3) assign health
        split: if_split_asm prod.splits sum.splits option.splits) 
qed

lemma level_String_nonempty [simp]: "level_String l \<noteq> []"
  by (simp add: level_String_def level_with_offset_def)

lemma container_wrapper_config:
  assumes "ReadConfig mparsed ParsePort = Inr cfg" and "BrokerURI cfg \<noteq> []" and "parses_env Parse"
    and "Split command = Inr args" and "i \<noteq> []"
  shows "ReadGameConfig (Parse (base @ co_Env (containerCreateOptions cfg pm i))) Split [prog, command] =
     Inr \<lparr>game_BrokerURI = BrokerURI cfg, game_WorkerID = i,
          game_LogLevel = GameServerLogLevel cfg, GameServerArgs = args\<rparr>"
proof -
  have "Parse (base @ co_Env (containerCreateOptions cfg pm i)) =
      Inr \<lparr>gpc_BrokerURI = BrokerURI cfg, gpc_LogLevel = level_String (GameServerLogLevel cfg), gpc_WorkerID = i\<rparr>"
    using assms(2,3,5) unfolding parses_env_def by (simp add: containerCreateOptions_def)
  moreover have "parseLogLevel (level_String (GameServerLogLevel cfg)) = Inr (GameServerLogLevel cfg)"
    using ReadConfig_levels [OF assms(1)] by (intro parse_level_String) auto
  ultimately show ?thesis using assms(4) by (simp add: ReadGameConfig_def parseArgs_def)
qed

text \<open>
  C17. The wrapper in a worker's container has that worker's identity.  From the environment the
  manager gives the container of worker \<open>i\<close>, the wrapper reads the manager's broker, the log
  level configured for game-servers and the worker's ID, and its command line is the game's.
  Once its connection is open, no job for another worker can be accepted if only it
  subscribes to assignments; and its answer to a ping is the ID of this worker and of no other.
\<close>

theorem worker_identity:
  assumes "ReadConfig mparsed ParsePort = Inr cfg" and "BrokerURI cfg \<noteq> []" and "parses_env Parse"
    and "Split command = Inr args"
  shows "\<exists>g. ReadGameConfig (Parse (base @ co_Env (containerCreateOptions cfg pm (Itoa i)))) Split [prog, command]
        = Inr g \<and> game_BrokerURI g = BrokerURI cfg \<and> game_LogLevel g = GameServerLogLevel cfg \<and>
      GameServerArgs g = args \<and>
      (\<forall>N subs t w gc w'. routes N subs \<and> subs w = {} \<and>
         OpenGame N t (NewConnection (game_BrokerURI g) (game_WorkerID g), w) = (None, gc, w') \<longrightarrow>
         (\<forall>j mc nc nc' v. AssignJob N (Itoa j) mc (nc, w') = (None, nc', v) \<longrightarrow> j = i) \<and>
         (\<exists>pong. (\<forall>msg v. pong_handler N gc msg v = snd (nats_Publish N (msg_Reply msg) pong v)) \<and>
                 (\<forall>j. Itoa j \<in> {pong} \<longleftrightarrow> j = i)))"
proof -
  let ?g = "\<lparr>game_BrokerURI = BrokerURI cfg, game_WorkerID = Itoa i,
          game_LogLevel = GameServerLogLevel cfg, GameServerArgs = args\<rparr>"
  note g = container_wrapper_config [where Split = Split and command = command, OF assms Itoa_nonempty, of base pm i prog]
  have job: "j = i"
    if "routes N subs" "subs w = {}" "OpenGame N t (NewConnection u (Itoa i), w) = (None, gc, w')"
      "AssignJob N (Itoa j) mc (nc, w') = (None, nc', v)" for N subs t w gc w' j mc nc nc' v u
  proof -
    from that(4) obtain t' p m where "nats_Request N t' (assignSubject @ ''.'' @ Itoa j) p w' = (Inr m, v)"
      by (auto simp: AssignJob_def split: option.splits sum.splits prod.splits)
    from routesD(7) [OF that(1) this] OpenGame_subs [OF that(1,3)] that(2)
    have "assignSubject @ ''.'' @ Itoa j \<in> {assignSubject @ ''.'' @ Itoa i, healthSubject}"
      by (auto simp: NewConnection_def)
    then show "j = i" by (auto simp: assignSubject_def healthSubject_def dest: Itoa_inj)
  qed
  have pong: "pong_handler N gc msg v = snd (nats_Publish N (msg_Reply msg) (Itoa i) v)"
    if "routes N subs" "OpenGame N t (NewConnection u (Itoa i), w) = (None, gc, w')" for N subs t w gc w' msg v u
    using OpenGame_subs [OF that] by (simp add: pong_handler_def NewConnection_def)
  show ?thesis
  proof (intro exI [of _ ?g] conjI allI impI g; (elim conjE)?)
    fix N subs t w gc w' j mc nc nc' v
    assume "routes N subs" "subs w = {}"
      "OpenGame N t (NewConnection (game_BrokerURI ?g) (game_WorkerID ?g), w) = (None, gc, w')"
      "AssignJob N (Itoa j) mc (nc, w') = (None, nc', v)"
    then show "j = i" using job [of N subs w t "BrokerURI cfg" gc w' j mc nc nc' v] by simp
  next
    fix N subs t w gc w'
    assume "routes N subs"
      "OpenGame N t (NewConnection (game_BrokerURI ?g) (game_WorkerID ?g), w) = (None, gc, w')"
    then show "\<exists>pong. (\<forall>msg v. pong_handler N gc msg v = snd (nats_Publish N (msg_Reply msg) pong v)) \<and>
                 (\<forall>j. Itoa j \<in> {pong} \<longleftrightarrow> j = i)"
      by (intro exI [of _ "Itoa i"]) (auto simp: pong dest: Itoa_inj)
  qed simp_all
qed

end
