(* ===== verification/Replay.thy ===== *)
theory Replay
  imports Match_Records
begin

text \<open>
  What a restart of the server-manager does to the recorded matches.  \<open>Open\<close> of the NATS adapter
  makes a new consumer that is delivered the whole result stream, so every result a worker
  ever published goes through the result and save loops again.
\<close>

section \<open>Saving a sequence of results\<close>

fun save_all :: "Result list \<Rightarrow> 'w WorkerManager \<Rightarrow> 'w \<Rightarrow> 'w" where
  "save_all [] wm w = w"
| "save_all (res # rs) wm w = save_all rs wm (snd (saveLoop_body res wm w))"

definition saved :: "Result \<Rightarrow> db_store \<Rightarrow> db_store" where
  "saved res st = save_store res (remove_store (res_MatchID res) st)"

definition storable :: "pg_env \<Rightarrow> Result \<Rightarrow> bool" where
  "storable E res \<longleftrightarrow> int4 (res_MatchID res) \<and> jsonb_ok E (Details res)"

lemma saveLoop_body_saved:
  assumes "dbConn wm = database_ops E" and "connected (c, p)" and "storable E res"
  shows "snd (saveLoop_body res wm (c, p)) = (c, p\<lparr>store := saved res (store p)\<rparr>)"
proof -
  let ?p1 = "p\<lparr>store := remove_store (res_MatchID res) (store p)\<rparr>"
  have "connected (c, ?p1)" using assms(2) by simp
  note 1 = RemoveMatchStatus_connected [OF assms(2), of "res_MatchID res"]
  note 2 = SaveMatchResults_connected(1) [OF \<open>connected (c, ?p1)\<close> assms(3) [unfolded storable_def, THEN conjunct1]
      assms(3) [unfolded storable_def, THEN conjunct2]]
  from 1 2 assms(1) show ?thesis by (simp add: saveLoop_body_def database_ops_def saved_def)
qed

lemma save_all_fold:
  assumes "dbConn wm = database_ops E" and "connected (c, p)" and "\<forall>res\<in>set rs. storable E res"
  shows "save_all rs wm (c, p) = (c, p\<lparr>store := fold saved rs (store p)\<rparr>)"
  using assms(2,3)
proof (induction rs arbitrary: p)
  case Nil
  then show ?case by simp
next
  case (Cons res rs)
  let ?p1 = "p\<lparr>store := saved res (store p)\<rparr>"
  have "connected (c, ?p1)" using Cons.prems(1) by simp
  from Cons.IH [OF this] Cons.prems show ?case
    by (simp add: saveLoop_body_saved [OF assms(1) Cons.prems(1)])
qed

section \<open>The last word\<close>

definition last_report :: "Result list \<Rightarrow> int \<Rightarrow> Result option" where
  "last_report rs mid = find (\<lambda>res. res_MatchID res = mid) (rev rs)"

definition settled :: "Result list \<Rightarrow> db_match \<Rightarrow> db_match" where
  "settled rs m = (case last_report rs (m_id m) of None \<Rightarrow> m | Some res \<Rightarrow> save_match res m)"

lemma settled_snoc: "settled (rs @ [res]) m = (if m_id m = res_MatchID res then save_match res (settled rs m) else settled rs m)"
  by (auto simp: settled_def last_report_def save_match_def split: option.splits)

lemma settled_id [simp]: "m_id (settled rs m) = m_id m"
  by (simp add: settled_def split: option.splits)

lemma settled_settled: "settled rs (settled rs m) = settled rs m"
  by (simp add: settled_def split: option.splits) (simp add: save_match_def)

lemma fold_saved_matches: "matches (fold saved rs st) = map (settled rs) (matches st)"
proof (induction rs rule: rev_induct)
  case Nil
  then show ?case by (simp add: settled_def last_report_def)
next
  case (snoc res rs)
  then show ?case by (auto simp: saved_def save_store_def remove_store_def settled_snoc)
qed

lemma fold_saved_users:
  "users (fold saved rs st) =
     map (\<lambda>u. if \<exists>res\<in>set rs. u_match_id u = Some (res_MatchID res) then release_user u else u) (users st)"
proof (induction rs rule: rev_induct)
  case Nil
  then show ?case by simp
next
  case (snoc res rs)
  then show ?case by (auto simp: saved_def save_store_def remove_store_def)
qed

lemma fold_saved_rest:
  "user_matches (fold saved rs st) = user_matches st" "matches_id_seq (fold saved rs st) = matches_id_seq st"
  by (induction rs arbitrary: st) (simp_all add: saved_def save_store_def remove_store_def)

text \<open>
  C21. Replaying the results is harmless, and the stream has the last word.  Saving a sequence
  of results over a working connection leaves each match with the outcome of its last result
  in the sequence and inactive, and matches without one as they were; it takes exactly the
  users of these matches out of them; and saving the same sequence once more, as the next
  start does, changes nothing.  An outcome recorded for a match by anyone but a worker, a
  cancellation by the health check or at the start, is overwritten by its worker's report.
\<close>

theorem restart_replay:
  assumes "dbConn wm = database_ops E" and "connected (c, p)"
    and "\<forall>res\<in>set rs. int4 (res_MatchID res) \<and> jsonb_ok E (Details res)"
    and "save_all rs wm (c, p) = (c', p')"
  shows "c' = c \<and>
    matches (store p') =
      map (\<lambda>m. case find (\<lambda>res. res_MatchID res = m_id m) (rev rs) of
             None \<Rightarrow> m
           | Some res \<Rightarrow> m\<lparr>m_results := json_column (Details res), m_canceled := \<not> Success res,
                           m_active := False\<rparr>) (matches (store p)) \<and>
    users (store p') =
      map (\<lambda>u. if \<exists>res\<in>set rs. u_match_id u = Some (res_MatchID res)
             then u\<lparr>u_match_id := None, u_queued_until := None, u_match_auth_token := None\<rparr> else u)
        (users (store p)) \<and>
    save_all rs wm (c', p') = (c', p')"
proof -
  have ok: "\<forall>res\<in>set rs. storable E res" using assms(3) by (simp add: storable_def)
  from save_all_fold [OF assms(1,2) ok] assms(4)
  have c: "c' = c" and p': "p' = p\<lparr>store := fold saved rs (store p)\<rparr>" by simp_all
  have m: "matches (store p') = map (settled rs) (matches (store p))" by (simp add: p' fold_saved_matches)
  have "connected (c, p')" using assms(2) by (simp add: p')
  moreover have "fold saved rs (fold saved rs (store p)) = fold saved rs (store p)"
    by (rule db_store.equality)
      (simp_all add: fold_saved_matches fold_saved_users fold_saved_rest settled_settled release_user_def)
  ultimately have again: "save_all rs wm (c', p') = (c', p')"
    using save_all_fold [OF assms(1) _ ok] by (simp add: c p')
  show ?thesis
    using c again
    by (simp add: m) (simp add: p' fold_saved_users settled_def last_report_def save_match_def release_user_def
        cong: option.case_cong)
qed

end
