(* ===== verification/Manager_Run.thy ===== *)
theory Manager_Run
  imports Refinement "HOL-Library.Multiset"
begin

text \<open>
  \<open>Run\<close> of \<open>server-manager/app/run.go\<close>: starting the worker manager and the matchmaker, and
  the deferred shutdown of both.  \<open>Shutdown\<close> waits for goroutines, so what \<open>Run\<close> does at its
  end depends on what these have done: here, over the step relation of theory \<open>ManagerSystem\<close>.
\<close>

section \<open>Run\<close>

text \<open>
  Up to \<open><-ctx.Done()\<close>: the error, and what there is to shut down.  The matchmaker is the one of
  theory \<open>Refinement\<close>, with a connection of its own.
\<close>

definition Run_begin ::
    "'w sys_env \<Rightarrow> ('w WorkerManager \<times> 'w \<Rightarrow> 'w WorkerManager \<times> 'w) \<Rightarrow> 'w DockerConnection_ops \<Rightarrow>
     'w BrokerConnection_ops \<Rightarrow> 'w DatabaseConnection_ops \<Rightarrow> EnvConfig \<Rightarrow> 'w \<Rightarrow>
     go_error option \<times> ('w WorkerManager \<times> 'w) Matchmaker option \<times> 'w WorkerManager \<times> 'w" where
  "Run_begin E wait docker br db cfg w =
     (case Start (NewWorkerManager docker br db cfg) w of
        (Some e, wm, w1) \<Rightarrow> (Some e, None, wm, w1)
      | (None, wm, w1) \<Rightarrow>
     (case StartMatchmaker (system_matchmaker E cfg wait) (wm, w1) of
        (r, m, wm2, w2) \<Rightarrow> (r, Some m, wm2, w2)))"

text \<open>The deferred calls, the matchmaker's first; \<open>None\<close> while one of them waits.\<close>

definition Run_end ::
    "('w WorkerManager \<times> 'w) Matchmaker option \<Rightarrow> 'w WorkerManager \<times> 'w \<Rightarrow> ('w WorkerManager \<times> 'w) option" where
  "Run_end m x =
     (case (case m of None \<Rightarrow> Some x | Some mm \<Rightarrow> map_option snd (ShutdownMatchmaker mm x)) of
        None \<Rightarrow> None
      | Some (wm, w) \<Rightarrow> Shutdown wm w)"

section \<open>The wait group\<close>

text \<open>
  The group counts each loop exactly once until it has exited, and a loop exits only once the
  context is done.
\<close>

definition wg_inv :: "'w sys \<Rightarrow> bool" where
  "wg_inv s \<longleftrightarrow>
     count (mset (wg (mgr s))) ResultLoop = of_bool (rpc s \<noteq> R_Exited) \<and>
     count (mset (wg (mgr s))) SaveLoop = of_bool (spc s \<noteq> S_Exited) \<and>
     count (mset (wg (mgr s))) HealthLoop = of_bool (hpc s \<noteq> H_Exited) \<and>
     (rpc s = R_Exited \<or> spc s = S_Exited \<or> hpc s = H_Exited \<longrightarrow> ctx s \<noteq> None) \<and>
     \<not> wm_closed (mgr s)"

lemma wg_same:
  "chan_send res wm = Some wm' \<Longrightarrow> wg wm' = wg wm \<and> wm_closed wm' = wm_closed wm"
  "chan_recv wm = Some (res, wm') \<Longrightarrow> wg wm' = wg wm \<and> wm_closed wm' = wm_closed wm"
  "wg (handleResults_free res wm) = wg wm" "wm_closed (handleResults_free res wm) = wm_closed wm"
  "wg (snd (restartWorker_finish i sid wm)) = wg wm" 
  "wm_closed (snd (restartWorker_finish i sid wm)) = wm_closed wm"
  "WaitForFreeWorker_turn c wm = (out, wm') \<Longrightarrow> wg wm' = wg wm \<and> wm_closed wm' = wm_closed wm"
  "AssignMatch cfg wm w = (x, wm', w') \<Longrightarrow> wg wm' = wg wm \<and> wm_closed wm' = wm_closed wm"
  "wm_closed (leave_wg g wm) = wm_closed wm" "wm_closed (join_wg g wm) = wm_closed wm"
  "wm_closed (signal_free wm) = wm_closed wm"
  by (auto simp: chan_send_def chan_recv_def handleResults_free_def restartWorker_finish_def upd_worker_def
      signal_free_def WaitForFreeWorker_turn_def leave_wg_def join_wg_def elim!: AssignMatch_cases
      split: if_splits list.splits option.splits)

lemma wg_healthCheck_worker:
  assumes "healthCheck_worker E R i wm w = Some (wm', w')" and "i < length (workers wm)"
  shows "wm_closed wm' = wm_closed wm \<and> (wg wm' = wg wm \<or> (\<exists>sid. wg wm' = wg wm @ [RestartCall i sid]))"
  using assms by (cases rule: healthCheck_worker_cases) (auto simp: upd_worker_def)

lemma wg_inv_step:
  assumes "sys_step E s t" and "wg_inv s"
  shows "wg_inv t"
  using assms
  by (elim step_elims)
    (auto simp: wg_inv_def wg_same dest!: wg_healthCheck_worker)

lemma wg_inv_waits:
  assumes "wg_inv s" and "ctx s = None"
  shows "Shutdown (mgr s) w = None"
proof -
  have "count (mset (wg (mgr s))) SaveLoop = 1" using assms by (auto simp: wg_inv_def)
  then have "wg (mgr s) \<noteq> []" by auto
  with assms(1) show ?thesis by (simp add: Shutdown_def Shutdown_wait_def wg_inv_def)
qed

lemma Start_open:
  assumes "Start (NewWorkerManager docker br db cfg) w = (None, wm, w1)"
  shows "\<not> wm_closed wm"
  using assms
proof (cases rule: Start_cases)
  case (started wm1 w2)
  from spawn_workers_sel(2) [OF started(4)] started(5) show ?thesis by (simp add: NewWorkerManager_def)
qed simp_all

text \<open>When the loops start.\<close>

lemma wg_inv_start:
  assumes "Start (NewWorkerManager docker br db cfg) w = (None, mgr s, w1)"
    and "rpc s = R_Poll" and "spc s = S_Recv" and "hpc s = H_Wait"
  shows "wg_inv s"
  using Start_new(3) [OF assms(1)] Start_open [OF assms(1)] assms(2-4) by (simp add: wg_inv_def)

lemma wg_inv_initial: "initial s \<Longrightarrow> wg_inv s"
  by (auto simp: initial_def intro: wg_inv_start)

interpretation group_kept: system_invariant wg_inv
  by unfold_locales (auto intro: wg_inv_initial wg_inv_step)

lemmas reach_wg_inv = group_kept.reached
lemmas wg_inv_run = group_kept.along
lemmas wait_inv_run = wait_kept.along

section \<open>A failed start of the matchmaker\<close>

text \<open>
  C22. \<open>Run\<close> does not report that the matchmaker could not be started.  When the worker manager
  is up and \<open>matchmaker.Start\<close> fails, \<open>Run\<close> is about to return the error, but its deferred
  \<open>wm.Shutdown\<close> waits for loops that end only with the context: in every state they reach
  without the context being cancelled, the deferred calls have not returned.
\<close>

theorem failed_matchmaker_hangs:
  assumes "Run_begin E wait docker br db cfg w = (Some e, Some m, mgr s, world s)"
    and "rpc s = R_Poll" and "spc s = S_Recv" and "hpc s = H_Wait" and "ctx s = None"
    and "(\<lambda>s t. sys_step E s t \<and> ctx t = None)\<^sup>*\<^sup>* s t"
  shows "Run_end (Some m) (mgr t, world t) = None"
proof -
  from assms(1) obtain wm w1 where st: "Start (NewWorkerManager docker br db cfg) w = (None, wm, w1)"
    and m: "StartMatchmaker (system_matchmaker E cfg wait) (wm, w1) = (Some e, m, mgr s, world s)"
    by (auto simp: Run_begin_def split: prod.splits option.splits)
  from m have wm: "mgr s = wm" and mm: "m = system_matchmaker E cfg wait"
    by (auto simp: StartMatchmaker_def system_matchmaker_def NewMatchmaker_def split: prod.splits option.splits if_splits)
  have "wg_inv s" by (rule wg_inv_start [OF st [folded wm] assms(2-4)])
  with assms(5,6) have "wg_inv t \<and> ctx t = None"
    by (induction rule: rtranclp_induct [OF assms(6)]) (auto intro: wg_inv_step)
  then have "Shutdown (mgr t) v = None" for v by (simp add: wg_inv_waits)
  moreover obtain v where "map_option snd (ShutdownMatchmaker m (mgr t, world t)) = Some (mgr t, v)"
    by (cases "db_Close (mdb E) (world t)")
      (simp add: mm ShutdownMatchmaker_def system_matchmaker_def NewMatchmaker_def)
  ultimately show ?thesis by (auto simp: Run_end_def)
qed

section \<open>Shutdown completes\<close>

text \<open>What the steps of one goroutine leave alone.\<close>

lemma mm_frame: "(mm_step E)\<^sup>*\<^sup>* s t \<Longrightarrow>
    rpc t = rpc s \<and> spc t = spc s \<and> hpc t = hpc s \<and> mu t = mu s \<and> ctx t = ctx s"
  by (induction rule: rtranclp_induct) (auto elim!: mm_step.cases)

lemma save_frame: "save_step\<^sup>*\<^sup>* s t \<Longrightarrow>
    rpc t = rpc s \<and> mpc t = mpc s \<and> hpc t = hpc s \<and> mu t = mu s \<and> ctx t = ctx s"
  by (induction rule: rtranclp_induct) (auto elim!: save_step.cases)

lemma result_frame: "(result_step E)\<^sup>*\<^sup>* s t \<Longrightarrow>
    spc t = spc s \<and> mpc t = mpc s \<and> hpc t = hpc s \<and> mu t = mu s \<and> ctx t = ctx s"
  by (induction rule: rtranclp_induct) (auto elim!: result_step.cases)

lemma health_frame: "(health_step E)\<^sup>*\<^sup>* s t \<Longrightarrow>
    rpc t = rpc s \<and> spc t = spc s \<and> mpc t = mpc s \<and> ctx t = ctx s"
  by (induction rule: rtranclp_induct) (auto elim!: health_step.cases)

lemma restart_frame: "restart_step\<^sup>*\<^sup>* s t \<Longrightarrow>
    rpc t = rpc s \<and> spc t = spc s \<and> hpc t = hpc s \<and> mpc t = mpc s \<and> mu t = mu s \<and> ctx t = ctx s"
  by (induction rule: rtranclp_induct) (auto elim!: restart_step.cases)

lemma sys_runs:
  "(mm_step E)\<^sup>*\<^sup>* s t \<Longrightarrow> (sys_step E)\<^sup>*\<^sup>* s t" "save_step\<^sup>*\<^sup>* s t \<Longrightarrow> (sys_step E)\<^sup>*\<^sup>* s t"
  "(result_step E)\<^sup>*\<^sup>* s t \<Longrightarrow> (sys_step E)\<^sup>*\<^sup>* s t" "(health_step E)\<^sup>*\<^sup>* s t \<Longrightarrow> (sys_step E)\<^sup>*\<^sup>* s t"
  "restart_step\<^sup>*\<^sup>* s t \<Longrightarrow> (sys_step E)\<^sup>*\<^sup>* s t"
  by (erule rtranclp_mono [THEN predicate2D, rotated], auto intro: sys_step.intros)+

text \<open>
  The matchmaking loop: whatever it is doing, it comes back to the wait, which returns at once,
  and then it sees that the context is done.  The database's sequence is taken to go on
  giving new positive IDs.
\<close>

definition fresh_ids :: "'w sys_env \<Rightarrow> 'w sys \<Rightarrow> bool" where
  "fresh_ids E s \<longleftrightarrow>
     (\<forall>t i w'. (sys_step E)\<^sup>*\<^sup>* s t \<longrightarrow> db_GetNextMatchId (mdb E) (world t) = (Inr i, w') \<longrightarrow>
        0 < i \<and> i \<notin> set (drawn t))"

lemma fresh_ids_run: "fresh_ids E s \<Longrightarrow> (sys_step E)\<^sup>*\<^sup>* s t \<Longrightarrow> fresh_ids E t"
  unfolding fresh_ids_def by (meson rtranclp_trans)

definition mm_ends :: "'w sys_env \<Rightarrow> 'w sys \<Rightarrow> bool" where
  "mm_ends E s \<longleftrightarrow> (\<exists>t. (mm_step E)\<^sup>*\<^sup>* s t \<and> mpc t = M_Exited)"

lemma mm_ends_step: "mm_step E s u \<Longrightarrow> mm_ends E u \<Longrightarrow> mm_ends E s"
  unfolding mm_ends_def by (blast intro: converse_rtranclp_into_rtranclp)

lemma mm_ends_run: "(mm_step E)\<^sup>*\<^sup>* s u \<Longrightarrow> mm_ends E u \<Longrightarrow> mm_ends E s"
  unfolding mm_ends_def by (blast intro: rtranclp_trans)

lemma mm_ends_Exited: "mpc s = M_Exited \<Longrightarrow> mm_ends E s"
  unfolding mm_ends_def by blast

lemma mm_ends_Check: "mpc s = M_Check \<Longrightarrow> ctx s \<noteq> None \<Longrightarrow> mm_ends E s"
  by (rule mm_ends_step [OF m_exit]) (simp_all add: mm_ends_Exited)

lemma mm_ends_Wait:
  assumes "mpc s = M_Wait" and "mu s = Unlocked" and "ctx s \<noteq> None"
  shows "mm_ends E s"
proof -
  have "WaitForFreeWorker_turn (ctx s) (mgr s) =
      (WaitReturns, (mgr s)\<lparr>waiting := False, newfreeWorker := NoWaiter\<rparr>)"
    using assms(3) by (auto simp: WaitForFreeWorker_turn_def)
  from m_return [OF disjI1 [OF assms(1)] assms(2) this, of E] show ?thesis
    by (rule mm_ends_step) (simp add: mm_ends_Check assms(3))
qed

lemma mm_ends_Add:
  assumes "mpc s = M_Add us si mid" and "mu s = Unlocked" and "ctx s \<noteq> None"
  shows "mm_ends E s"
proof -
  obtain r w' where "db_AddMatch (mdb E) us si mid (world s) = (r, w')" by fastforce
  from m_add [OF assms(1) this] show ?thesis
    by (rule mm_ends_step) (simp add: mm_ends_Wait assms(2,3))
qed

lemma mm_ends_Assign:
  assumes "mpc s = M_Assign us c mid" and "mu s = Unlocked" and "ctx s \<noteq> None"
  shows "mm_ends E s"
proof -
  obtain x wm' w' where x: "AssignMatch \<lparr>cfg_MatchID = mid, Config = c\<rparr> (mgr s) (world s) = (x, wm', w')"
    by (metis surj_pair)
  show ?thesis
  proof (cases x)
    case (Inl e)
    from m_refused [OF assms(1,2) x [unfolded Inl]] show ?thesis
      by (rule mm_ends_step) (simp add: mm_ends_Wait assms(2,3))
  next
    case (Inr si)
    from m_assign [OF assms(1,2) x [unfolded Inr]] show ?thesis
      by (rule mm_ends_step) (simp add: mm_ends_Add assms(2,3))
  qed
qed

lemma mm_ends_NextId:
  assumes "mpc s = M_NextId us" and "mu s = Unlocked" and "ctx s \<noteq> None" and "fresh_ids E s"
  shows "mm_ends E s"
proof (cases "marshal E us")
  case (Inl e)
  from m_marshal [OF assms(1) Inl] show ?thesis
    by (rule mm_ends_step) (simp add: mm_ends_Wait assms(2,3))
next
  case (Inr c)
  obtain x w' where x: "db_GetNextMatchId (mdb E) (world s) = (x, w')" by fastforce
  show ?thesis
  proof (cases x)
    case (Inl e)
    from m_noid [OF assms(1) x [unfolded Inl]] show ?thesis
      by (rule mm_ends_step) (simp add: mm_ends_Wait assms(2,3))
  next
    case (Inr mid)
    note x = x [unfolded Inr]
    have "0 < mid" "mid \<notin> set (drawn s)" using assms(4) x unfolding fresh_ids_def by blast+
    from m_nextid [OF assms(1) \<open>marshal E us = Inr c\<close> x this] show ?thesis
      by (rule mm_ends_step) (simp add: mm_ends_Assign assms(2,3))
  qed
qed

lemma mm_ends_Tokens:
  assumes "mpc s = M_Tokens us" and "mu s = Unlocked" and "ctx s \<noteq> None" and "fresh_ids E s"
  shows "mm_ends E s"
proof -
  obtain r w' where "db_GenerateAuthTokens (mdb E) us (world s) = (r, w')" by fastforce
  note step = m_tokens [OF assms(1) this]
  show ?thesis
  proof (cases r)
    case (Inl e)
    from step show ?thesis by (rule mm_ends_step) (simp add: mm_ends_Wait assms(2,3) Inl)
  next
    case (Inr us')
    from step show ?thesis
    proof (rule mm_ends_step)
      from fresh_ids_run [OF assms(4) r_into_rtranclp [where r = "sys_step E", OF by_matchmaker [OF step]]]
      show "mm_ends E (s\<lparr>world := w', mpc := (case r of Inl _ \<Rightarrow> M_Wait | Inr us' \<Rightarrow> M_NextId us')\<rparr>)"
        by (intro mm_ends_NextId [of _ us']) (simp_all add: Inr assms(2,3))
    qed
  qed
qed

lemma mm_ends:
  assumes "wait_inv s" and "mu s = Unlocked" and "ctx s \<noteq> None" and "fresh_ids E s"
  shows "mm_ends E s"
proof (cases "mpc s")
  case M_Sleep
  from leaves_wait [OF assms(1) M_Sleep assms(2)] assms(3) obtain t
    where t: "(mm_step E)\<^sup>*\<^sup>* s t" "mpc t = M_Check" by blast
  from mm_frame [OF t(1)] assms(3) mm_ends_run [OF t(1) mm_ends_Check [OF t(2)]] show ?thesis by simp
next
  case M_Poll
  from m_abort [OF M_Poll assms(3)] show ?thesis
    by (rule mm_ends_step) (simp add: mm_ends_Wait assms(2,3))
next
  case M_Wait
  then show ?thesis using assms(2,3) by (rule mm_ends_Wait)
next
  case M_Check
  then show ?thesis using assms(3) by (rule mm_ends_Check)
next
  case (M_Tokens us)
  then show ?thesis using assms(2-4) by (rule mm_ends_Tokens)
next
  case (M_NextId us)
  then show ?thesis using assms(2-4) by (rule mm_ends_NextId)
next
  case (M_Assign us c mid)
  then show ?thesis using assms(2,3) by (rule mm_ends_Assign)
next
  case (M_Add us si mid)
  then show ?thesis using assms(2,3) by (rule mm_ends_Add)
next
  case M_Exited
  then show ?thesis by (rule mm_ends_Exited)
qed

text \<open>The save loop.\<close>

lemma save_exits:
  assumes "ctx s \<noteq> None"
  shows "\<exists>t. save_step\<^sup>*\<^sup>* s t \<and> spc t = S_Exited"
proof -
  have recv: "\<exists>t. save_step\<^sup>*\<^sup>* v t \<and> spc t = S_Exited" if "spc v = S_Recv" "ctx v \<noteq> None" for v
    by (rule exI [of _ "v\<lparr>spc := S_Exited, mgr := leave_wg SaveLoop (mgr v)\<rparr>"])
      (simp add: r_into_rtranclp s_exit that)
  have save: "\<exists>t. save_step\<^sup>*\<^sup>* v t \<and> spc t = S_Exited" if "spc v = S_Save res" "ctx v \<noteq> None" for v res
  proof -
    obtain r w' where "db_SaveMatchResults (dbConn (mgr v)) res (world v) = (r, w')" by fastforce
    note step = s_save [OF that(1) this]
    from recv [of "v\<lparr>world := w', spc := S_Recv, processed := processed v @ [res]\<rparr>"] that(2) step
    show ?thesis by (auto intro: converse_rtranclp_into_rtranclp)
  qed
  show ?thesis
  proof (cases "spc s")
    case (S_Remove res)
    obtain r w' where "db_RemoveMatchStatus (dbConn (mgr s)) (res_MatchID res) (world s) = (r, w')"
      by fastforce
    note step = s_remove [OF S_Remove this]
    from save [of "s\<lparr>world := w', spc := S_Save res\<rparr>" res] assms step
    show ?thesis by (auto intro: converse_rtranclp_into_rtranclp)
  qed (use recv save assms in blast)+
qed

text \<open>The result loop, when a result in its hands fits into the channel.\<close>

lemma result_exits:
  assumes "ctx s \<noteq> None" and "mu s = Unlocked" and "length (saveResultChan (mgr s)) < resultChanSize (mgr s)"
  shows "\<exists>t. (result_step E)\<^sup>*\<^sup>* s t \<and> rpc t = R_Exited"
proof -
  have poll: "\<exists>t. (result_step E)\<^sup>*\<^sup>* v t \<and> rpc t = R_Exited" if "rpc v = R_Poll" "ctx v \<noteq> None" for v
    by (rule exI [of _ "v\<lparr>rpc := R_Exited, mgr := leave_wg ResultLoop (mgr v)\<rparr>"])
      (simp add: r_into_rtranclp r_exit that)
  have free: "\<exists>t. (result_step E)\<^sup>*\<^sup>* v t \<and> rpc t = R_Exited"
    if "rpc v = R_Free res" "mu v = Unlocked" "ctx v \<noteq> None" for v res
  proof -
    note step = r_free [OF that(1,2), of E]
    from poll [of "v\<lparr>mgr := handleResults_free res (mgr v), rpc := R_Poll\<rparr>"] that(3) step
    show ?thesis by (auto intro: converse_rtranclp_into_rtranclp)
  qed
  show ?thesis
  proof (cases "rpc s")
    case (R_Send res)
    let ?wm = "(mgr s)\<lparr>saveResultChan := saveResultChan (mgr s) @ [res]\<rparr>"
    have "chan_send res (mgr s) = Some ?wm" using assms(3) by (simp add: chan_send_def)
    note step = r_send [OF R_Send this, of E]
    from free [of "s\<lparr>mgr := ?wm, rpc := R_Free res, handed := handed s @ [res]\<rparr>" res] assms(1,2) step
    show ?thesis by (auto intro: converse_rtranclp_into_rtranclp)
  qed (use poll free assms in blast)+
qed

text \<open>The health loop, when the results of a whole check fit into the channel.\<close>

lemma healthCheck_worker_room:
  assumes "i < length (workers wm)" and "length (saveResultChan wm) < resultChanSize wm"
  obtains wm' w' where "healthCheck_worker E R i wm w = Some (wm', w')"
    and "length (saveResultChan wm') \<le> Suc (length (saveResultChan wm))"
    and "resultChanSize wm' = resultChanSize wm" and "length (workers wm') = length (workers wm)"
proof -
  have "\<exists>wm' w'. healthCheck_worker E R i wm w = Some (wm', w')"
    using assms(2) by (auto simp: healthCheck_worker_def Let_def chan_send_def split: prod.splits)
  then obtain wm' w' where h: "healthCheck_worker E R i wm w = Some (wm', w')" by blast
  from h assms(1) have "length (saveResultChan wm') \<le> Suc (length (saveResultChan wm)) \<and>
      length (workers wm') = length (workers wm)"
    by (cases rule: healthCheck_worker_cases) (simp_all add: upd_worker_def)
  moreover have "resultChanSize wm' = resultChanSize wm"
    using healthCheck_worker_size(1) [OF h] assms(2) by simp
  ultimately show thesis using that [OF h] by blast
qed

lemma checks_end:
  assumes "hpc s = H_Check R i" and "i \<le> length (workers (mgr s))" and "ctx s \<noteq> None"
    and "length (saveResultChan (mgr s)) + (length (workers (mgr s)) - i) < resultChanSize (mgr s)"
  shows "\<exists>t. (health_step E)\<^sup>*\<^sup>* s t \<and> hpc t = H_Exited \<and> mu t = Unlocked \<and>
    length (saveResultChan (mgr t)) < resultChanSize (mgr t)"
  using assms
proof (induction "length (workers (mgr s)) - i" arbitrary: s i)
  case 0
  let ?t = "s\<lparr>mu := Unlocked, hpc := H_Wait\<rparr>"
  let ?u = "?t\<lparr>hpc := H_Exited, mgr := leave_wg HealthLoop (mgr ?t)\<rparr>"
  have 1: "health_step E s ?t" using 0 by (intro h_done) simp_all
  have 2: "health_step E ?t ?u" using 0 by (intro h_exit) simp_all
  from health_star [OF 1 health_star [OF 2 rtranclp.rtrancl_refl]] 0
  show ?case by (intro exI [of _ ?u]) simp
next
  case (Suc k)
  from Suc.hyps(2) Suc.prems have i: "i < length (workers (mgr s))"
    "length (saveResultChan (mgr s)) < resultChanSize (mgr s)" by simp_all
  obtain wm' w' where h: "healthCheck_worker (rt E) R i (mgr s) (world s) = Some (wm', w')"
    "length (saveResultChan wm') \<le> Suc (length (saveResultChan (mgr s)))"
    "resultChanSize wm' = resultChanSize (mgr s)" "length (workers wm') = length (workers (mgr s))"
    by (rule healthCheck_worker_room [OF i])
  let ?u = "s\<lparr>mgr := wm', world := w', hpc := H_Check R (Suc i),
      handed := handed s @ drop (length (saveResultChan (mgr s))) (saveResultChan wm')\<rparr>"
  have step: "health_step E s ?u" by (rule h_check [OF Suc.prems(1) i(1) h(1)])
  have "\<exists>t. (health_step E)\<^sup>*\<^sup>* ?u t \<and> hpc t = H_Exited \<and> mu t = Unlocked \<and>
      length (saveResultChan (mgr t)) < resultChanSize (mgr t)"
    by (rule Suc.hyps(1) [of ?u "Suc i"]) (use Suc.hyps(2) Suc.prems h i in simp_all)
  with step show ?case by (blast intro: health_star)
qed

lemma health_exits:
  assumes "wait_inv s" and "ctx s \<noteq> None"
    and "length (saveResultChan (mgr s)) + length (workers (mgr s)) < resultChanSize (mgr s)"
  shows "\<exists>t. (health_step E)\<^sup>*\<^sup>* s t \<and> hpc t = H_Exited \<and> mu t = Unlocked \<and>
    length (saveResultChan (mgr t)) < resultChanSize (mgr t)"
proof -
  have free: "mu s = Unlocked" if "\<nexists>R i. hpc s = H_Check R i"
    using assms(1) that by (cases "mu s") (auto simp: wait_inv_def)
  show ?thesis
  proof (cases "hpc s")
    case H_Wait
    with free have "mu s = Unlocked" by simp
    with assms show ?thesis
      by (intro exI [of _ "s\<lparr>hpc := H_Exited, mgr := leave_wg HealthLoop (mgr s)\<rparr>"])
        (simp add: r_into_rtranclp h_exit [OF H_Wait assms(2)])
  next
    case (H_Lock R)
    with free have m: "mu s = Unlocked" by simp
    note step = h_lock [OF H_Lock m, of E]
    from checks_end [of "s\<lparr>mu := HeldByHealth, hpc := H_Check R 0\<rparr>" R 0 E] assms step
    show ?thesis by (auto intro: health_star)
  next
    case (H_Check R i)
    with assms(1) have "i \<le> length (workers (mgr s))" by (simp add: wait_inv_def)
    with checks_end [OF H_Check this assms(2)] assms(3) show ?thesis by simp
  next
    case H_Exited
    with free assms(3) show ?thesis by (intro exI [of _ s]) simp
  qed
qed

text \<open>The restart goroutines, with the lock free.\<close>

fun restart_work :: "goroutine \<Rightarrow> nat" where
  "restart_work (RestartCall i sid) = 2"
| "restart_work (RestartLock i sid) = 1"
| "restart_work _ = 0"

lemma restarts_end:
  assumes "mu s = Unlocked"
  shows "\<exists>t. restart_step\<^sup>*\<^sup>* s t \<and> (\<forall>g\<in>set (wg (mgr t)). restart_work g = 0)"
  using assms
proof (induction "sum_list (map restart_work (wg (mgr s)))" arbitrary: s rule: less_induct)
  case less
  have IH: "\<exists>t. restart_step\<^sup>*\<^sup>* s t \<and> (\<forall>g\<in>set (wg (mgr t)). restart_work g = 0)"
    if "restart_step s u" "sum_list (map restart_work (wg (mgr u))) < sum_list (map restart_work (wg (mgr s)))"
      "mu u = mu s" for u
  proof -
    from less.hyps [OF that(2)] that(3) less.prems obtain t
      where "restart_step\<^sup>*\<^sup>* u t" "\<forall>g\<in>set (wg (mgr t)). restart_work g = 0" by auto
    with that(1) show ?thesis by (blast intro: converse_rtranclp_into_rtranclp)
  qed
  show ?case
  proof (cases "\<forall>g\<in>set (wg (mgr s)). restart_work g = 0")
    case True
    then show ?thesis by blast
  next
    case False
    then obtain g where g: "g \<in> set (wg (mgr s))" "restart_work g \<noteq> 0" by blast
    note sum = sum_list_map_remove1 [OF g(1), of restart_work]
    show ?thesis
    proof (cases g)
      case (RestartCall i sid)
      note c = g(1) [unfolded RestartCall]
      obtain r w' where r: "docker_RestartContainer (dockerConn (mgr s)) (ContainerID (workers (mgr s) ! i)) (world s)
          = (r, w')" by fastforce
      show ?thesis
      proof (cases r)
        case None
        from IH [OF x_done [OF c r [unfolded None]]] sum show ?thesis by (simp add: RestartCall)
      next
        case (Some e)
        from IH [OF x_fail [OF c r [unfolded Some]]] sum show ?thesis by (simp add: RestartCall)
      qed
    next
      case (RestartLock i sid)
      from IH [OF x_finish [OF g(1) [unfolded RestartLock] less.prems]] sum show ?thesis
        by (simp add: RestartLock wg_same)
    qed (use g(2) in simp_all)
  qed
qed

text \<open>All of them, one after the other: health, result and save loop, matchmaker, restarts.\<close>

lemma all_end:
  assumes "reach E n s" and "ctx s \<noteq> None" and "fresh_ids E s"
    and "length (saveResultChan (mgr s)) + length (workers (mgr s)) < 8192"
  shows "\<exists>t. (sys_step E)\<^sup>*\<^sup>* s t \<and> rpc t = R_Exited \<and> spc t = S_Exited \<and> hpc t = H_Exited \<and>
     mpc t = M_Exited \<and> (\<forall>g\<in>set (wg (mgr t)). restart_work g = 0)"
proof -
  from reach_chan_inv [OF assms(1)] assms(4)
  have room: "length (saveResultChan (mgr s)) + length (workers (mgr s)) < resultChanSize (mgr s)"
    by (simp add: chan_inv_def)
  obtain s1 where 1: "(health_step E)\<^sup>*\<^sup>* s s1" "hpc s1 = H_Exited" "mu s1 = Unlocked"
    "length (saveResultChan (mgr s1)) < resultChanSize (mgr s1)"
    using health_exits [OF reach_wait_inv [OF assms(1)] assms(2) room] by blast
  have c1: "ctx s1 \<noteq> None" using health_frame [OF 1(1)] assms(2) by simp
  obtain s2 where 2: "(result_step E)\<^sup>*\<^sup>* s1 s2" "rpc s2 = R_Exited" using result_exits [OF c1 1(3,4)] by blast
  note f2 = result_frame [OF 2(1)]
  have c2: "ctx s2 \<noteq> None" using f2 c1 by simp
  obtain s3 where 3: "save_step\<^sup>*\<^sup>* s2 s3" "spc s3 = S_Exited" using save_exits [OF c2] by blast
  note f3 = save_frame [OF 3(1)]
  have run3: "(sys_step E)\<^sup>*\<^sup>* s s3"
    by (rule rtranclp_trans [OF sys_runs(4) [OF 1(1)] rtranclp_trans [OF sys_runs(3) [OF 2(1)] sys_runs(2) [OF 3(1)]]])
  have "mm_ends E s3"
    using f2 f3 1(3) c1 by (intro mm_ends wait_inv_run [OF run3 reach_wait_inv [OF assms(1)]]
        fresh_ids_run [OF assms(3) run3]) simp_all
  then obtain s4 where 4: "(mm_step E)\<^sup>*\<^sup>* s3 s4" "mpc s4 = M_Exited" unfolding mm_ends_def by blast
  note f4 = mm_frame [OF 4(1)]
  have "mu s4 = Unlocked" using f2 f3 f4 1(3) by simp
  from restarts_end [OF this] obtain t where 5: "restart_step\<^sup>*\<^sup>* s4 t" "\<forall>g\<in>set (wg (mgr t)). restart_work g = 0"
    by blast
  note f5 = restart_frame [OF 5(1)]
  have run: "(sys_step E)\<^sup>*\<^sup>* s t"
    by (rule rtranclp_trans [OF run3 rtranclp_trans [OF sys_runs(1) [OF 4(1)] sys_runs(5) [OF 5(1)]]])
  have pcs: "rpc t = R_Exited" "spc t = S_Exited" "hpc t = H_Exited" "mpc t = M_Exited"
    using f2 f3 f4 f5 1(2) 2(2) 3(2) 4(2) by simp_all
  with run 5(2) show ?thesis by blast
qed

lemma group_empty:
  assumes "wg_inv t" and "rpc t = R_Exited" and "spc t = S_Exited" and "hpc t = H_Exited"
    and "\<forall>g\<in>set (wg (mgr t)). restart_work g = 0"
  shows "wg (mgr t) = []"
proof -
  have "g \<notin> set (wg (mgr t))" for g
    using assms by (cases g) (auto simp: wg_inv_def)
  then show ?thesis by (metis list.set_intros(1) neq_Nil_conv)
qed

lemma reach_run: "(sys_step E)\<^sup>*\<^sup>* s t \<Longrightarrow> reach E n s \<Longrightarrow> \<exists>k. reach E k t"
  by (induction rule: rtranclp_induct) (auto intro: reach.step)


end
