(* ===== verification/End_to_End.thy ===== *)
theory End_to_End
  imports Replay Manager_Run Broker_Props
begin

text \<open>
  From a worker's report to the match's row: the game-server's and the server-manager's NATS
  adapters, the result and save loops of the manager's step relation and the database
  adapter together.
\<close>

section \<open>The manager's connections\<close>

text \<open>
  The world of the manager is the one behind the NATS adapter next to the one behind the
  database adapter.
\<close>

type_synonym 'w service_world = "'w nats_world \<times> db_world"

definition lift_call :: "('a \<Rightarrow> 'r \<times> 'a) \<Rightarrow> 'a \<times> 'b \<Rightarrow> 'r \<times> 'a \<times> 'b" where
  "lift_call f = (\<lambda>(x, y). case f x of (r, x') \<Rightarrow> (r, x', y))"

definition lift_broker :: "'a BrokerConnection_ops \<Rightarrow> ('a \<times> 'b) BrokerConnection_ops" where
  "lift_broker b =
     \<lparr>broker_Open = (\<lambda>cfg. lift_call (broker_Open b cfg)), broker_Close = lift_call (broker_Close b),
      broker_AssignJob = (\<lambda>i cfg. lift_call (broker_AssignJob b i cfg)),
      broker_GetResult = (\<lambda>(x, y). case broker_GetResult b x of
           (Inl e, x') \<Rightarrow> (Inl e, x', y)
         | (Inr m, x') \<Rightarrow> (Inr \<lparr>Data = Data m, Ack = lift_call (Ack m)\<rparr>, x', y)),
      broker_GetWorkersPong = (\<lambda>t. lift_call (broker_GetWorkersPong b t))\<rparr>"

definition database_side :: "pg_env \<Rightarrow> ('a \<times> db_world) DatabaseConnection_ops" where
  "database_side P = lift_database snd (\<lambda>d (x, _). (x, d)) P"

text \<open>A manager over these whose result and save loops are about to take the next result.\<close>

definition receptive :: "'w Nats \<Rightarrow> pg_env \<Rightarrow> 'w service_world sys_env \<Rightarrow> 'w service_world sys \<Rightarrow> bool" where
  "receptive N P E s \<longleftrightarrow>
     brokerConn (mgr s) = lift_broker (manager_broker N) \<and> dbConn (mgr s) = database_side P \<and>
     unmarshal E = unmarshal_Result \<and> rpc s = R_Poll \<and> spc s = S_Recv \<and> mu s = Unlocked \<and>
     saveResultChan (mgr s) = [] \<and> 0 < resultChanSize (mgr s) \<and> pool_inv (mgr s)"

section \<open>One result through both loops\<close>

lemmas sys_star = converse_rtranclp_into_rtranclp [of "sys_step E" for E]

lemma result_through:
  assumes "receptive N P E s" and "world s = ((nc, w), c, q)"
    and "handleResults_fetch (unmarshal E) (mgr s) (world s) = (Inr res, (nc, w2), c, q)"
    and "connected (c, q)" and "int4 (res_MatchID res)" and "jsonb_ok P (Details res)"
  shows "\<exists>t. (sys_step E)\<^sup>*\<^sup>* s t \<and> mgr t = handleResults_free res (mgr s) \<and>
     world t = ((nc, w2), c, q\<lparr>store := saved res (store q)\<rparr>)"
proof -
  let ?wm = "(mgr s)\<lparr>saveResultChan := [res]\<rparr>"
  let ?q1 = "q\<lparr>store := remove_store (res_MatchID res) (store q)\<rparr>"
  let ?q2 = "q\<lparr>store := saved res (store q)\<rparr>"
  let ?s1 = "s\<lparr>world := ((nc, w2), c, q), rpc := R_Send res\<rparr>"
  let ?s2 = "?s1\<lparr>mgr := ?wm, rpc := R_Free res, handed := handed ?s1 @ [res]\<rparr>"
  let ?s3 = "?s2\<lparr>mgr := handleResults_free res (mgr ?s2), rpc := R_Poll\<rparr>"
  let ?s4 = "?s3\<lparr>mgr := (mgr ?s3)\<lparr>saveResultChan := []\<rparr>, spc := S_Remove res\<rparr>"
  let ?s5 = "?s4\<lparr>world := ((nc, w2), c, ?q1), spc := S_Save res\<rparr>"
  let ?s6 = "?s5\<lparr>world := ((nc, w2), c, ?q2), spc := S_Recv, processed := processed ?s5 @ [res]\<rparr>"
  have s: "rpc s = R_Poll" "spc s = S_Recv" "mu s = Unlocked" "saveResultChan (mgr s) = []"
    "0 < resultChanSize (mgr s)" "dbConn (mgr s) = database_side P"
    using assms(1) by (simp_all add: receptive_def)
  have 1: "sys_step E s ?s1" by (rule by_result [OF r_fetch [OF s(1) assms(3)]])
  have 2: "sys_step E ?s1 ?s2" by (rule by_result [OF r_send]) (simp_all add: chan_send_def s)
  have 3: "sys_step E ?s2 ?s3" by (rule by_result [OF r_free]) (simp_all add: s)
  have 4: "sys_step E ?s3 ?s4" by (rule by_save [OF s_recv]) (simp_all add: chan_recv_def s)
  have "db_RemoveMatchStatus (dbConn (mgr ?s4)) (res_MatchID res) (world ?s4) = (None, world ?s5)"
    using RemoveMatchStatus_connected [OF assms(4), of "res_MatchID res"]
    by (simp add: s database_side_def via_def)
  then have 5: "sys_step E ?s4 ?s5" by (intro by_save [OF s_remove]) simp_all
  have "snd (db_SaveMatchResults (dbConn (mgr ?s5)) res (world ?s5)) = world ?s6"
    using SaveMatchResults_connected(1) [of c ?q1 res P] assms(4-6)
    by (auto simp: s database_side_def via_def saved_def split: prod.splits)
  then obtain r where "db_SaveMatchResults (dbConn (mgr ?s5)) res (world ?s5) = (r, world ?s6)"
    by (metis prod.collapse)
  then have 6: "sys_step E ?s5 ?s6" by (intro by_save [OF s_save]) simp_all
  have "mgr ?s6 = handleResults_free res (mgr s)"
    using s(4) by (simp add: handleResults_free_def getWorkerByMatchID_def upd_worker_def signal_free_def split: option.split)
  moreover have "(sys_step E)\<^sup>*\<^sup>* s ?s6"
    by (rule sys_star [OF 1 sys_star [OF 2 sys_star [OF 3 sys_star [OF 4 sys_star [OF 5 sys_star [OF 6
          rtranclp.rtrancl_refl]]]]]])
  ultimately show ?thesis by (intro exI [of _ ?s6]) simp
qed

lemma message_through:
  assumes "jetstream N pending" and "unmarshal_Result p = Inr res" and "0 < res_MatchID res" and "int4 (res_MatchID res)"
    and "receptive N P E s" and "world s = ((nc, w), c, q)" and "nats_guard nc = None" and "pending w = p # rest"
    and "js_Next N MaxInt64 w = (Inr msg, w1)" and "Ack msg w1 = (None, w2)"
    and "connected (c, q)" and "jsonb_ok P (Details res)"
  shows "\<exists>t. (sys_step E)\<^sup>*\<^sup>* s t \<and> world t = ((nc, w2), c, q\<lparr>store := saved res (store q)\<rparr>) \<and>
     running_matches (mgr t) = running_matches (mgr s) - {res_MatchID res}"
proof -
  from jetstreamD(2) [OF assms(1,9)] assms(2,8) have "unmarshal_Result (Data msg) = Inr res" by simp
  then have "handleResults_fetch (unmarshal E) (mgr s) (world s) = (Inr res, (nc, w2), c, q)"
    using assms(5,7,9,10) by (simp add: handleResults_fetch_def receptive_def lift_broker_def manager_broker_def
        GetResultNATS_def lift_message_def lift_call_def assms(6))
  from result_through [OF assms(5,6) this assms(11,4,12)] obtain t
    where t: "(sys_step E)\<^sup>*\<^sup>* s t" "mgr t = handleResults_free res (mgr s)"
      "world t = ((nc, w2), c, q\<lparr>store := saved res (store q)\<rparr>)" by blast
  have "pool_inv (mgr s)" using assms(5) by (simp add: receptive_def)
  from running_matches_free [OF this, of "res_MatchID res" "Success res" "Details res"] assms(3)
  have "running_matches (mgr t) = running_matches (mgr s) - {res_MatchID res}" by (cases res) (simp add: t(2))
  with t show ?thesis by blast
qed

text \<open>What the saved result is in the tables.\<close>

lemma saved_tables:
  "matches (saved res T) = map (\<lambda>x. if m_id x = res_MatchID res
      then x\<lparr>m_results := json_column (Details res), m_canceled := \<not> Success res, m_active := False\<rparr> else x) (matches T)"
  "users (saved res T) = map (\<lambda>u. if u_match_id u = Some (res_MatchID res)
      then u\<lparr>u_match_id := None, u_queued_until := None, u_match_auth_token := None\<rparr> else u) (users T)"
  by (simp_all add: saved_def save_store_def remove_store_def save_match_def release_user_def)

text \<open>
  C5. A worker's report is what the match's row will hold.  When the report of a match, its
  result or its cancel, was published, the stream has one more message; and in any state in
  which the manager's consumer has come to that message, the fetch and its acknowledgement
  succeed, the database works and both loops are ready, steps of the system lead to a state
  in which the match is inactive in the database with this outcome and these details (up to
  white space), exactly its users can queue again, and no worker is still counted as running
  it.
\<close>

theorem report_recorded:
  assumes "jetstream N pending" and "game_guard gc = None" and "0 < m" and "m < 2 ^ 31"
    and "\<forall>out. d = Some out \<longrightarrow> json_text 9999 out"
    and "send_report N cx m d (gc, v) = (None, gc', v1)"
  shows "\<exists>p details. pending v1 = pending v @ [p] \<and>
     (case d of None \<Rightarrow> details = ''{}'' | Some out \<Rightarrow> marshal_raw out = Inr details) \<and>
     (\<forall>P E s nc w rest c q msg w1 w2.
        receptive N P E s \<and> world s = ((nc, w), c, q) \<and> nats_guard nc = None \<and> pending w = p # rest \<and>
        js_Next N MaxInt64 w = (Inr msg, w1) \<and> Ack msg w1 = (None, w2) \<and>
        connected (c, q) \<and> jsonb_ok P details \<longrightarrow>
        (\<exists>t q'. (sys_step E)\<^sup>*\<^sup>* s t \<and> world t = ((nc, w2), c, q') \<and>
           running_matches (mgr t) = running_matches (mgr s) - {m} \<and>
           matches (store q') = map (\<lambda>x. if m_id x = m
              then x\<lparr>m_results := json_column details, m_canceled := (d = None), m_active := False\<rparr> else x)
              (matches (store q)) \<and>
           users (store q') = map (\<lambda>u. if u_match_id u = Some m
              then u\<lparr>u_match_id := None, u_queued_until := None, u_match_auth_token := None\<rparr> else u)
              (users (store q))))"
proof -
  have m: "- (2 ^ 63) \<le> m" "m < 2 ^ 63" "int4 m" using assms(3,4) by (simp_all add: int4_def)
  from send_report_publishes [OF assms(2) m(1,2) assms(5), of N cx v] obtain raw p
    where p: "unmarshal_Result p = Inr (report_of m (map_option (\<lambda>_. raw) d))"
      and raw: "\<forall>out. d = Some out \<longrightarrow> marshal_raw out = Inr raw" "d = None \<Longrightarrow> raw = ''{}''"
      and pub: "send_report N cx m d (gc, v) = (case js_Publish N cx resultSubject p v of (r, v1) \<Rightarrow> (r, gc, v1))"
    by blast
  define res where "res = report_of m (map_option (\<lambda>_. raw) d)"
  have res: "res = \<lparr>Success = (d \<noteq> None), res_MatchID = m, Details = raw\<rparr>"
    using raw(2) by (cases d) (simp_all add: res_def report_of_def)
  from pub assms(6) have "js_Publish N cx resultSubject p v = (None, v1)" by (auto split: prod.splits)
  from jetstreamD(1) [OF assms(1) this] have stream: "pending v1 = pending v @ [p]" by simp
  have det: "case d of None \<Rightarrow> raw = ''{}'' | Some out \<Rightarrow> marshal_raw out = Inr raw"
    using raw by (cases d) simp_all
  have "\<exists>t q'. (sys_step E)\<^sup>*\<^sup>* s t \<and> world t = ((nc, w2), c, q') \<and>
           running_matches (mgr t) = running_matches (mgr s) - {m} \<and>
           matches (store q') = map (\<lambda>x. if m_id x = m
              then x\<lparr>m_results := json_column raw, m_canceled := (d = None), m_active := False\<rparr> else x)
              (matches (store q)) \<and>
           users (store q') = map (\<lambda>u. if u_match_id u = Some m
              then u\<lparr>u_match_id := None, u_queued_until := None, u_match_auth_token := None\<rparr> else u)
              (users (store q))"
    if r: "receptive N P E s" and w: "world s = ((nc, w), c, q)" and g: "nats_guard nc = None"
      "pending w = p # rest" "js_Next N MaxInt64 w = (Inr msg, w1)" "Ack msg w1 = (None, w2)"
      and db: "connected (c, q)" "jsonb_ok P raw" for P E s nc w rest c q msg w1 w2
  proof -
    from message_through [OF assms(1) p [folded res_def] _ _ r w g db(1)] assms(3) m(3) db(2) obtain t
      where "(sys_step E)\<^sup>*\<^sup>* s t" "world t = ((nc, w2), c, q\<lparr>store := saved res (store q)\<rparr>)"
        "running_matches (mgr t) = running_matches (mgr s) - {m}" by (auto simp: res)
    then show ?thesis
      by (intro exI [of _ t] exI [of _ "q\<lparr>store := saved res (store q)\<rparr>"]) (simp add: saved_tables res)
  qed
  with stream det show ?thesis by (intro exI [of _ p] exI [of _ raw]) blast
qed

end
