(* ===== verification/Type_Safety.thy ===== *)
theory Type_Safety
  imports Manager_Run
begin

text \<open>
  What never goes wrong in the manager because of the shape of its state: the part of the
  manager that is only written by \<open>NewWorkerManager\<close> and \<open>Start\<close> stays as it is, every worker is
  well-formed, every index a goroutine holds is one of the pool, and the lock belongs to the
  goroutine that is in its critical section.
\<close>

section \<open>The part that is never written\<close>

text \<open>
  The manager with what the goroutines write put back to what it was when \<open>Start\<close> returned:
  every worker as it was created, the channel empty, nobody waiting.
\<close>

definition created :: "Worker \<Rightarrow> Worker" where
  "created wk = NewWorker (ID wk) (ContainerID wk) (maxPingRetries wk) (restartTimeout wk)"

definition static :: "'w WorkerManager \<Rightarrow> 'w WorkerManager" where
  "static wm = wm\<lparr>workers := map created (workers wm), saveResultChan := [], newfreeWorker := NoWaiter,
     waiting := False, wg := []\<rparr>"

lemma created_simps [simp]:
  "created (snd (SetFree wk)) = created wk" "created (snd (SetRestarting t wk)) = created wk"
  "created (snd (SetOccupied m wk)) = created wk" "created (HandlePong p wk) = created wk"
  by (simp_all add: created_def)

lemma map_created_update: "created wk = created (ws ! i) \<Longrightarrow> map created (ws[i := wk]) = map created ws"
  by (rule map_update_same)

lemma static_simps [simp]:
  "created wk = created (workers wm ! i) \<Longrightarrow> static (upd_worker i wk wm) = static wm"
  "static (wm\<lparr>saveResultChan := c\<rparr>) = static wm" "static (wm\<lparr>wg := g\<rparr>) = static wm"
  "static (wm\<lparr>newfreeWorker := n\<rparr>) = static wm" "static (wm\<lparr>waiting := b\<rparr>) = static wm"
  "static (signal_free wm) = static wm" "static (leave_wg h wm) = static wm" "static (join_wg h wm) = static wm"
  by (simp_all add: static_def upd_worker_def map_created_update signal_free_def leave_wg_def join_wg_def)

lemma static_sel: "workers (static wm) = map created (workers wm)" "config (static wm) = config wm"
  by (simp_all add: static_def)

text \<open>Each operation of the goroutines keeps it.\<close>

lemma static_operations:
  "chan_send res wm = Some wm' \<Longrightarrow> static wm' = static wm"
  "chan_recv wm = Some (res, wm') \<Longrightarrow> static wm' = static wm"
  "static (handleResults_free res wm) = static wm"
  "static (snd (restartWorker_finish i sid wm)) = static wm"
  "WaitForFreeWorker_turn c wm = (out, wm') \<Longrightarrow> static wm' = static wm"
  "AssignMatch cfg wm w = (x, wm', w') \<Longrightarrow> static wm' = static wm"
  by (auto simp: chan_send_def chan_recv_def handleResults_free_def restartWorker_finish_def
      WaitForFreeWorker_turn_def elim!: AssignMatch_cases split: if_splits list.splits option.splits)

lemma static_healthCheck_worker:
  "healthCheck_worker E R i wm w = Some (wm', w') \<Longrightarrow> i < length (workers wm) \<Longrightarrow> static wm' = static wm"
  by (erule healthCheck_worker_cases) simp_all

lemma static_step:
  assumes "sys_step E s t"
  shows "static (mgr t) = static (mgr s)"
  using assms
  by (elim step_elims)
    (auto simp: static_operations static_healthCheck_worker)

section \<open>The type of the system\<close>

text \<open>What \<open>Start\<close> made is what there is.\<close>

definition as_started :: "'w sys \<Rightarrow> bool" where
  "as_started s \<longleftrightarrow>
     (\<exists>docker broker db cfg w0 wm w.
        Start (NewWorkerManager docker broker db cfg) w0 = (None, wm, w) \<and> static (mgr s) = static wm)"

interpretation start_kept: system_invariant as_started
proof
  show "initial s \<Longrightarrow> as_started s" for s :: "'w sys"
    unfolding initial_def as_started_def by blast
  show "sys_step E s t \<Longrightarrow> as_started s \<Longrightarrow> as_started t" for E :: "'w sys_env" and s t
    unfolding as_started_def by (simp add: static_step)
qed

lemma Start_config:
  assumes "Start (NewWorkerManager docker broker db cfg) w0 = (None, wm, w)"
  shows "config wm = cfg"
  using assms
proof (cases rule: Start_cases)
  case (started wm1 w1)
  from started(5) show ?thesis
    by (simp, subst spawn_workers_frame [OF started(4)]) (simp add: NewWorkerManager_def)
qed simp_all

lemma Start_layout:
  assumes "Start (NewWorkerManager docker broker db cfg) w0 = (None, wm, w)"
  shows "\<exists>cs. length cs = nat (Workercount cfg) \<and>
     workers wm = map2 (\<lambda>i c. NewWorker (Itoa i) c 3 (seconds 30)) [0..<nat (Workercount cfg)] cs"
proof -
  have pool: "spawned_pool is r t ws \<Longrightarrow>
      \<exists>cs. length cs = length is \<and> ws = map2 (\<lambda>i c. NewWorker (Itoa i) c r t) is cs" for "is" r t ws
  proof (induction "is" arbitrary: ws)
    case (Cons i "is")
    then obtain c ws' where ws: "ws = NewWorker (Itoa i) c r t # ws'" "spawned_pool is r t ws'" by auto
    from Cons.IH [OF ws(2)] obtain cs
      where "length cs = length is" "ws' = map2 (\<lambda>i c. NewWorker (Itoa i) c r t) is cs" by blast
    with ws(1) show ?case by (intro exI [of _ "c # cs"]) simp
  qed simp
  from assms show ?thesis
  proof (cases rule: Start_cases)
    case (started wm1 w1)
    from spawn_workers_pool [OF started(4)] started(5) show ?thesis
      by (auto simp: NewWorkerManager_def dest!: pool)
  qed simp_all
qed

text \<open>
  C9. Every state the manager reaches is well-typed.  The workers are those \<open>Start\<close> made, in the
  same order, with the decimal numerals of their positions as IDs and the ping budget and
  restart time they were created with; each is well-formed: a match only while occupied, a
  deadline only while restarting, a ping counter within its bounds.  Every restart goroutine
  and the health check hold an index of the pool, so no access is out of range; the lock is
  held exactly while the health check is over its workers; and the channel holds at most as
  many results as it has room for.
\<close>

theorem system_typed:
  assumes "reach E n s" and "n \<le> 2 ^ 62"
  shows "\<exists>cs. length cs = nat (Workercount (config (mgr s))) \<and>
       map created (workers (mgr s)) =
         map2 (\<lambda>i c. NewWorker (Itoa i) c 3 (seconds 30)) [0..<nat (Workercount (config (mgr s)))] cs \<and>
       list_all wf_worker (workers (mgr s)) \<and>
       (\<forall>i sid. RestartCall i sid \<in> set (wg (mgr s)) \<or> RestartLock i sid \<in> set (wg (mgr s)) \<longrightarrow>
          i < length (workers (mgr s))) \<and>
       (\<forall>R i. hpc s = H_Check R i \<longrightarrow> i \<le> length (workers (mgr s))) \<and>
       (mu s = HeldByHealth) = (\<exists>R i. hpc s = H_Check R i) \<and>
       length (saveResultChan (mgr s)) \<le> resultChanSize (mgr s)"
proof -
  from start_kept.reached [OF assms(1)] obtain docker broker db cfg w0 wm w
    where st: "Start (NewWorkerManager docker broker db cfg) w0 = (None, wm, w)"
      and eq: "static (mgr s) = static wm" unfolding as_started_def by blast
  from eq have c: "config (mgr s) = config wm" "map created (workers (mgr s)) = map created (workers wm)"
    by (metis static_sel(2), metis static_sel(1))
  from Start_layout [OF st] obtain cs where cs: "length cs = nat (Workercount cfg)"
    "workers wm = map2 (\<lambda>i c. NewWorker (Itoa i) c 3 (seconds 30)) [0..<nat (Workercount cfg)] cs" by blast
  have "created (NewWorker i c r t) = NewWorker i c r t" for i c r t
    by (simp add: created_def NewWorker_def)
  then have "map created (workers wm) = workers wm" by (simp add: cs(2) comp_def case_prod_beta)
  moreover have "config wm = cfg" by (rule Start_config [OF st])
  ultimately have "map created (workers (mgr s)) =
      map2 (\<lambda>i c. NewWorker (Itoa i) c 3 (seconds 30)) [0..<nat (Workercount (config (mgr s)))] cs"
    "length cs = nat (Workercount (config (mgr s)))" using c cs by simp_all
  moreover have "list_all wf_worker (workers (mgr s)) \<and> ids_inv n (mgr s)"
    using reach_sys_inv [OF assms] by (simp add: sys_inv_def core_def pool_inv_def)
  ultimately show ?thesis
    using reach_wait_inv [OF assms(1)] reach_chan_inv [OF assms(1)]
    by (intro exI [of _ cs]) (auto simp: ids_inv_def wait_inv_def chan_inv_def)
qed

end
