(* ===== verification/Health_Rounds.thy ===== *)
theory Health_Rounds
  imports ManagerSystem_Props
begin

text \<open>
  What a run of health checks makes of one worker: when the manager gives up on it, and what
  it keeps of it until then.
\<close>

section \<open>Rounds of health checks\<close>

text \<open>
  \<open>n\<close> health checks in a row, with the answers each of them got; \<open>None\<close> when one of them fails
  or blocks.
\<close>

fun check_rounds ::
    "'w runtime \<Rightarrow> nat \<Rightarrow> 'w WorkerManager \<Rightarrow> 'w \<Rightarrow> (Responders list \<times> 'w WorkerManager \<times> 'w) option" where
  "check_rounds clk 0 wm w = Some ([], wm, w)"
| "check_rounds clk (Suc n) wm w =
     (case broker_GetWorkersPong (brokerConn wm) (workerPongTimeout wm) w of
        (Inl e, _) \<Rightarrow> None
      | (Inr R, _) \<Rightarrow>
     (case healthCheck clk wm w of
        Some (None, wm1, w1) \<Rightarrow> map_option (\<lambda>(Rs, y). (R # Rs, y)) (check_rounds clk n wm1 w1)
      | _ \<Rightarrow> None))"

text \<open>The worker's ping counter exceeds the limit somewhere on the way, from the value \<open>f\<close>.\<close>

fun outage :: "string \<Rightarrow> int \<Rightarrow> int \<Rightarrow> Responders list \<Rightarrow> bool" where
  "outage wid lim f [] = False"
| "outage wid lim f (R # Rs) =
     (if wid \<in> R then outage wid lim 0 Rs else lim < f + 1 \<or> outage wid lim (f + 1) Rs)"

text \<open>A worker that does not answer for some number of rounds in a row.\<close>

definition silent_for :: "string \<Rightarrow> int \<Rightarrow> Responders list \<Rightarrow> bool" where
  "silent_for wid k Rs \<longleftrightarrow> (\<exists>xs ys zs. Rs = xs @ ys @ zs \<and> int (length ys) = k \<and> (\<forall>R\<in>set ys. wid \<notin> R))"

definition silent_first :: "string \<Rightarrow> int \<Rightarrow> Responders list \<Rightarrow> bool" where
  "silent_first wid k Rs \<longleftrightarrow> (\<exists>ys zs. Rs = ys @ zs \<and> int (length ys) = k \<and> (\<forall>R\<in>set ys. wid \<notin> R))"

lemma silent_for_Cons: "silent_for wid k (R # Rs) \<longleftrightarrow> silent_first wid k (R # Rs) \<or> silent_for wid k Rs"
proof
  assume "silent_for wid k (R # Rs)"
  then obtain xs ys zs where s: "R # Rs = xs @ ys @ zs" "int (length ys) = k" "\<forall>R\<in>set ys. wid \<notin> R"
    unfolding silent_for_def by blast
  show "silent_first wid k (R # Rs) \<or> silent_for wid k Rs"
  proof (cases xs)
    case Nil
    with s show ?thesis unfolding silent_first_def by auto
  next
    case (Cons x xs')
    with s have "Rs = xs' @ ys @ zs" by simp
    with s show ?thesis unfolding silent_for_def by blast
  qed
next
  assume "silent_first wid k (R # Rs) \<or> silent_for wid k Rs"
  then show "silent_for wid k (R # Rs)"
    unfolding silent_first_def silent_for_def by (metis append_Cons append_Nil)
qed

lemma silent_first_Cons:
  "0 < k \<Longrightarrow> silent_first wid k (R # Rs) \<longleftrightarrow> wid \<notin> R \<and> silent_first wid (k - 1) Rs"
proof (intro iffI conjI)
  assume k: "0 < k" and "silent_first wid k (R # Rs)"
  then obtain ys zs where s: "R # Rs = ys @ zs" "int (length ys) = k" "\<forall>R\<in>set ys. wid \<notin> R"
    unfolding silent_first_def by blast
  with k obtain ys' where "ys = R # ys'" "Rs = ys' @ zs" by (cases ys) auto
  with s show "wid \<notin> R" and "silent_first wid (k - 1) Rs" unfolding silent_first_def by auto
next
  assume "wid \<notin> R \<and> silent_first wid (k - 1) Rs"
  then obtain ys zs where "Rs = ys @ zs" "int (length ys) = k - 1" "\<forall>R\<in>set ys. wid \<notin> R" "wid \<notin> R"
    unfolding silent_first_def by blast
  then show "silent_first wid k (R # Rs)"
    unfolding silent_first_def by (intro exI [of _ "R # ys"] exI [of _ zs]) auto
qed

lemma silent_first_0: "silent_first wid 0 Rs"
  by (auto simp: silent_first_def)

lemma silent_first_mono: "silent_first wid k Rs \<Longrightarrow> 0 \<le> j \<Longrightarrow> j \<le> k \<Longrightarrow> silent_first wid j Rs"
proof -
  assume "silent_first wid k Rs" and j: "0 \<le> j" "j \<le> k"
  then obtain ys zs where s: "Rs = ys @ zs" "int (length ys) = k" "\<forall>R\<in>set ys. wid \<notin> R"
    unfolding silent_first_def by blast
  with j show "silent_first wid j Rs" unfolding silent_first_def
    by (intro exI [of _ "take (nat j) ys"] exI [of _ "drop (nat j) ys @ zs"]) (auto dest: in_set_takeD)
qed

lemma outage_iff:
  assumes "0 \<le> f" and "f \<le> lim"
  shows "outage wid lim f Rs \<longleftrightarrow> silent_first wid (lim + 1 - f) Rs \<or> silent_for wid (lim + 1) Rs"
  using assms
proof (induction Rs arbitrary: f)
  case Nil
  then show ?case by (auto simp: silent_first_def silent_for_def)
next
  case (Cons R Rs)
  show ?case
  proof (cases "wid \<in> R")
    case True
    have "silent_first wid (lim + 1) Rs \<Longrightarrow> silent_for wid (lim + 1) Rs"
      unfolding silent_first_def silent_for_def by (metis append_Nil)
    with True Cons.prems Cons.IH [of 0] show ?thesis
      by (auto simp: silent_first_Cons silent_for_Cons)
  next
    case False
    have more: "silent_first wid lim Rs \<Longrightarrow> silent_first wid (lim - f) Rs"
      using Cons.prems by (elim silent_first_mono) simp_all
    show ?thesis
    proof (cases "f = lim")
      case True
      with False Cons.prems show ?thesis by (simp add: silent_first_Cons silent_first_0)
    next
      case less: False
      with False Cons.prems Cons.IH [of "f + 1"] show ?thesis
        by (simp add: silent_first_Cons silent_for_Cons) (use more in blast)
    qed
  qed
qed

section \<open>One worker in a health check\<close>

text \<open>
  What the check of one worker, and then the loop over several, does to worker \<open>i\<close>: passed
  with its new counter, or restarted.  What it appends for the other workers is theirs.
\<close>

definition passed :: "nat \<Rightarrow> Responders \<Rightarrow> 'w WorkerManager \<Rightarrow> 'w WorkerManager \<Rightarrow> bool" where
  "passed i R wm wm' \<longleftrightarrow>
     (\<exists>now. IsHealthy now (HandlePong (ID (workers wm ! i) \<in> R) (workers wm ! i))) \<and>
     workers wm' ! i = HandlePong (ID (workers wm ! i) \<in> R) (workers wm ! i) \<and>
     (\<forall>sid. RestartCall i sid \<in> set (wg wm') \<longleftrightarrow> RestartCall i sid \<in> set (wg wm))"

definition given_up :: "nat \<Rightarrow> 'w WorkerManager \<Rightarrow> 'w WorkerManager \<Rightarrow> bool" where
  "given_up i wm wm' \<longleftrightarrow>
     RestartCall i (wrap64 (StateID (workers wm ! i) + 1)) \<in> set (wg wm') \<and>
     (State (workers wm ! i) = WorkerOccupied \<longrightarrow>
        cancel_result (MatchID (workers wm ! i)) \<in> set (saveResultChan wm'))"

definition only_adds :: "'w WorkerManager \<Rightarrow> 'w WorkerManager \<Rightarrow> bool" where
  "only_adds wm wm' \<longleftrightarrow>
     set (wg wm) \<subseteq> set (wg wm') \<and> set (saveResultChan wm) \<subseteq> set (saveResultChan wm') \<and>
     length (workers wm') = length (workers wm)"

lemma given_up_adds: "given_up i wm wm1 \<Longrightarrow> only_adds wm1 wm' \<Longrightarrow> given_up i wm wm'"
  by (auto simp: given_up_def only_adds_def)

lemma only_adds_trans: "only_adds wm wm1 \<Longrightarrow> only_adds wm1 wm' \<Longrightarrow> only_adds wm wm'"
  by (auto simp: only_adds_def)

lemma healthCheck_worker_own:
  assumes "healthCheck_worker clk R i wm w = Some (wm', w')" and "i < length (workers wm)"
  shows "passed i R wm wm' \<or>
     given_up i wm wm' \<and> (\<exists>now. \<not> IsHealthy now (HandlePong (ID (workers wm ! i) \<in> R) (workers wm ! i)))"
  using assms by (cases rule: healthCheck_worker_effect) (auto simp: passed_def given_up_def)

lemma healthCheck_worker_other:
  assumes "healthCheck_worker clk R j wm w = Some (wm', w')" and "i \<noteq> j"
  shows "workers wm' ! i = workers wm ! i \<and>
     (\<forall>sid. RestartCall i sid \<in> set (wg wm') \<longleftrightarrow> RestartCall i sid \<in> set (wg wm))"
  using assms by (cases rule: healthCheck_worker_effect) (auto simp: upd_worker_def)

lemma healthCheck_worker_adds:
  assumes "healthCheck_worker clk R j wm w = Some (wm', w')"
  shows "only_adds wm wm'"
  using assms by (cases rule: healthCheck_worker_effect) (auto simp: only_adds_def)

lemma healthCheck_loop_adds: "healthCheck_loop clk R is wm w = Some (wm', w') \<Longrightarrow> only_adds wm wm'"
proof (induction "is" arbitrary: wm w)
  case Nil
  then show ?case by (simp add: only_adds_def)
next
  case (Cons j "is")
  then obtain wm1 w1 where "healthCheck_worker clk R j wm w = Some (wm1, w1)"
    "healthCheck_loop clk R is wm1 w1 = Some (wm', w')" by (auto split: option.splits)
  with Cons.IH show ?case by (blast intro: only_adds_trans healthCheck_worker_adds)
qed

lemma healthCheck_loop_other:
  "healthCheck_loop clk R is wm w = Some (wm', w') \<Longrightarrow> i \<notin> set is \<Longrightarrow>
   workers wm' ! i = workers wm ! i \<and>
     (\<forall>sid. RestartCall i sid \<in> set (wg wm') \<longleftrightarrow> RestartCall i sid \<in> set (wg wm))"
proof (induction "is" arbitrary: wm w)
  case (Cons j "is")
  then obtain wm1 w1 where "healthCheck_worker clk R j wm w = Some (wm1, w1)"
    "healthCheck_loop clk R is wm1 w1 = Some (wm', w')" by (auto split: option.splits)
  with Cons healthCheck_worker_other [of clk R j wm w wm1 w1 i] show ?case by simp
qed simp

lemma healthCheck_loop_own:
  assumes "healthCheck_loop clk R is wm w = Some (wm', w')" and "distinct is" and "i \<in> set is"
    and "i < length (workers wm)"
  shows "passed i R wm wm' \<or>
     given_up i wm wm' \<and> (\<exists>now. \<not> IsHealthy now (HandlePong (ID (workers wm ! i) \<in> R) (workers wm ! i)))"
  using assms
proof (induction "is" arbitrary: wm w)
  case (Cons j "is")
  then obtain wm1 w1 where one: "healthCheck_worker clk R j wm w = Some (wm1, w1)"
    and rest: "healthCheck_loop clk R is wm1 w1 = Some (wm', w')" by (auto split: option.splits)
  show ?case
  proof (cases "i = j")
    case True
    with Cons.prems have "i \<notin> set is" by simp
    from healthCheck_loop_other [OF rest this] healthCheck_loop_adds [OF rest]
      healthCheck_worker_own [OF one [folded True] Cons.prems(4)] show ?thesis
      by (auto simp: passed_def intro: given_up_adds)
  next
    case False
    have "length (workers wm1) = length (workers wm)"
      using healthCheck_worker_adds [OF one] by (simp add: only_adds_def)
    with Cons.IH [OF rest] Cons.prems False healthCheck_worker_other [OF one False] show ?thesis
      by (auto simp: passed_def given_up_def)
  qed
qed simp

lemma healthCheck_own:
  assumes "healthCheck clk wm w = Some (None, wm', w')"
    and "broker_GetWorkersPong (brokerConn wm) (workerPongTimeout wm) w = (Inr R, w0)" and "i < length (workers wm)"
  shows "passed i R wm wm' \<or>
     given_up i wm wm' \<and> (\<exists>now. \<not> IsHealthy now (HandlePong (ID (workers wm ! i) \<in> R) (workers wm ! i)))"
    and "only_adds wm wm'"
proof -
  from assms(1,2) have l: "healthCheck_loop clk R [0..<length (workers wm)] wm w0 = Some (wm', w')"
    by (simp add: healthCheck_def)
  from healthCheck_loop_own [OF l _ _ assms(3)] assms(3)
  show "passed i R wm wm' \<or>
     given_up i wm wm' \<and> (\<exists>now. \<not> IsHealthy now (HandlePong (ID (workers wm ! i) \<in> R) (workers wm ! i)))"
    by simp
  show "only_adds wm wm'" by (rule healthCheck_loop_adds [OF l])
qed

section \<open>A worker over several rounds\<close>

text \<open>A worker that is not being restarted, with a counter within its limit.\<close>

definition serving :: "Worker \<Rightarrow> bool" where
  "serving wk \<longleftrightarrow>
     State wk \<noteq> WorkerRestarting \<and> stateValidUntil wk = zero_time \<and>
     0 \<le> failCount wk \<and> failCount wk \<le> maxPingRetries wk \<and> maxPingRetries wk < 2 ^ 62"

lemma serving_HandlePong:
  assumes "serving wk"
  shows "HandlePong p wk = wk\<lparr>failCount := if p then 0 else failCount wk + 1\<rparr>"
    and "IsHealthy now (HandlePong p wk) \<longleftrightarrow> p \<or> failCount wk + 1 \<le> maxPingRetries wk"
proof -
  have w: "wrap64 (failCount wk + 1) = failCount wk + 1"
    using assms by (intro wrap64_id) (auto simp: serving_def)
  show h: "HandlePong p wk = wk\<lparr>failCount := if p then 0 else failCount wk + 1\<rparr>"
    using assms w by (simp add: HandlePong_def serving_def)
  show "IsHealthy now (HandlePong p wk) \<longleftrightarrow> p \<or> failCount wk + 1 \<le> maxPingRetries wk"
    using assms unfolding h by (auto simp: IsHealthy_def isStateValid_def IsZero_def serving_def)
qed

lemma check_rounds_Cons:
  assumes "check_rounds clk (Suc n) wm w = Some (Rs, wm', w')"
  obtains R Rs' wm1 w0 w1 where "Rs = R # Rs'"
    and "broker_GetWorkersPong (brokerConn wm) (workerPongTimeout wm) w = (Inr R, w0)"
    and "healthCheck clk wm w = Some (None, wm1, w1)" and "check_rounds clk n wm1 w1 = Some (Rs', wm', w')"
  using assms by (auto split: sum.splits prod.splits option.splits)

lemma check_rounds_adds:
  "check_rounds clk n wm w = Some (Rs, wm', w') \<Longrightarrow> only_adds wm wm'"
proof (induction n arbitrary: wm w Rs)
  case 0
  then show ?case by (simp add: only_adds_def)
next
  case (Suc n)
  from Suc.prems show ?case
  proof (cases rule: check_rounds_Cons)
    case (1 R Rs' wm1 w0 w1)
    then have "healthCheck_loop clk R [0..<length (workers wm)] wm w0 = Some (wm1, w1)"
      by (simp add: healthCheck_def)
    from healthCheck_loop_adds [OF this] Suc.IH [OF 1(4)] show ?thesis by (rule only_adds_trans)
  qed
qed

lemma check_rounds_worker:
  assumes "check_rounds clk n wm w = Some (Rs, wm', w')" and "i < length (workers wm)"
    and "serving (workers wm ! i)"
  shows "if outage (ID (workers wm ! i)) (maxPingRetries (workers wm ! i)) (failCount (workers wm ! i)) Rs
     then given_up i wm wm'
     else (\<exists>f. workers wm' ! i = (workers wm ! i)\<lparr>failCount := f\<rparr> \<and> 0 \<le> f \<and> f \<le> maxPingRetries (workers wm ! i)) \<and>
          (\<forall>sid. RestartCall i sid \<in> set (wg wm') \<longleftrightarrow> RestartCall i sid \<in> set (wg wm))"
  using assms
proof (induction n arbitrary: wm w Rs)
  case 0
  then show ?case by (auto simp: serving_def intro: exI [of _ "failCount (workers wm ! i)"])
next
  case (Suc n)
  let ?wk = "workers wm ! i"
  from Suc.prems(1) show ?case
  proof (cases rule: check_rounds_Cons)
    case (1 R Rs' wm1 w0 w1)
    let ?f = "if ID ?wk \<in> R then 0 else failCount ?wk + 1"
    note own = healthCheck_own [OF 1(3,2) Suc.prems(2)]
    note pong = serving_HandlePong [OF Suc.prems(3), where p = "ID ?wk \<in> R"]
    from own(1) show ?thesis
    proof
      assume "passed i R wm wm1"
      then have p: "workers wm1 ! i = ?wk\<lparr>failCount := ?f\<rparr>" "ID ?wk \<in> R \<or> failCount ?wk + 1 \<le> maxPingRetries ?wk"
        "\<forall>sid. RestartCall i sid \<in> set (wg wm1) \<longleftrightarrow> RestartCall i sid \<in> set (wg wm)"
        unfolding passed_def pong(2) unfolding pong(1) by simp_all
      have "i < length (workers wm1)" using own(2) Suc.prems(2) by (simp add: only_adds_def)
      moreover have "serving (workers wm1 ! i)"
        using Suc.prems(3) p(2) by (auto simp: p(1) serving_def)
      ultimately show ?thesis
        using Suc.IH [OF 1(4)] p by (auto simp: 1(1) given_up_def split: if_splits)
    next
      assume g: "given_up i wm wm1 \<and> (\<exists>now. \<not> IsHealthy now (HandlePong (ID ?wk \<in> R) ?wk))"
      then have "outage (ID ?wk) (maxPingRetries ?wk) (failCount ?wk) Rs" unfolding pong(2) by (auto simp: 1(1))
      with g given_up_adds [OF _ check_rounds_adds [OF 1(4)]] show ?thesis by simp
    qed
  qed
qed

section \<open>When the manager gives up on a worker\<close>

text \<open>
  C8. The ping budget is exact.  Over any number of health checks that get through, a worker that
  was not being restarted and had just answered is given up, its restart started and its match
  cancelled, if and only if it did not answer \<open>maxPingRetries + 1\<close> checks in a row; otherwise
  it is as it was, with the same state, match and state ID, and a counter within its
  limit.  What the other workers do has no influence, and the counter does not wrap.
\<close>

theorem silent_worker_given_up:
  assumes "check_rounds clk n wm w = Some (Rs, wm', w')" and "pool_inv wm" and "i < length (workers wm)"
    and "workers wm ! i = wk" and "State wk \<noteq> WorkerRestarting" and "failCount wk = 0"
    and "RestartCall i (wrap64 (StateID wk + 1)) \<notin> set (wg wm)"
  shows "if silent_for (ID wk) (maxPingRetries wk + 1) Rs
     then RestartCall i (wrap64 (StateID wk + 1)) \<in> set (wg wm') \<and>
          (State wk = WorkerOccupied \<longrightarrow> cancel_result (MatchID wk) \<in> set (saveResultChan wm'))
     else RestartCall i (wrap64 (StateID wk + 1)) \<notin> set (wg wm') \<and>
          (\<exists>f. workers wm' ! i = wk\<lparr>failCount := f\<rparr> \<and> 0 \<le> f \<and> f \<le> maxPingRetries wk)"
proof -
  have wf: "wf_worker wk" using assms(2-4) pool_inv_wf by blast
  then have s: "serving (workers wm ! i)" using assms(4,5) by (simp add: serving_def wf_worker_def)
  have "silent_first (ID wk) k Rs \<Longrightarrow> silent_for (ID wk) k Rs" for k
    unfolding silent_first_def silent_for_def by (metis append_Nil)
  with wf have o: "outage (ID wk) (maxPingRetries wk) 0 Rs = silent_for (ID wk) (maxPingRetries wk + 1) Rs"
    by (subst outage_iff) (auto simp: wf_worker_def)
  from check_rounds_worker [OF assms(1,3) s, unfolded assms(4,6) o] assms(7) show ?thesis
    by (cases "silent_for (ID wk) (maxPingRetries wk + 1) Rs") (simp_all add: given_up_def assms(4))
qed

end
