(* ===== verification/Service_Instances.thy ===== *)
theory Service_Instances
  imports Instances Game_Instances Game_App End_to_End Type_Safety Health_Rounds
begin

text \<open>
  Concrete instances of the properties of the adapters, the configuration and the two
  services: a NATS server with one stream, a Docker engine that keeps a list of containers,
  and the scripted deployment shutting down.
\<close>

section \<open>A broker\<close>

text \<open>
  The messages of the result stream not yet fetched, and the subjects subscribed to; a
  subscription's next message is always the given one.
\<close>

type_synonym ex_stream = "bytes list \<times> string set"

definition ex_nats :: "bytes \<Rightarrow> ex_stream Nats" where
  "ex_nats p =
     \<lparr>nats_Connect = (\<lambda>u t w. (None, w)), nats_Drain = (\<lambda>w. (None, w)),
      nats_Publish = (\<lambda>s b w. (None, w)), nats_PublishRequest = (\<lambda>s r b w. (None, w)),
      nats_Request = (\<lambda>t s b w. (if s \<in> snd w then Inr \<lparr>msg_Data = [], msg_Reply = []\<rparr>
                                else Inl (External ''nats: no responders available for request''), w)),
      nats_NewInbox = (\<lambda>w. (''_INBOX'', w)), nats_SubscribeInbox = (\<lambda>s w. (Inr 0, w)),
      nats_Received = (\<lambda>sub d w. (Inr [], w)), nats_Unsubscribe = (\<lambda>sub w. (None, w)),
      nats_Subscribe = (\<lambda>s h w. (Inr 1, (fst w, insert s (snd w)))),
      nats_SubscribeSync = (\<lambda>s w. (Inr 2, (fst w, insert s (snd w)))),
      nats_SetPendingLimits = (\<lambda>sub a b w. (None, w)),
      nats_NextMsg = (\<lambda>sub cx w. Some (Inr \<lparr>msg_Data = p, msg_Reply = ''_INBOX''\<rparr>, w)),
      js_New = (\<lambda>w. (None, w)), js_CreateOrUpdateStream = (\<lambda>c w. (None, w)),
      js_CreateConsumer = (\<lambda>d w. (None, w)),
      js_Next = (\<lambda>t w. case fst w of
           [] \<Rightarrow> (Inl (External ''nats: timeout''), w)
         | b # bs \<Rightarrow> (Inr \<lparr>Data = b, Ack = (\<lambda>w. (None, w))\<rparr>, (bs, snd w))),
      js_StreamNameBySubject = (\<lambda>cx s w. (Inr resultStreamName, w)),
      js_Publish = (\<lambda>cx s b w. (None, (fst w @ [b], snd w)))\<rparr>"

lemma ex_nats_sel [simp]:
  "nats_Connect (ex_nats p) u t w = (None, w)" "nats_Drain (ex_nats p) w = (None, w)"
  "nats_Publish (ex_nats p) s b w = (None, w)" "js_New (ex_nats p) w = (None, w)"
  "nats_Request (ex_nats p) t s b w = (if s \<in> snd w then Inr \<lparr>msg_Data = [], msg_Reply = []\<rparr>
     else Inl (External ''nats: no responders available for request''), w)"
  "nats_Subscribe (ex_nats p) s h w = (Inr 1, (fst w, insert s (snd w)))"
  "nats_SubscribeSync (ex_nats p) s w = (Inr 2, (fst w, insert s (snd w)))"
  "nats_SetPendingLimits (ex_nats p) sub a b' w = (None, w)"
  "nats_NextMsg (ex_nats p) sub cx w = Some (Inr \<lparr>msg_Data = p, msg_Reply = ''_INBOX''\<rparr>, w)"
  "js_StreamNameBySubject (ex_nats p) cx s w = (Inr resultStreamName, w)"
  "js_Publish (ex_nats p) cx s b w = (None, (fst w @ [b], snd w))"
  "js_Next (ex_nats p) d w = (case fst w of [] \<Rightarrow> (Inl (External ''nats: timeout''), w)
         | b # bs \<Rightarrow> (Inr \<lparr>Data = b, Ack = (\<lambda>w. (None, w))\<rparr>, (bs, snd w)))"
  by (simp_all add: ex_nats_def)

lemma ex_jetstream: "jetstream (ex_nats p) fst"
  by (auto simp: jetstream_def split: list.splits)

lemma ex_routes: "routes (ex_nats p) snd"
  by (auto simp: routes_def split: if_splits)

definition ex_gc :: GameConnection where
  "ex_gc = (NewConnection ''nats://nats'' ''0'')\<lparr>gc_requestSub := Some 2, gc_opened := True\<rparr>"

definition ex_nc :: NATSConnection where
  "ex_nc = NewNATSConnection\<lparr>nc_opened := True\<rparr>"

lemma ex_open: "game_guard ex_gc = None" "gc_requestSub ex_gc = Some 2" "nats_guard ex_nc = None"
  by (simp_all add: game_guard_def ex_gc_def NewConnection_def nats_guard_def ex_nc_def NewNATSConnection_def)

section \<open>Witnesses for the brokers\<close>

theorem assignment_arrives_witness:
  "\<exists>p raw. marshal_raw (marshal_players [ann]) = Inr raw \<and>
     AssignJob (ex_nats p) ''0'' \<lparr>cfg_MatchID = 7, Config = marshal_players [ann]\<rparr> (ex_nc, [], {})
       = (Some (External ''nats: no responders available for request''), ex_nc, [], {})"
proof -
  have b: "- (2 ^ 63) \<le> (7::int)" "(7::int) < 2 ^ 63" by simp_all
  from assignment_arrives [OF ex_open(3,1,2) b, of "ex_nats ''''" "''0''" "[ann]" "([], {})" undefined]
  obtain payload raw where
    "AssignJob (ex_nats '''') ''0'' \<lparr>cfg_MatchID = 7, Config = marshal_players [ann]\<rparr> (ex_nc, [], {}) =
       (case nats_Request (ex_nats '''') (nc_assignJobTimeout ex_nc) (assignSubject @ ''.'' @ ''0'') payload ([], {}) of
          (Inl e, w1) \<Rightarrow> (Some e, ex_nc, w1) | (Inr _, w1) \<Rightarrow> (None, ex_nc, w1))"
    "marshal_raw (marshal_players [ann]) = Inr raw"
    by (elim exE conjE)
  then show ?thesis by (intro exI [of _ "''''"] exI [of _ raw]) simp
qed

lemma ex_report:
  obtains p where "send_report (ex_nats q) Background 7 None (ex_gc, [], {}) = (None, ex_gc, [p], {})"
  using ex_open(1) send_report_publishes [of ex_gc 7 None "ex_nats q" Background "([], {})"] by auto

text \<open>A database that does nothing.\<close>

definition idle_db :: "'w DatabaseConnection_ops" where
  "idle_db =
     \<lparr>db_Open = (\<lambda>w. (None, w)), db_Close = (\<lambda>w. (None, w)), db_SetupMatchmaking = (\<lambda>w. (None, w)),
      db_GatherMatchPlayers = (\<lambda>w. (Inl (Sentinel ErrDBNotEnoughPlayers), w)),
      db_GenerateAuthTokens = (\<lambda>us w. (Inr us, w)),
      db_GetNextMatchId = (\<lambda>w. (Inl (External ''unexpected EOF''), w)),
      db_AddMatch = (\<lambda>us si m w. (None, w)), db_RemoveMatchStatus = (\<lambda>m w. (None, w)),
      db_SaveMatchResults = (\<lambda>res w. (None, w))\<rparr>"

definition ex_reader :: "ex_stream nats_world WorkerManager" where
  "ex_reader = NewWorkerManager script_docker (manager_broker (ex_nats '''')) idle_db script_config"

lemma ex_reader_broker: "brokerConn ex_reader = manager_broker (ex_nats '''')"
  by (simp add: ex_reader_def NewWorkerManager_def)

theorem report_read_back_witness:
  "\<exists>p res v. send_report (ex_nats '''') Background 7 None (ex_gc, [], {}) = (None, ex_gc, [p], {}) \<and>
     handleResults_fetch unmarshal_Result ex_reader (ex_nc, [p], {}) = (Inr res, v) \<and>
     res_MatchID res = 7 \<and> \<not> Success res"
proof -
  obtain p where p: "send_report (ex_nats '''') Background 7 None (ex_gc, [], {}) = (None, ex_gc, [p], {})"
    by (rule ex_report)
  have b: "- (2 ^ 63) \<le> (7::int)" "(7::int) < 2 ^ 63" "\<forall>out. None = Some out \<longrightarrow> json_text 9999 out" by simp_all
  from report_read_back [OF ex_jetstream ex_open(1) b p] obtain p' raw
    where p': "fst ([p], {} :: string set) = fst ([], {} :: string set) @ [p']"
      and r: "\<forall>wm nc v rest r nc' v'. brokerConn wm = manager_broker (ex_nats '''') \<and> nats_guard nc = None \<and>
        fst v = p' # rest \<and> handleResults_fetch unmarshal_Result wm (nc, v) = (r, nc', v') \<longrightarrow>
        (case r of
           Inr res \<Rightarrow> res_MatchID res = 7 \<and> Success res = (None \<noteq> (None :: bytes option)) \<and>
             Details res = (if (None :: bytes option) = None then ''{}'' else raw)
         | Inl e \<Rightarrow> \<exists>e'. e = Errorf ''%w: %w'' [Sentinel ErrFailedToGetResult, e'] \<or>
             e = Errorf ''%w: %w'' [Sentinel ErrFailedToAckResult, e'])"
    by (elim exE conjE)
  have "unmarshal_Result p = Inr (report_of 7 None)"
    using p send_report_publishes [of ex_gc 7 None "ex_nats ''''" Background "([], {})"] ex_open(1) by auto
  then obtain res v where h: "handleResults_fetch unmarshal_Result ex_reader (ex_nc, [p], {}) = (Inr res, v)"
    using ex_open(3)
    by (simp add: handleResults_fetch_def ex_reader_broker manager_broker_def GetResultNATS_def lift_message_def)
  obtain nc' v' where v: "v = (nc', v')" by (metis surj_pair)
  from r [rule_format, of ex_reader ex_nc "([p], {})" "[]" "Inr res" nc' v'] h v p' ex_open(3)
  have "res_MatchID res = 7" "\<not> Success res" by (simp_all add: ex_reader_broker)
  with p h show ?thesis by (intro exI [of _ p] exI [of _ res] exI [of _ v]) simp
qed

text \<open>The game ends well but leaves something that is not JSON.\<close>

definition bad_evs :: "os_event list" where
  "bad_evs = [Forks, ProcExits None ''x'', Expires]"

lemma bad_run:
  obtains x' where "runServer (deployed_server b args) Root ''{}'' ((ex_exec, ex_os [] bad_evs), w) =
    Some (Inr ''x'', x', w)"
  using that by (simp add: deployed_runServer eval_game bad_evs_def)

theorem invalid_output_cancelled_witness:
  "\<exists>p e x' gw. runMatch (deployed_server (game_broker (ex_nats p)) [''./game'']) Root
     ((ex_exec, ex_os [] bad_evs), ex_gc, [], {}) =
     Some (Some (Errorf ''failed to send result: %w'' [Errorf ''the result is not valid JSON: %w'' [e]]), x', gw)"
proof -
  have "json_text 9999 ''{}''" by (rule braces_json)
  then have "json_text 9999 (Config ex_config)" by simp
  from job.compact_decoded [OF _ _ this] braces_compact
  obtain p where u: "unmarshal_MatchConfig p = Inr ex_config" by auto
  have g: "GetMatchConfig (ex_nats p) Root (ex_gc, [], {}) = Some (Inr ex_config, ex_gc, [], {})"
    by (simp add: GetMatchConfig_def ex_open u)
  obtain x' where r: "runServer (deployed_server (game_broker (ex_nats p)) [''./game'']) Root (Config ex_config)
      ((ex_exec, ex_os [] bad_evs), ex_gc, [], {}) = Some (Inr ''x'', x', ex_gc, [], {})"
    by (rule bad_run [of "game_broker (ex_nats p)" "[''./game'']" "(ex_gc, [], {})"]) simp
  have "\<not> json_text maxNestingDepth ''x''"
    by (simp add: json_text_def jstart_def begin_value_def is_space_def is_digit_def accepts_def)
  from invalid_output_cancelled [OF g ex_open(1) r this] show ?thesis by blast
qed

section \<open>The configuration\<close>

definition ex_env :: parsedConfig where
  "ex_env =
     \<lparr>pc_Image = ''game'', pc_WorkerCount = 2, pc_ExposePorts = [''7777/udp'', ''8080/tcp''],
      pc_ClientPort = ''7777/udp'', pc_BrokerURI = ''nats://nats'', pc_BrokerNetworkName = ''net'',
      pc_PublicHost = ''localhost'', pc_PlayersPerRoom = 2, pc_DatabaseURI = ''postgres://db'',
      pc_LogLevel = ''INFO'', pc_GameServerLogLevel = ''DEBUG''\<rparr>"

definition ex_cfg :: EnvConfig where
  "ex_cfg =
     \<lparr>Image = ''game'', Workercount = 2, ExposePorts = {''7777/udp'', ''8080/tcp''}, ClientPort = ''7777/udp'',
      BrokerURI = ''nats://nats'', BrokerNetworkName = ''net'', PublicHost = ''localhost'',
      DatabaseURI = ''postgres://db'', PlayersPerRoom = 2, LogLevel = 0, GameServerLogLevel = - 4,
      TestMakeContainerDummy = False\<rparr>"

lemma ex_levels: "parseLogLevel ''INFO'' = Inr 0" "parseLogLevel ''DEBUG'' = Inr (- 4)"
  using parse_level_String [of 0] parse_level_String [of "- 4"]
  by (simp_all add: level_String_def level_with_offset_def LevelInfo_def LevelWarn_def LevelError_def LevelDebug_def)

lemma ex_ReadConfig: "ReadConfig (Inr ex_env) Inr = Inr ex_cfg"
  by (auto simp: ReadConfig_def ex_env_def ex_cfg_def ex_levels)

theorem ReadConfig_accepts_witness: "ReadConfig (Inr ex_env) Inr = Inr ex_cfg"
proof (rule ReadConfig_accepts [THEN iffD2])
  show "\<exists>c client l gl. Inr ex_env = Inr c \<and> 1 \<le> pc_WorkerCount c \<and> 2 \<le> pc_PlayersPerRoom c \<and>
      (\<forall>s\<in>set (pc_ExposePorts c). \<exists>p. (Inr s :: go_error + port) = Inr p) \<and>
      (Inr (pc_ClientPort c) :: go_error + port) = Inr client \<and>
      (\<exists>s\<in>set (pc_ExposePorts c). (Inr s :: go_error + port) = Inr client) \<and>
      parseLogLevel (pc_LogLevel c) = Inr l \<and> parseLogLevel (pc_GameServerLogLevel c) = Inr gl \<and>
      ex_cfg = \<lparr>Image = pc_Image c, Workercount = pc_WorkerCount c,
             ExposePorts = {p. \<exists>s\<in>set (pc_ExposePorts c). (Inr s :: go_error + port) = Inr p}, ClientPort = client,
             BrokerURI = pc_BrokerURI c, BrokerNetworkName = pc_BrokerNetworkName c,
             PublicHost = pc_PublicHost c, DatabaseURI = pc_DatabaseURI c,
             PlayersPerRoom = pc_PlayersPerRoom c, LogLevel = l, GameServerLogLevel = gl,
             TestMakeContainerDummy = False\<rparr>"
    by (rule exI [of _ ex_env], rule exI [of _ "''7777/udp''"], rule exI [of _ 0], rule exI [of _ "- 4"])
      (auto simp: ex_env_def ex_cfg_def ex_levels)
qed

section \<open>The engine\<close>

text \<open>A list of containers with their options; names are taken once.\<close>

type_synonym ex_containers = "(string \<times> ContainerCreateOptions) list"

definition ex_engine :: "ex_containers Engine" where
  "ex_engine =
     \<lparr>client_New = (\<lambda>w. (None, w)), client_Close = (\<lambda>w. (None, w)),
      ContainerCreate = (\<lambda>t opts w. if co_Name opts \<in> fst ` set w then (Inl (External ''Conflict''), w)
                                     else (Inr (co_Name opts), (co_Name opts, opts) # w)),
      ContainerStart = (\<lambda>t i w. (None, w)), ContainerRestart = (\<lambda>t s i w. (None, w)),
      ContainerRemove = (\<lambda>t f v i w. (None, filter (\<lambda>(j, opts). j \<noteq> i) w)),
      ContainerList = (\<lambda>t l w. (Inr (map fst w), w)),
      ContainerInspect = (\<lambda>t i w. case map_of w i of
           None \<Rightarrow> (Inl (External ''No such container''), w)
         | Some opts \<Rightarrow> (Inr (\<lambda>p. map_option (map (\<lambda>b. \<lparr>HostPort = ''32768''\<rparr>)) (co_PortBindings opts p)), w))\<rparr>"

lemma ex_engine_sel [simp]:
  "client_New ex_engine w = (None, w)" "client_Close ex_engine w = (None, w)"
  "ContainerCreate ex_engine t opts w = (if co_Name opts \<in> fst ` set w then (Inl (External ''Conflict''), w)
     else (Inr (co_Name opts), (co_Name opts, opts) # w))"
  "ContainerStart ex_engine t i w = (None, w)"
  "ContainerRemove ex_engine t f v i w = (None, filter (\<lambda>(j, opts). j \<noteq> i) w)"
  "ContainerList ex_engine t l w = (Inr (map fst w), w)"
  "ContainerInspect ex_engine t i w = (case map_of w i of
           None \<Rightarrow> (Inl (External ''No such container''), w)
         | Some opts \<Rightarrow> (Inr (\<lambda>p. map_option (map (\<lambda>b. \<lparr>HostPort = ''32768''\<rparr>)) (co_PortBindings opts p)), w))"
  by (simp_all add: ex_engine_def)

lemma ex_engine: "engine ex_engine (\<lambda>w. fst ` set w)"
  by (auto simp: engine_def image_iff split: if_splits)

lemma ex_removals: "removals_succeed ex_engine"
  by (simp add: removals_succeed_def)

lemma ex_publishes: "publishes ex_engine map_of"
  by (auto simp: publishes_def split: if_splits option.splits)

definition ex_zombie :: ex_containers where
  "ex_zombie = [(''old'', containerCreateOptions ex_cfg Map.empty ''9'')]"

lemma Itoa1: "Itoa (Suc 0) = ''1''" by code_simp

theorem containers_accounted_witness:
  "\<exists>wm dc w. Start (NewWorkerManager (docker_ops ex_engine) silent_broker idle_db ex_cfg)
       (NewDockerConnection, ex_zombie) = (None, wm, dc, w) \<and>
     fst ` set w = {''lobbylab-game-server-0'', ''lobbylab-game-server-1''} \<and>
     snd (Shutdown_release wm (dc, w)) = []"
proof -
  let ?call = "Start (NewWorkerManager (docker_ops ex_engine) silent_broker idle_db ex_cfg)
       (NewDockerConnection, ex_zombie)"
  have l: "leaves_docker cs (broker_Open silent_broker ex_cfg)" "leaves_docker cs (db_Open idle_db)"
    "leaves_docker cs (broker_Close silent_broker)" "leaves_docker cs (db_Close idle_db)" for cs :: "ex_containers \<Rightarrow> string set"
    by (simp_all add: leaves_docker_def silent_broker_def idle_db_def)
  obtain r wm dc w where c: "?call = (r, wm, dc, w)" by (metis surj_pair)
  have e: "fst ?call = None \<and>
      map fst (snd (snd (snd ?call))) = [''lobbylab-game-server-1'', ''lobbylab-game-server-0''] \<and>
      map ContainerID (workers (fst (snd ?call))) = [''lobbylab-game-server-0'', ''lobbylab-game-server-1'']"
    by (simp add: eval_start Start_def OpenDocker_def NewDockerConnection_def docker_guard_def
        RemoveZombieWorkers_def SpawnContainer_def silent_broker_def idle_db_def ex_zombie_def ex_cfg_def
        containerCreateOptions_def upt_rec Itoa1 Let_def)
  with c have r: "r = None" and w: "fst ` set w = {''lobbylab-game-server-0'', ''lobbylab-game-server-1''}"
    by (auto simp flip: set_map)
  note t = containers_accounted [OF ex_engine ex_removals l c [unfolded r]]
  then have "snd (Shutdown_release wm (dc, w)) = []" by simp
  with c r w show ?thesis by (intro exI [of _ wm] exI [of _ dc] exI [of _ w]) simp
qed

definition ex_dc :: DockerConnection where
  "ex_dc = NewDockerConnection\<lparr>dc_config := Some ex_cfg, dc_initialized := True\<rparr>"

theorem client_port_published_witness:
  "\<exists>i w hp w2. SpawnContainer ex_engine ''0'' (ex_dc, []) = (Inr i, ex_dc, w) \<and>
     GetGamePort ex_engine i (ex_dc, w) = (Inr hp, ex_dc, w2) \<and> hp \<noteq> []"
proof -
  have g: "docker_guard ex_dc = Inr ex_cfg" by (simp add: docker_guard_def ex_dc_def NewDockerConnection_def)
  obtain i w where s: "SpawnContainer ex_engine ''0'' (ex_dc, []) = (Inr i, ex_dc, w)"
    by (simp add: SpawnContainer_def g)
  obtain r dc2 w2 where p: "GetGamePort ex_engine i (ex_dc, w) = (r, dc2, w2)" by (metis surj_pair)
  from s have "\<exists>opts. map_of w i = Some opts" by (auto simp: SpawnContainer_def g)
  then have "\<exists>hp. r = Inr hp \<and> dc2 = ex_dc"
    using p s by (auto simp: GetGamePort_def getPorts_def g SpawnContainer_def containerCreateOptions_def
        genPortMap_def ex_cfg_def)
  then obtain hp where r: "r = Inr hp" "dc2 = ex_dc" by blast
  from client_port_published [OF ex_ReadConfig g ex_publishes s refl p] r(1) have "hp \<noteq> []" by simp
  with s p r show ?thesis by (intro exI [of _ i] exI [of _ w] exI [of _ hp] exI [of _ w2]) simp
qed

section \<open>The wrapper\<close>

text \<open>A parser of the environment that looks at its last three variables only.\<close>

definition ex_Parse :: "string list \<Rightarrow> go_error + gameParsedConfig" where
  "ex_Parse vs =
     (case rev vs of
        i # u # l # _ \<Rightarrow> Inr \<lparr>gpc_BrokerURI = drop 9 u, gpc_LogLevel = drop 10 l, gpc_WorkerID = drop 10 i\<rparr>
      | _ \<Rightarrow> Inl (External ''env: required environment variable is not set''))"

lemma ex_parses: "parses_env ex_Parse"
  by (simp add: parses_env_def ex_Parse_def)

theorem worker_identity_witness:
  "\<exists>g. ReadGameConfig (ex_Parse ([''PATH=/bin''] @ co_Env (containerCreateOptions ex_cfg Map.empty (Itoa 1))))
         (\<lambda>s. Inr [s]) [''game-server'', ''./game''] = Inr g \<and>
     game_LogLevel g = - 4 \<and> GameServerArgs g = [''./game'']"
proof -
  have u: "BrokerURI ex_cfg \<noteq> []" by (simp add: ex_cfg_def)
  have c: "(\<lambda>s. Inr [s] :: go_error + string list) ''./game'' = Inr [''./game'']" by simp
  note t = worker_identity [where Split = "\<lambda>s. Inr [s] :: go_error + string list" and command = "''./game''"
        and base = "[''PATH=/bin'']" and pm = Map.empty and i = 1 and prog = "''game-server''",
        OF ex_ReadConfig u ex_parses c]
  from t obtain g where
    "ReadGameConfig (ex_Parse ([''PATH=/bin''] @ co_Env (containerCreateOptions ex_cfg Map.empty (Itoa 1))))
         (\<lambda>s. Inr [s]) [''game-server'', ''./game''] = Inr g"
    "game_LogLevel g = GameServerLogLevel ex_cfg" "GameServerArgs g = [''./game'']"
    by (elim exE conjE)
  then show ?thesis by (intro exI [of _ g]) (simp add: ex_cfg_def)
qed


section \<open>Shutting down\<close>

text \<open>The matchmaker's connection of the scripted deployment is open already.\<close>

theorem failed_matchmaker_hangs_witness:
  "\<exists>m wm w. Run_begin script_env (\<lambda>x. x) script_docker script_broker (lift_database get_wm put_wm script_pg)
       script_config script_world = (Some (Sentinel ErrDBConnAlreadyOpen), Some m, wm, w) \<and>
     Run_end (Some m) (wm, w) = None"
proof -
  let ?run = "Run_begin script_env (\<lambda>x. x) script_docker script_broker (lift_database get_wm put_wm script_pg)
       script_config script_world"
  obtain r m wm w where run: "?run = (r, m, wm, w)" by (metis surj_pair)
  have "fst ?run = Some (Sentinel ErrDBConnAlreadyOpen) \<and> fst (snd ?run) \<noteq> None"
    by (simp add: Run_begin_def system_matchmaker_def NewMatchmaker_def StartMatchmaker_def
        eval_start eval_db Let_def)
  with run obtain mm where r: "r = Some (Sentinel ErrDBConnAlreadyOpen)" "m = Some mm" by auto
  let ?s = "script_start\<lparr>mgr := wm, world := w\<rparr>"
  have s: "rpc ?s = R_Poll" "spc ?s = S_Recv" "hpc ?s = H_Wait" "ctx ?s = None"
    by (simp_all add: script_start_def split: prod.splits)
  have "Run_begin script_env (\<lambda>x. x) script_docker script_broker (lift_database get_wm put_wm script_pg)
       script_config script_world = (Some (Sentinel ErrDBConnAlreadyOpen), Some mm, mgr ?s, world ?s)"
    using run r by simp
  from failed_matchmaker_hangs [OF this s rtranclp.rtrancl_refl] run r show ?thesis
    by (intro exI [of _ mm] exI [of _ wm] exI [of _ w]) simp
qed

text \<open>The scripted deployment with a sequence that cannot be reached, once it is told to stop.\<close>

definition ex_stopping :: "deployment sys" where
  "ex_stopping = script_start\<lparr>ctx := Some (Sentinel Canceled)\<rparr>"


section \<open>Replaying\<close>

text \<open>A cancel and then the result of the same match: the result counts.\<close>

theorem restart_replay_witness:
  "\<exists>c p. save_all [ex_result\<lparr>Success := False\<rparr>, ex_result] ex_mgr (ex_conn, ex_added) = (c, p) \<and>
     map m_canceled (matches (store p)) = [False] \<and> map m_active (matches (store p)) = [False] \<and>
     save_all [ex_result\<lparr>Success := False\<rparr>, ex_result] ex_mgr (c, p) = (c, p)"
proof -
  let ?rs = "[ex_result\<lparr>Success := False\<rparr>, ex_result]"
  obtain c p where s: "save_all ?rs ex_mgr (ex_conn, ex_added) = (c, p)" by (metis surj_pair)
  have c: "connected (ex_conn, ex_added)" using ex_connected by (simp add: connected_def ex_added_def)
  have ok: "\<forall>res\<in>set ?rs. int4 (res_MatchID res) \<and> jsonb_ok script_pg (Details res)"
    by (simp add: ex_defs)
  note t = restart_replay [OF ex_mgr_db c ok s]
  then have m: "map m_canceled (matches (store p)) = [False]" "map m_active (matches (store p)) = [False]"
    by (simp_all add: ex_added_def add_match_store_def ex_defs)
  from t have a: "save_all ?rs ex_mgr (c, p) = (c, p)" by blast
  from s m a show ?thesis by (intro exI [of _ c] exI [of _ p] conjI)
qed

section \<open>End to end\<close>

text \<open>A manager that has nothing to do, over the stream and the database with ann's match.\<close>

definition ex_service_env :: "ex_stream service_world sys_env" where
  "ex_service_env =
     \<lparr>rt = \<lparr>time_Now = (\<lambda>w. (1, w)), ctx_Err = (\<lambda>w. None)\<rparr>, unmarshal = unmarshal_Result,
      marshal = (\<lambda>us. Inr (marshal_players us)), mdb = idle_db, env = (\<lambda>w w'. False)\<rparr>"

definition ex_service :: "bytes \<Rightarrow> ex_stream service_world sys" where
  "ex_service p =
     \<lparr>mgr = (NewWorkerManager script_docker (lift_broker (manager_broker (ex_nats ''''))) (database_side script_pg)
               script_config)
              \<lparr>workers := [snd (SetOccupied 1 (NewWorker ''0'' ''c0'' 3 30))], wm_initialized := True\<rparr>,
      world = ((ex_nc, [p], {}), ex_conn, ex_added), mu = Unlocked, rpc = R_Poll, spc = S_Recv, hpc = H_Wait,
      mpc = M_Wait, ctx = None, after_func = False, drawn = [1], assigned = [1], handed = [], processed = []\<rparr>"

lemma ex_receptive: "receptive (ex_nats '''') script_pg ex_service_env (ex_service p)"
  by (simp add: receptive_def ex_service_def ex_service_env_def NewWorkerManager_def pool_inv_def
      matches_unique_def wf_SetOccupied wf_NewWorker)

theorem report_recorded_witness:
  "\<exists>p t q. send_report (ex_nats '''') Background 1 None (ex_gc, [], {}) = (None, ex_gc, [p], {}) \<and>
     running_matches (mgr (ex_service p)) = {1} \<and> (sys_step ex_service_env)\<^sup>*\<^sup>* (ex_service p) t \<and>
     running_matches (mgr t) = {} \<and> snd (snd (world t)) = q \<and> map m_canceled (matches (store q)) = [True]"
proof -
  obtain p' where r: "send_report (ex_nats '''') Background 1 None (ex_gc, [], {}) = (None, ex_gc, [p'], {})"
    using ex_open(1) send_report_publishes [of ex_gc 1 None "ex_nats ''''" Background "([], {})"] by auto
  have b: "(0::int) < 1" "(1::int) < 2 ^ 31" "\<forall>out. None = Some out \<longrightarrow> json_text 9999 out" by simp_all
  note t = report_recorded [OF ex_jetstream ex_open(1) b r]
  have st: "world (ex_service p') = ((ex_nc, [p'], {}), ex_conn, ex_added)" by (simp add: ex_service_def)
  have c: "connected (ex_conn, ex_added)" using ex_connected by (simp add: connected_def ex_added_def)
  let ?msg = "\<lparr>Data = p', Ack = (\<lambda>w. (None, w))\<rparr> :: ex_stream Message"
  have n: "js_Next (ex_nats '''') MaxInt64 ([p'], {}) = (Inr ?msg, ([], {}))" "Ack ?msg ([], {}) = (None, ([], {}))"
    by simp_all
  from t obtain p details where p: "fst ([p'], {} :: string set) = fst ([], {} :: string set) @ [p]"
    and d: "details = ''{}''"
    and all: "\<And>P E s nc w rest c q msg w1 w2.
        receptive (ex_nats '''') P E s \<and> world s = ((nc, w), c, q) \<and> nats_guard nc = None \<and> fst w = p # rest \<and>
        js_Next (ex_nats '''') MaxInt64 w = (Inr msg, w1) \<and> Ack msg w1 = (None, w2) \<and>
        connected (c, q) \<and> jsonb_ok P details \<longrightarrow>
        (\<exists>t q'. (sys_step E)\<^sup>*\<^sup>* s t \<and> world t = ((nc, w2), c, q') \<and>
           running_matches (mgr t) = running_matches (mgr s) - {1} \<and>
           matches (store q') = map (\<lambda>x. if m_id x = 1
              then x\<lparr>m_results := json_column details, m_canceled := True, m_active := False\<rparr> else x)
              (matches (store q)))"
    by fastforce
  from p have pp: "p = p'" by simp
  have "jsonb_ok script_pg details" by (simp add: d)
  with all [of script_pg ex_service_env "ex_service p'" ex_nc "([p'], {})" ex_conn ex_added "[]" ?msg "([], {})" "([], {})"]
    ex_receptive [of p'] st c n ex_open(3) pp
  obtain t q' where f: "(sys_step ex_service_env)\<^sup>*\<^sup>* (ex_service p') t" "world t = ((ex_nc, [], {}), ex_conn, q')"
    "running_matches (mgr t) = running_matches (mgr (ex_service p')) - {1}"
    "matches (store q') = map (\<lambda>x. if m_id x = 1
              then x\<lparr>m_results := json_column details, m_canceled := True, m_active := False\<rparr> else x)
              (matches (store ex_added))" by auto
  have one: "running_matches (mgr (ex_service p')) = {1}"
    by (auto simp: ex_service_def running_matches_def)
  have "map m_canceled (matches (store q')) = [True]"
    by (simp add: f(4)) (simp add: ex_added_def add_match_store_def ex_defs)
  with r one f(1-3) show ?thesis
    by (intro exI [of _ p'] exI [of _ t] exI [of _ q']) simp
qed

section \<open>Types and health checks\<close>

text \<open>
  The worker of the scripted deployment, running a match: it answers two health checks and then
  no more, over four.
\<close>

definition ex_busy :: "deployment WorkerManager" where
  "ex_busy = upd_worker 0 (snd (SetOccupied 1 (NewWorker ''0'' ''c0'' 3 30))) (mgr script_start)"

lemma ex_busy_sel [simp]:
  "workers ex_busy = [snd (SetOccupied 1 (NewWorker ''0'' ''c0'' 3 30))]"
  "saveResultChan ex_busy = []" "wg ex_busy = [SaveLoop, ResultLoop, HealthLoop]"
  "brokerConn ex_busy = script_broker" "resultChanSize ex_busy = 8192"
  by (simp_all add: ex_busy_def eval)

lemma ex_round:
  assumes "brokerConn wm = script_broker" and "workers wm = [wk]" and "State wk = WorkerOccupied"
    and "stateValidUntil wk = zero_time" and "alive w = {}" and "0 \<le> failCount wk" and "failCount wk < 900"
    and "length (saveResultChan wm) < resultChanSize wm"
  shows "healthCheck (rt script_env) wm w = Some (None,
    if failCount wk + 1 \<le> maxPingRetries wk then wm\<lparr>workers := [wk\<lparr>failCount := failCount wk + 1\<rparr>]\<rparr>
    else wm\<lparr>workers := [snd (SetRestarting 1 wk)], saveResultChan := saveResultChan wm @ [cancel_result (MatchID wk)],
           wg := wg wm @ [RestartCall 0 (wrap64 (StateID wk + 1))]\<rparr>, w)"
  using assms wrap_small [of "failCount wk + 1"]
  by (simp add: healthCheck_def healthCheck_worker_def HandlePong_def IsHealthy_def isStateValid_def IsZero_def
      chan_send_def upd_worker_def SetRestarting_def Let_def)

lemma ex_maxPingRetries: "maxPingRetries (NewWorker i c r t) = r"
  by (simp add: NewWorker_def)

lemma ex_silence:
  "\<exists>wm' w'. check_rounds (rt script_env) 4 ex_busy (script_world\<lparr>alive := {}\<rparr>) = Some ([{}, {}, {}, {}], wm', w')"
  by (simp add: numeral_eq_Suc ex_round ex_maxPingRetries)

theorem system_typed_witness:
  "\<exists>s :: deployment sys. running_matches (mgr s) = {1} \<and> list_all wf_worker (workers (mgr s)) \<and>
     (\<exists>cs. map created (workers (mgr s)) =
         map2 (\<lambda>i c. NewWorker (Itoa i) c 3 (seconds 30)) [0..<nat (Workercount (config (mgr s)))] cs)"
proof -
  let ?P = "\<lambda>s. running_matches (mgr s) = {1}"
  obtain n t where t: "reach script_env n t" "n \<le> 2 ^ 62" and "?P t"
    by (rule script_run [of ?P make_match]) (simp_all add: schedules eval running_matches_def Collect_conv_if)
  with system_typed [OF t] show ?thesis by (intro exI [of _ t]) blast
qed

theorem silent_worker_given_up_witness:
  "\<exists>wm' w'. check_rounds (rt script_env) 4 ex_busy (script_world\<lparr>alive := {}\<rparr>) = Some ([{}, {}, {}, {}], wm', w') \<and>
     RestartCall 0 2 \<in> set (wg wm') \<and> cancel_result 1 \<in> set (saveResultChan wm')"
proof -
  let ?wk = "snd (SetOccupied 1 (NewWorker ''0'' ''c0'' 3 30))"
  from ex_silence obtain wm' w'
    where r: "check_rounds (rt script_env) 4 ex_busy (script_world\<lparr>alive := {}\<rparr>) = Some ([{}, {}, {}, {}], wm', w')"
    by blast
  have inv: "pool_inv ex_busy"
    by (simp add: pool_inv_def matches_unique_def wf_SetOccupied wf_NewWorker)
  have id: "wrap64 (StateID ?wk + 1) = 2" by (simp add: NewWorker_def wrap_small)
  have "silent_for (ID ?wk) (maxPingRetries ?wk + 1) [{}, {}, {}, {}]"
    unfolding silent_for_def by (intro exI [of _ "[]"] exI [of _ "[{}, {}, {}, {}]"]) (simp add: NewWorker_def)
  with silent_worker_given_up [OF r inv, of 0 ?wk] id r show ?thesis by simp
qed

end
