(* ===== verification/Log_Handler.thy ===== *)
theory Log_Handler
  imports Config
begin

text \<open>
  \<open>server-manager/internal/handler.go\<close>: the log handler that turns records of context errors
  into debug records.  The handler it wraps (\<open>slog.Handler\<close>) is a record of functions; the
  context that is only passed on is left out.
\<close>

section \<open>Records and handlers\<close>

text \<open>The value of an attribute is an error or something else, of which only the text matters.\<close>

datatype attr_value = ErrorValue go_error | OtherValue string

type_synonym log_attr = "string \<times> attr_value"

record log_record =
  rec_Level :: log_level
  rec_Message :: string
  rec_Attrs :: "log_attr list"

text \<open>\<open>WithAttrs\<close> and \<open>WithGroup\<close> give another handler of the same kind, here of type \<open>'h\<close>.\<close>

record ('h, 'w) Handler_ops =
  h_Enabled :: "'h \<Rightarrow> log_level \<Rightarrow> bool"
  h_Handle :: "'h \<Rightarrow> log_record \<Rightarrow> 'w proc"
  h_WithAttrs :: "'h \<Rightarrow> log_attr list \<Rightarrow> 'h"
  h_WithGroup :: "'h \<Rightarrow> string \<Rightarrow> 'h"

record 'h ContextErrorHandler =
  handler :: 'h

definition NewContextErrorHandler :: "'h \<Rightarrow> 'h ContextErrorHandler" where
  "NewContextErrorHandler next_handler = \<lparr>handler = next_handler\<rparr>"

section \<open>Handling a record\<close>

text \<open>The callback given to \<open>Record.Attrs\<close>, over the attributes until it returns false.\<close>

fun scan_attrs :: "log_attr list \<Rightarrow> bool" where
  "scan_attrs [] = False"
| "scan_attrs ((key, v) # as) =
     (if key \<noteq> ''error'' then scan_attrs as
      else case v of
        OtherValue _ \<Rightarrow> scan_attrs as
      | ErrorValue e \<Rightarrow>
          if errors_is e Canceled \<or> errors_is e DeadlineExceeded then True else scan_attrs as)"

definition Handle :: "('h, 'w) Handler_ops \<Rightarrow> 'h ContextErrorHandler \<Rightarrow> log_record \<Rightarrow> 'w proc" where
  "Handle ops h r w =
     (if scan_attrs (rec_Attrs r)
      then if \<not> h_Enabled ops (handler h) LevelDebug then (None, w)
           else h_Handle ops (handler h) (r\<lparr>rec_Level := LevelDebug\<rparr>) w
      else h_Handle ops (handler h) r w)"

definition Enabled :: "('h, 'w) Handler_ops \<Rightarrow> 'h ContextErrorHandler \<Rightarrow> log_level \<Rightarrow> bool" where
  "Enabled ops h level = h_Enabled ops (handler h) level"

definition WithAttrs :: "('h, 'w) Handler_ops \<Rightarrow> 'h ContextErrorHandler \<Rightarrow> log_attr list \<Rightarrow> 'h ContextErrorHandler" where
  "WithAttrs ops h attrs = \<lparr>handler = h_WithAttrs ops (handler h) attrs\<rparr>"

definition WithGroup :: "('h, 'w) Handler_ops \<Rightarrow> 'h ContextErrorHandler \<Rightarrow> string \<Rightarrow> 'h ContextErrorHandler" where
  "WithGroup ops h name = \<lparr>handler = h_WithGroup ops (handler h) name\<rparr>"

section \<open>Properties\<close>

text \<open>
  Every attribute named \<open>error\<close> is looked at: the scan finds a context error wherever it is,
  also behind other errors, and at any depth of wrapping.
\<close>

lemma scan_attrs_iff:
  "scan_attrs as \<longleftrightarrow>
     (\<exists>e. (''error'', ErrorValue e) \<in> set as \<and> (errors_is e Canceled \<or> errors_is e DeadlineExceeded))"
  by (induction as rule: scan_attrs.induct) (auto split: attr_value.splits if_splits)

text \<open>
  With debug records disabled, as in production, a context error is never written; every other
  record reaches the wrapped handler unchanged.
\<close>

lemma Handle_production:
  assumes "\<not> h_Enabled ops (handler h) LevelDebug"
  shows "Handle ops h r w =
     (if \<exists>e. (''error'', ErrorValue e) \<in> set (rec_Attrs r) \<and>
             (errors_is e Canceled \<or> errors_is e DeadlineExceeded)
      then (None, w) else h_Handle ops (handler h) r w)"
  using assms by (auto simp: Handle_def scan_attrs_iff)

end
