(* ===== verification/Entry_Points.thy ===== *)
theory Entry_Points
  imports Game_App Manager_Run Log_Handler
begin

text \<open>
  The two programs: \<open>server-manager/main.go\<close> and \<open>game-server/host/main.go\<close>, with the loggers they
  set up and the status they exit with.  Signals are what ends the context
  (\<open>signal.NotifyContext\<close>); in the models of \<open>Run\<close> they are steps or events of the world.
\<close>

section \<open>Loggers\<close>

text \<open>
  \<open>NewJSONHandler\<close> of the standard library is the first argument: a handler for a level.  The
  server-manager wraps it; the game-server tags every record with the worker's ID
  (\<open>NewLogger\<close> of \<open>internal/logger.go\<close>).
\<close>

definition manager_handler :: "(log_level \<Rightarrow> 'h) \<Rightarrow> EnvConfig \<Rightarrow> 'h ContextErrorHandler" where
  "manager_handler NewJSONHandler cfg = NewContextErrorHandler (NewJSONHandler (LogLevel cfg))"

definition NewLogger :: "('h, 'w) Handler_ops \<Rightarrow> (log_level \<Rightarrow> 'h) \<Rightarrow> gameConfig \<Rightarrow> 'h" where
  "NewLogger ops NewJSONHandler cfg =
     h_WithAttrs ops (NewJSONHandler (game_LogLevel cfg)) [(''workerID'', OtherValue (game_WorkerID cfg))]"

section \<open>The programs\<close>

text \<open>How a process ends: by a panic, or with a status.\<close>

datatype process_end = Panic go_error | Exit int

definition program_status :: "go_error option \<Rightarrow> process_end" where
  "program_status r = (case r of None \<Rightarrow> Exit 0 | Some e \<Rightarrow> Exit 1)"

text \<open>
  The server-manager reads its configuration, or panics; then it is in \<open>Run\<close>: the error \<open>Run\<close> is
  going to return, what it will shut down, and the manager.  When the deferred calls of \<open>Run\<close> have
  returned, it exits with the status of that error.
\<close>

definition main_manager ::
    "go_error + parsedConfig \<Rightarrow> (string \<Rightarrow> go_error + port) \<Rightarrow> 'w sys_env \<Rightarrow>
     ('w WorkerManager \<times> 'w \<Rightarrow> 'w WorkerManager \<times> 'w) \<Rightarrow> 'w DockerConnection_ops \<Rightarrow>
     'w BrokerConnection_ops \<Rightarrow> 'w DatabaseConnection_ops \<Rightarrow> 'w \<Rightarrow>
     process_end + go_error option \<times> ('w WorkerManager \<times> 'w) Matchmaker option \<times> 'w WorkerManager \<times> 'w" where
  "main_manager parsed ParsePort E wait docker br db w =
     (case ReadConfig parsed ParsePort of
        Inl e \<Rightarrow> Inl (Panic (Errorf ''failed to read config: %w'' [e]))
      | Inr cfg \<Rightarrow> Inr (Run_begin E wait docker br db cfg w))"

definition main_manager_exit ::
    "go_error option \<Rightarrow> ('w WorkerManager \<times> 'w) Matchmaker option \<Rightarrow> 'w WorkerManager \<times> 'w \<Rightarrow>
     (process_end \<times> 'w WorkerManager \<times> 'w) option" where
  "main_manager_exit r m x = map_option (\<lambda>y. (program_status r, y)) (Run_end m x)"

text \<open>The wrapper.\<close>

definition main_game ::
    "go_error + gameParsedConfig \<Rightarrow> (string \<Rightarrow> go_error + string list) \<Rightarrow> string list \<Rightarrow> 'w Nats \<Rightarrow>
     (go_error option \<Rightarrow> 'w game_nats_world game_world \<Rightarrow> 'w game_nats_world game_world) \<Rightarrow> os \<Rightarrow> 'w \<Rightarrow>
     (process_end \<times> os \<times> 'w) option" where
  "main_game parsed Split args N backoff os w =
     map_option (\<lambda>(r, y). (program_status r, y)) (RunGame parsed Split args N backoff os w)"

section \<open>What the status says\<close>

text \<open>
  The manager exits only with what \<open>Run\<close> was going to return, and not at all as long as a deferred
  shutdown waits.
\<close>

lemma main_manager_exit_iff:
  "main_manager_exit r m x = Some (p, y) \<longleftrightarrow> Run_end m x = Some y \<and> p = program_status r"
  by (cases y) (auto simp: main_manager_exit_def)

text \<open>
  The wrapper exits with 1 when its configuration is wrong or its broker cannot be reached, and
  then it has not touched the machine; after it has served it exits with 1 only if its loop
  returned an error other than the cancellation a signal causes.
\<close>

lemma main_game_config:
  "ReadGameConfig parsed Split args = Inl e \<Longrightarrow>
   main_game parsed Split args N backoff os w = Some (Exit 1, os, w)"
  by (simp add: main_game_def RunGame_def program_status_def)

lemma main_game_unreachable:
  assumes "ReadGameConfig parsed Split args = Inr cfg"
    and "OpenGame N (initTimeout (deployed_server (game_broker N) (GameServerArgs cfg)))
      (NewConnection (game_BrokerURI cfg) (game_WorkerID cfg), w) = (Some e, gc, w')"
  shows "main_game parsed Split args N backoff os w = Some (Exit 1, os, w')"
proof -
  let ?srv = "deployed_server (game_broker N) (GameServerArgs cfg)"
  have "\<not> srv_opened ?srv" "\<not> srv_closed ?srv" by (simp_all add: deployed_server_def NewServer_def)
  with assms show ?thesis
    by (simp add: main_game_def RunGame_def runServerApp_def OpenServer_def on_broker_def game_broker_def
        program_status_def)
qed

lemma main_game_served:
  assumes "ReadGameConfig parsed Split args = Inr cfg"
    and "OpenServer (deployed_server (game_broker N) (GameServerArgs cfg))
      ((NewExecutor (GameServerArgs cfg), os), NewConnection (game_BrokerURI cfg) (game_WorkerID cfg), w)
      = (None, srv, x)"
    and "main_game parsed Split args N backoff os w = Some (p, y)"
  shows "\<exists>r z. RunServerLoop service_ctx backoff srv x = Some (r, z) \<and>
    p = (if r = None \<or> error_is r Canceled then Exit 0 else Exit 1)"
  using assms
  by (auto simp: main_game_def RunGame_def runServerApp_def program_status_def split: option.splits)

end
