(* ===== verification/Spec2Isabelle.thy ===== *)
theory Spec2Isabelle
  imports Service_Instances Entry_Points
begin

text \<open>
  A verification development of LobbyLab.

  The program.  LobbyLab consists of two Go services and a web API in JavaScript.  The
  server-manager keeps a pool of game-server containers, forms matches out of the users waiting
  in a PostgreSQL database, hands each match to a free container and records what comes of it.
  In every container the game-server wrapper runs: it takes one match at a time from the
  message broker (NATS), starts the game's process with the players' configuration and
  publishes its result, or a cancel.  The two services talk through NATS only: a request per
  assignment, a broadcast ping that workers answer with their ID, and a stream of results.

  The theories, in the order the code has its parts (paths under \<open>src/\<close>):

    \<^item> \<open>Prelude\<close>: Go error values and \<open>errors.Is\<close>, machine integers, time, decimal numerals, generic
      lemmas on lists.  \<open>Types\<close>: \<open>server-manager/internal\<close>, the data and the ports (interfaces), as
      records of functions on the world.  \<open>Backoff\<close>: \<open>app/helpers.go\<close> of both services.
    \<^item> \<open>Worker\<close>: \<open>server-manager/app/worker.go\<close>.  \<open>Manager\<close>: \<open>app/mgr.go\<close>, every method of the worker
      manager as a function on its record, with the channel, the wait group and the condition
      variable as fields; an operation that blocks is \<open>None\<close>.  \<open>Matchmaker\<close>: \<open>app/matchmaker.go\<close>.
      \<open>Manager_Run\<close>: \<open>app/run.go\<close>.  \<open>Entry_Points\<close>: \<open>main.go\<close> of both services and the loggers.
    \<^item> \<open>ManagerSystem\<close>: the goroutines of \<open>mgr.go\<close> and \<open>matchmaker.go\<close> as one step relation \<open>sys_step\<close>: the
      result, save and health loops, the restart goroutines and the matchmaking loop, over the
      functions of \<open>Manager\<close>; a critical section is one step, but the health check, which may
      block in between, takes one step per worker under the lock.  \<open>System_Runs\<close>: the same as
      a function of who moves, for concrete schedules.
    \<^item> \<open>Database\<close>: \<open>server-manager/adapters/db.go\<close> over a model of the four tables; a fault may strike
      each round trip.  \<open>Docker\<close>: \<open>adapters/docker.go\<close>.  \<open>Nats\<close>: what both services use of the client
      library.  \<open>Manager_Broker\<close>, \<open>Game_Broker\<close>: the two \<open>adapters/broker.go\<close>.  \<open>Json\<close>: what \<open>encoding/json\<close>
      does with the structures exchanged, down to its scanner.  \<open>Config\<close>: both \<open>config/env.go\<close>.
      \<open>Log_Handler\<close>: \<open>server-manager/internal/handler.go\<close>.
    \<^item> \<open>Game_OS\<close>: what the wrapper uses of the operating system: files, processes, groups, signals,
      contexts, with faults and events as lists.  \<open>Executor\<close>: \<open>game-server/host/adapters/exec.go\<close> and
      \<open>waiter.go\<close>.  \<open>Game_Ports\<close>: \<open>internal/interfaces.go\<close>.  \<open>Server\<close>: \<open>app/server.go\<close> and \<open>app.go\<close>.
      \<open>Game_App\<close>: the whole wrapper.

  The abstract specifications, and the interfaces stated as locales, each interpreted on the
  model in the theory of its provider: \<open>worker_manager\<close> (what the matchmaker relies on of the
  manager), \<open>match_records\<close> (the database between matchmaker and save loop, over the abstract
  view of which match a user is in and which matches are active), \<open>match_creation\<close> (both
  together), \<open>game_executor\<close> and \<open>game_server\<close> (the server over an executor), \<open>payload\<close> (a JSON
  message from sender to receiver), and \<open>counted_invariant\<close> and \<open>system_invariant\<close> (what is to
  be shown of an invariant of the goroutines).

  What the lemmas show:

    \<^item> \<open>Manager_Props\<close>: the pool invariant, each operation on each branch, \<open>healthCheck\<close> as a map,
      \<open>Start\<close>.  \<open>ManagerSystem_Props\<close>: in every interleaving no match is lost or run twice, a late
      restart frees no busy worker, results are handed over once and in order, no wakeup is
      lost and the lock is released.  \<open>Type_Safety\<close>: every reachable state is well-typed.
      \<open>Health_Rounds\<close>: when a silent worker is given up.  \<open>Refinement\<close>: the methods as functions are
      implemented by the steps of the goroutines.  \<open>Manager_Run\<close>: shutdown, also of a half-started
      service.  \<open>Scenarios\<close>: two runs the code allows although it does not mean to.
    \<^item> \<open>Database_Props\<close> and \<open>Match_Records\<close>: the adapter's methods are atomic, when they succeed, the
      integrity of the tables, the life of a match.  \<open>Replay\<close>: the result stream read again after a
      restart.  \<open>Matchmaker_Props\<close>: polling, and what a created or failed match leaves.
    \<^item> \<open>Executor_Props\<close> and \<open>Server_Props\<close>: the executor ends every process and removes every file, each
      match taken is reported, and what a failed start does.  \<open>Game_App\<close>: the wrapper leaves
      nothing behind, and goes by the identity the manager gave its container.
    \<^item> \<open>Json_Props\<close> and \<open>Payloads\<close>: round trips of the two payloads.  \<open>Broker_Props\<close>: an assignment and a
      report across both adapters.  \<open>Docker_Props\<close>: the containers over the life of a manager.
      \<open>End_to_End\<close>: a report through NATS, the goroutines and the database into its row.
    \<^item> \<open>Deployment\<close>, \<open>Instances\<close>, \<open>Game_Instances\<close> and \<open>Service_Instances\<close>: a scripted deployment and other
      concrete instances on which the properties are applied.

  Bounds.  State IDs of workers are Go's \<open>int\<close>, with the wrap-around written out; the invariants
  that compare them hold for runs of at most \<open>2 ^ 62\<close> steps, in which no ID can wrap (a step raises
  one ID by one at most).  The result channel has the capacity 8192 of \<open>NewWorkerManager\<close>.  JSON may
  be nested 10000 deep, the limit of \<open>encoding/json\<close>, and 9999 inside an object.  The wrapper
  is run on finite lists of events; its loops are partial functions whose returning is
  stated and proved as such, without fuel.

  Parameters and hypotheses.  Code that is not in the repository is an argument of the
  definitions: the Docker and NATS clients, the environment, port and shell parsers, the
  backoff policy, the SQL functions \<open>random()\<close> and the order of a scan.  What a property relies
  on of it is a named predicate: \<open>jetstream\<close> (the stream is a queue), \<open>routes\<close> (a request
  needs a subscriber), \<open>engine\<close> and \<open>removals_succeed\<close> (containers exist from creation to
  removal), \<open>publishes\<close> (a published port is bound), \<open>leaves_docker\<close> (the other adapters do not
  touch containers), \<open>parses_env\<close> (the environment is parsed back), \<open>backoff_waits\<close> (a
  backoff only waits), \<open>fresh_ids\<close> (a sequence does not repeat).

  Not modelled.  The text of log records and the JSON handler of \<open>log/slog\<close>; the generated mocks;
  the insides of JetStream, of the Docker engine and of PostgreSQL beyond the four tables and
  the statements the adapter sends; contexts of single calls in the server-manager beyond the
  error they cause; data races on unguarded memory (Go gives them no meaning; the one that was
  found is listed with the findings).  The API in JavaScript appears only through what it
  writes to the shared tables.
\<close>

end
